(* ===== verification/News_Prelude.thy ===== *)
theory News_Prelude
  imports Main "HOL-Library.AList" "HOL-Library.List_Lexorder" "HOL-Library.Char_ord"
begin

text \<open>
  Shared vocabulary of the development: time in milliseconds (the unit of
  \<open>staleTime\<close>, \<open>gcTime\<close> and \<open>retryDelay\<close> in \<open>App.tsx\<close>), the JavaScript idioms the
  sources use everywhere (\<open>x || d\<close> on optional strings and lists, \<open>startsWith\<close>,
  \<open>trim\<close>), and lemmas on association lists, which model the insertion-ordered
  \<open>Map\<close> of the query cache.  The named collection \<open>js_simps\<close> gathers the
  evaluation rules of the JavaScript idioms so that component proofs can use them
  with \<open>simp add: js_simps\<close>.
\<close>

named_theorems js_simps "evaluation rules of the JavaScript idioms"
named_theorems alist_simps "facts about association-list caches"

type_synonym millis = nat

section \<open>JavaScript idioms\<close>

text \<open>\<open>s || d\<close> for an optional string: \<open>undefined\<close>, \<open>null\<close> and \<open>''\<close> are falsy.\<close>

definition js_or :: "string option \<Rightarrow> string \<Rightarrow> string" where
  "js_or s d = (case s of None \<Rightarrow> d | Some x \<Rightarrow> (if x = [] then d else x))"

text \<open>\<open>data || []\<close> for an optional list: an array, even an empty one, is truthy.\<close>

definition list_or :: "'a list option \<Rightarrow> 'a list" where
  "list_or xs = (case xs of None \<Rightarrow> [] | Some ys \<Rightarrow> ys)"

text \<open>\<open>String.prototype.startsWith\<close>, and list-prefix matching in general.\<close>

definition starts_with :: "'a list \<Rightarrow> 'a list \<Rightarrow> bool" where
  "starts_with p s \<longleftrightarrow> take (length p) s = p"

text \<open>
  \<open>String.prototype.trim\<close> on the ASCII white space the forms can contain (space,
  tab, line feed, vertical tab, form feed, carriage return).
\<close>

definition is_js_space :: "char \<Rightarrow> bool" where
  "is_js_space c \<longleftrightarrow> c \<in> set [CHR '' '', CHR 0x09, CHR 0x0A, CHR 0x0B, CHR 0x0C, CHR 0x0D]"

definition js_trim :: "string \<Rightarrow> string" where
  "js_trim s = rev (dropWhile is_js_space (rev (dropWhile is_js_space s)))"

text \<open>\<open>String.prototype.toUpperCase\<close> on ASCII letters (the strings it is applied to
  are the category names).\<close>

definition js_upper_char :: "char \<Rightarrow> char" where
  "js_upper_char c = (if CHR ''a'' \<le> c \<and> c \<le> CHR ''z'' then char_of (of_char c - (32::nat)) else c)"

definition js_upper :: "string \<Rightarrow> string" where
  "js_upper s = map js_upper_char s"

lemma js_or_simps [js_simps, simp]:
  "js_or None d = d"
  "js_or (Some []) d = d"
  "x \<noteq> [] \<Longrightarrow> js_or (Some x) d = x"
  by (simp_all add: js_or_def)

lemma js_or_nonempty [js_simps]: "d \<noteq> [] \<Longrightarrow> js_or s d \<noteq> []"
  by (simp add: js_or_def split: option.splits)

lemma list_or_simps [js_simps, simp]:
  "list_or None = []"
  "list_or (Some xs) = xs"
  by (simp_all add: list_or_def)

lemma starts_with_iff [js_simps]: "starts_with p s \<longleftrightarrow> (\<exists>t. s = p @ t)"
proof
  assume "starts_with p s"
  then have "s = p @ drop (length p) s"
    by (metis append_take_drop_id starts_with_def)
  then show "\<exists>t. s = p @ t" ..
next
  assume "\<exists>t. s = p @ t"
  then show "starts_with p s" by (auto simp: starts_with_def)
qed

lemma starts_with_append [js_simps, simp]: "starts_with p (p @ t)"
  by (simp add: starts_with_def)

lemma starts_with_Nil [js_simps, simp]: "starts_with [] s"
  by (simp add: starts_with_def)

lemma starts_with_Cons [js_simps, simp]:
  "starts_with (a # p) s \<longleftrightarrow> (case s of [] \<Rightarrow> False | b # t \<Rightarrow> a = b \<and> starts_with p t)"
  by (auto simp: starts_with_def split: list.splits)

lemma all_set_dropWhile: "(\<forall>x\<in>set (dropWhile P s). P x) \<longleftrightarrow> (\<forall>x\<in>set s. P x)"
  by (induction s) auto

lemma js_trim_empty_iff [js_simps]: "js_trim s = [] \<longleftrightarrow> (\<forall>c\<in>set s. is_js_space c)"
  by (simp add: js_trim_def dropWhile_eq_Nil_conv all_set_dropWhile)

lemmas js_upper_eval [js_simps] = js_upper_def js_upper_char_def char_of_def bit_0

lemma js_upper_length [simp]: "length (js_upper s) = length s"
  by (simp add: js_upper_def)

section \<open>Association lists as insertion-ordered maps\<close>

text \<open>
  A JavaScript \<open>Map\<close> keeps its keys in insertion order and \<open>set\<close> on a present key
  keeps its position: exactly \<open>AList.update\<close>.  The facts the cache proofs need
  about it are collected in \<open>alist_simps\<close>.
\<close>

lemma map_of_update_same [alist_simps]: "map_of (AList.update k v c) k = Some v"
  by (simp add: update_conv')

lemma map_of_update_other [alist_simps]: "k' \<noteq> k \<Longrightarrow> map_of (AList.update k v c) k' = map_of c k'"
  by (simp add: update_conv')

lemma distinct_keys_update [alist_simps]:
  "distinct (map fst c) \<Longrightarrow> distinct (map fst (AList.update k v c))"
  by (rule distinct_update)

lemma set_update_entries [alist_simps]:
  "(k', v') \<in> set (AList.update k v c) \<Longrightarrow> (k' = k \<and> v' = v) \<or> (k', v') \<in> set c"
  by (induction c) (auto split: if_splits)

lemma map_of_filter_keep [alist_simps]:
  "distinct (map fst c) \<Longrightarrow> map_of c k = Some v \<Longrightarrow> P (k, v) \<Longrightarrow> map_of (filter P c) k = Some v"
  by (induction c) (auto split: if_splits)

lemma map_of_filter_drop [alist_simps]:
  "distinct (map fst c) \<Longrightarrow> map_of c k = Some v \<Longrightarrow> \<not> P (k, v) \<Longrightarrow> map_of (filter P c) k = None"
proof (induction c)
  case Nil
  then show ?case by simp
next
  case (Cons a c)
  obtain k0 v0 where a: "a = (k0, v0)" by fastforce
  show ?case
  proof (cases "k0 = k")
    case True
    with Cons.prems a have "k \<notin> fst ` set c" and "\<not> P (k0, v0)" by auto
    then have "k \<notin> fst ` set (filter P c)" by auto
    with True a \<open>\<not> P (k0, v0)\<close> show ?thesis by (simp add: map_of_eq_None_iff)
  next
    case False
    with Cons a show ?thesis by simp
  qed
qed

lemma set_update_distinct [alist_simps]:
  "distinct (map fst c) \<Longrightarrow> (k2, e2) \<in> set (AList.update k v c) \<Longrightarrow>
     (k2 = k \<and> e2 = v) \<or> (k2 \<noteq> k \<and> (k2, e2) \<in> set c)"
proof (induction c)
  case Nil
  then show ?case by simp
next
  case (Cons p c)
  show ?case
  proof (cases "fst p = k")
    case True
    with Cons.prems(1) have "k \<notin> fst ` set c" by auto
    with True Cons.prems(2) show ?thesis by (cases p) force
  next
    case False
    with Cons show ?thesis by (cases p) auto
  qed
qed

lemma distinct_keys_filter [alist_simps]:
  "distinct (map fst c) \<Longrightarrow> distinct (map fst (filter P c))"
  by (induction c) auto

end
