(* ===== verification/News_Model.thy ===== *)
theory News_Model
  imports News_Prelude
begin

text \<open>
  The data of \<open>src/redux/slices/categorySlice.ts\<close>: the \<open>NewsItem\<close> interface that every
  other file imports, the union type of the four categories with their string
  literals, and the category slice of the Redux store with its one reducer.
\<close>

section \<open>Categories\<close>

datatype category = Latest | Global | Sports | Tech

text \<open>The string literal of each member of \<open>'latest' | 'global' | 'sports' | 'tech'\<close>.\<close>

fun category_name :: "category \<Rightarrow> string" where
  "category_name Latest = ''latest''"
| "category_name Global = ''global''"
| "category_name Sports = ''sports''"
| "category_name Tech = ''tech''"

text \<open>Reading a string back as a category; any other string is not one.\<close>

definition category_of_name :: "string \<Rightarrow> category option" where
  "category_of_name s =
     (if s = ''latest'' then Some Latest
      else if s = ''global'' then Some Global
      else if s = ''sports'' then Some Sports
      else if s = ''tech'' then Some Tech
      else None)"

definition all_categories :: "category list" where
  "all_categories = [Latest, Global, Sports, Tech]"

section \<open>Articles\<close>

text \<open>
  \<open>interface NewsItem\<close>; \<open>id\<close> is renamed \<open>news_id\<close> (HOL has an \<open>id\<close>), the optional
  \<open>image_url?\<close> is an option.  Timestamps are the ISO strings the service stores.
\<close>

record news_item =
  news_id :: string
  title :: string
  description :: string
  image_url :: "string option"
  video_url :: string
  category :: category
  author :: string
  published_at :: string
  created_at :: string
  updated_at :: string

section \<open>The category slice\<close>

record category_entry =
  ce_id :: string
  ce_name :: string
  ce_display_name :: string

record category_state =
  selectedCategory :: category
  categories :: "category_entry list"

definition category_initial :: category_state where
  "category_initial =
     \<lparr>selectedCategory = Latest,
      categories =
        [\<lparr>ce_id = ''latest'', ce_name = ''latest'', ce_display_name = ''Latest''\<rparr>,
         \<lparr>ce_id = ''global'', ce_name = ''global'', ce_display_name = ''Global''\<rparr>,
         \<lparr>ce_id = ''sports'', ce_name = ''sports'', ce_display_name = ''Sports''\<rparr>,
         \<lparr>ce_id = ''tech'', ce_name = ''tech'', ce_display_name = ''Technology''\<rparr>]\<rparr>"

definition setSelectedCategory :: "category \<Rightarrow> category_state \<Rightarrow> category_state" where
  "setSelectedCategory c s = s\<lparr>selectedCategory := c\<rparr>"

section \<open>Lemmas\<close>

lemma category_of_name_category_name [simp]: "category_of_name (category_name c) = Some c"
  by (cases c) (simp_all add: category_of_name_def)

lemma category_of_name_Some: "category_of_name s = Some c \<Longrightarrow> category_name c = s"
  by (auto simp: category_of_name_def split: if_splits)

lemma category_name_inj [simp]: "category_name c = category_name d \<longleftrightarrow> c = d"
  by (metis category_of_name_category_name option.inject)

lemma set_all_categories [simp]: "set all_categories = UNIV"
proof -
  have "c \<in> set all_categories" for c
    by (cases c) (simp_all add: all_categories_def)
  then show ?thesis by blast
qed

end
