(* ===== verification/News_Service.thy ===== *)
theory News_Service
  imports News_Model "HOL-Library.Multiset"
begin

text \<open>
  The remote content gateway: \<open>src/api/newsService.ts\<close>.  Each method builds a
  PostgREST query through the Supabase client and ends with
  \<open>if (error) throw error; return data || []\<close> (or \<open>return data\<close>).

  The Supabase client and the database are not part of the repository; they are
  modelled from the spec (\<S>6) and the PostgREST behaviour the code relies on: a
  table of rows, filters (\<open>.eq\<close>), ordering on \<open>published_at\<close> descending,
  \<open>.limit\<close>, \<open>.single()\<close> (an error unless exactly one row), the unique key on
  \<open>id\<close>, and a connection that may be down.  Every query answers a record with
  \<open>data\<close> and \<open>error\<close>, as the client does.  The service methods are then the
  sources' own code over these answers.
\<close>

named_theorems gateway_simps "evaluation rules of the modelled PostgREST client"

section \<open>The database and the client (modelled from the spec)\<close>

datatype gateway_error =
    NetworkFailure      \<comment> \<open>the request did not reach the server\<close>
  | SingleRowError      \<comment> \<open>\<open>.single()\<close> on zero or several rows (PGRST116)\<close>
  | UniqueViolation     \<comment> \<open>a write would duplicate an \<open>id\<close> (23505)\<close>

record news_db =
  db_rows :: "news_item list"
  db_online :: bool

record 'a pg_response =
  resp_data :: "'a option"
  resp_error :: "gateway_error option"

definition pg_fail :: "gateway_error \<Rightarrow> 'a pg_response" where
  "pg_fail e = \<lparr>resp_data = None, resp_error = Some e\<rparr>"

definition pg_ok :: "'a \<Rightarrow> 'a pg_response" where
  "pg_ok x = \<lparr>resp_data = Some x, resp_error = None\<rparr>"

text \<open>\<open>.order('published_at', {ascending: false})\<close>: newest first.\<close>

definition pg_order_desc :: "news_item list \<Rightarrow> news_item list" where
  "pg_order_desc rs = rev (sort_key published_at rs)"

text \<open>\<open>.select('*')\<close>, filters, optional ordering and \<open>.limit(n)\<close>.\<close>

definition pg_select :: "news_db \<Rightarrow> (news_item \<Rightarrow> bool) \<Rightarrow> bool \<Rightarrow> nat option \<Rightarrow> news_item list pg_response" where
  "pg_select db p ordered lim =
     (if \<not> db_online db then pg_fail NetworkFailure
      else (let rs = filter p (db_rows db);
                rs' = (if ordered then pg_order_desc rs else rs)
            in pg_ok (case lim of None \<Rightarrow> rs' | Some n \<Rightarrow> take n rs')))"

text \<open>\<open>.single()\<close>: exactly one row, or an error.\<close>

definition pg_single :: "news_item list pg_response \<Rightarrow> news_item pg_response" where
  "pg_single r =
     (case resp_error r of
        Some e \<Rightarrow> pg_fail e
      | None \<Rightarrow> (case resp_data r of Some [x] \<Rightarrow> pg_ok x | _ \<Rightarrow> pg_fail SingleRowError))"

definition ids_of :: "news_item list \<Rightarrow> string list" where
  "ids_of rs = map news_id rs"

text \<open>\<open>.insert([row]).select()\<close>; the server fills \<open>id\<close> and the timestamps.\<close>

definition pg_insert :: "news_db \<Rightarrow> news_item \<Rightarrow> news_item list pg_response \<times> news_db" where
  "pg_insert db r =
     (if \<not> db_online db then (pg_fail NetworkFailure, db)
      else if news_id r \<in> set (ids_of (db_rows db)) then (pg_fail UniqueViolation, db)
      else (pg_ok [r], db\<lparr>db_rows := db_rows db @ [r]\<rparr>))"

text \<open>\<open>Partial<NewsItem>\<close>: every field optional.\<close>

record news_patch =
  p_id :: "string option"
  p_title :: "string option"
  p_description :: "string option"
  p_image_url :: "string option option"
  p_video_url :: "string option"
  p_category :: "category option"
  p_author :: "string option"
  p_published_at :: "string option"
  p_created_at :: "string option"
  p_updated_at :: "string option"

definition apply_patch :: "news_patch \<Rightarrow> news_item \<Rightarrow> news_item" where
  "apply_patch p r =
     \<lparr>news_id = case_option (news_id r) id (p_id p),
      title = case_option (title r) id (p_title p),
      description = case_option (description r) id (p_description p),
      image_url = case_option (image_url r) id (p_image_url p),
      video_url = case_option (video_url r) id (p_video_url p),
      category = case_option (category r) id (p_category p),
      author = case_option (author r) id (p_author p),
      published_at = case_option (published_at r) id (p_published_at p),
      created_at = case_option (created_at r) id (p_created_at p),
      updated_at = case_option (updated_at r) id (p_updated_at p)\<rparr>"

text \<open>\<open>.update(patch).eq('id', i).select()\<close>; the unique key is checked on the result.\<close>

definition pg_update :: "news_db \<Rightarrow> string \<Rightarrow> news_patch \<Rightarrow> news_item list pg_response \<times> news_db" where
  "pg_update db i p =
     (if \<not> db_online db then (pg_fail NetworkFailure, db)
      else (let rs' = map (\<lambda>r. if news_id r = i then apply_patch p r else r) (db_rows db)
            in if \<not> distinct (ids_of rs') then (pg_fail UniqueViolation, db)
               else (pg_ok (map (apply_patch p) (filter (\<lambda>r. news_id r = i) (db_rows db))),
                     db\<lparr>db_rows := rs'\<rparr>)))"

text \<open>\<open>.delete().eq('id', i)\<close>.\<close>

definition pg_delete :: "news_db \<Rightarrow> string \<Rightarrow> unit pg_response \<times> news_db" where
  "pg_delete db i =
     (if \<not> db_online db then (pg_fail NetworkFailure, db)
      else (\<lparr>resp_data = None, resp_error = None\<rparr>,
            db\<lparr>db_rows := filter (\<lambda>r. news_id r \<noteq> i) (db_rows db)\<rparr>))"

section \<open>The service: \<open>newsService\<close>\<close>

text \<open>\<open>if (error) throw error; return data || [];\<close>\<close>

definition throw_or_list :: "news_item list pg_response \<Rightarrow> gateway_error + news_item list" where
  "throw_or_list r = (case resp_error r of Some e \<Rightarrow> Inl e | None \<Rightarrow> Inr (list_or (resp_data r)))"

text \<open>\<open>if (error) throw error; return data;\<close> (\<open>data\<close> may be \<open>null\<close>)\<close>

definition throw_or_data :: "'a pg_response \<Rightarrow> gateway_error + 'a option" where
  "throw_or_data r = (case resp_error r of Some e \<Rightarrow> Inl e | None \<Rightarrow> Inr (resp_data r))"

definition getAllNews :: "news_db \<Rightarrow> gateway_error + news_item list" where
  "getAllNews db = throw_or_list (pg_select db (\<lambda>_. True) True None)"

definition getNewsByCategory :: "news_db \<Rightarrow> string \<Rightarrow> gateway_error + news_item list" where
  "getNewsByCategory db c = throw_or_list (pg_select db (\<lambda>r. category_name (category r) = c) True None)"

definition getLatestNews :: "news_db \<Rightarrow> nat \<Rightarrow> gateway_error + news_item list" where
  "getLatestNews db limit =
     throw_or_list (pg_select db (\<lambda>r. category_name (category r) = ''latest'') True (Some limit))"

definition getGlobalNews :: "news_db \<Rightarrow> nat \<Rightarrow> gateway_error + news_item list" where
  "getGlobalNews db limit =
     throw_or_list (pg_select db (\<lambda>r. category_name (category r) = ''global'') True (Some limit))"

definition getSportsNews :: "news_db \<Rightarrow> nat \<Rightarrow> gateway_error + news_item list" where
  "getSportsNews db limit =
     throw_or_list (pg_select db (\<lambda>r. category_name (category r) = ''sports'') True (Some limit))"

definition getTechNews :: "news_db \<Rightarrow> nat \<Rightarrow> gateway_error + news_item list" where
  "getTechNews db limit =
     throw_or_list (pg_select db (\<lambda>r. category_name (category r) = ''tech'') True (Some limit))"

definition getNewsById :: "news_db \<Rightarrow> string \<Rightarrow> gateway_error + news_item option" where
  "getNewsById db i = throw_or_data (pg_single (pg_select db (\<lambda>r. news_id r = i) False None))"

text \<open>\<open>Omit<NewsItem, 'id' | 'created_at' | 'updated_at' | 'published_at'>\<close>.\<close>

record news_fields =
  f_title :: string
  f_description :: string
  f_image_url :: "string option"
  f_video_url :: string
  f_category :: category
  f_author :: string

text \<open>
  The row the server stores for \<open>{...news, published_at: now}\<close>: \<open>published_at\<close> is
  the client's clock, \<open>id\<close> and the two other timestamps are the server's defaults.
\<close>

definition server_row :: "string \<Rightarrow> string \<Rightarrow> string \<Rightarrow> news_fields \<Rightarrow> news_item" where
  "server_row sid stamp now f =
     \<lparr>news_id = sid, title = f_title f, description = f_description f,
      image_url = f_image_url f, video_url = f_video_url f, category = f_category f,
      author = f_author f, published_at = now, created_at = stamp, updated_at = stamp\<rparr>"

definition createNews ::
  "news_db \<Rightarrow> news_fields \<Rightarrow> string \<Rightarrow> string \<Rightarrow> string \<Rightarrow> (gateway_error + news_item option) \<times> news_db" where
  "createNews db f now sid stamp =
     (let (r, db') = pg_insert db (server_row sid stamp now f) in (throw_or_data (pg_single r), db'))"

definition updateNews ::
  "news_db \<Rightarrow> string \<Rightarrow> news_patch \<Rightarrow> (gateway_error + news_item option) \<times> news_db" where
  "updateNews db i p = (let (r, db') = pg_update db i p in (throw_or_data (pg_single r), db'))"

definition deleteNews :: "news_db \<Rightarrow> string \<Rightarrow> (gateway_error + unit) \<times> news_db" where
  "deleteNews db i =
     (let (r, db') = pg_delete db i in ((case resp_error r of Some e \<Rightarrow> Inl e | None \<Rightarrow> Inr ()), db'))"

text \<open>The table's invariant: the primary key \<open>id\<close> is unique.\<close>

definition db_wf :: "news_db \<Rightarrow> bool" where
  "db_wf db \<longleftrightarrow> distinct (ids_of (db_rows db))"

text \<open>A one-row table, used to instantiate the theorems below.\<close>

definition example_row :: news_item where
  "example_row =
     \<lparr>news_id = ''n1'', title = ''Title'', description = ''Text'', image_url = None,
      video_url = ''https://example.com/v.mp4'', category = Latest, author = ''A'',
      published_at = ''2024-01-01T00:00:00.000Z'', created_at = ''2024-01-01T00:00:00.000Z'',
      updated_at = ''2024-01-01T00:00:00.000Z''\<rparr>"

definition example_fields :: news_fields where
  "example_fields =
     \<lparr>f_title = ''T'', f_description = ''D'', f_image_url = None,
      f_video_url = ''https://example.com/w.mp4'', f_category = Sports, f_author = ''B''\<rparr>"

definition example_db :: news_db where
  "example_db = \<lparr>db_rows = [example_row], db_online = True\<rparr>"

section \<open>Lemmas on the client\<close>

lemma response_simps [gateway_simps, simp]:
  "throw_or_list (pg_ok xs) = Inr xs"
  "throw_or_list (pg_fail e) = Inl e"
  "throw_or_data (pg_ok x) = Inr (Some x)"
  "throw_or_data (pg_fail e) = Inl e"
  "pg_single (pg_ok [x]) = pg_ok x"
  "pg_single (pg_fail e) = pg_fail e"
  by (simp_all add: throw_or_list_def throw_or_data_def pg_single_def pg_ok_def pg_fail_def)

lemma pg_select_online [gateway_simps]:
  "db_online db \<Longrightarrow> pg_select db p ord lim =
     pg_ok (case lim of
              None \<Rightarrow> (if ord then pg_order_desc (filter p (db_rows db)) else filter p (db_rows db))
            | Some n \<Rightarrow> take n (if ord then pg_order_desc (filter p (db_rows db)) else filter p (db_rows db)))"
  by (simp add: pg_select_def Let_def)

lemma pg_select_offline [gateway_simps]:
  "\<not> db_online db \<Longrightarrow> pg_select db p ord lim = pg_fail NetworkFailure"
  by (simp add: pg_select_def)

lemma sorted_pg_order_desc:
  "sorted_wrt (\<lambda>a b. published_at b \<le> published_at a) (pg_order_desc rs)"
proof -
  have "sorted (map published_at (sort_key published_at rs))"
    by (rule sorted_sort_key)
  then show ?thesis
    by (simp add: pg_order_desc_def sorted_wrt_rev sorted_map)
qed

lemma mset_pg_order_desc [simp]: "mset (pg_order_desc rs) = mset rs"
  by (simp add: pg_order_desc_def)

lemma filter_fresh_id:
  "i \<notin> set (ids_of rs) \<Longrightarrow> filter (\<lambda>x. news_id x = i) rs = []"
  by (fastforce simp: ids_of_def filter_empty_conv)

lemma filter_unique_id:
  "distinct (ids_of rs) \<Longrightarrow> r \<in> set rs \<Longrightarrow> filter (\<lambda>x. news_id x = news_id r) rs = [r]"
proof (induction rs)
  case Nil
  then show ?case by simp
next
  case (Cons a rs)
  show ?case
  proof (cases "a = r")
    case True
    with Cons.prems have "news_id r \<notin> set (ids_of rs)" by (simp add: ids_of_def)
    then have "filter (\<lambda>x. news_id x = news_id r) rs = []"
      by (rule filter_fresh_id)
    with True show ?thesis by simp
  next
    case False
    with Cons.prems have "r \<in> set rs" and "distinct (ids_of rs)" and "news_id a \<noteq> news_id r"
      by (auto simp: ids_of_def)
    with Cons.IH show ?thesis by simp
  qed
qed

lemma apply_patch_id [simp]: "p_id p = None \<Longrightarrow> news_id (apply_patch p r) = news_id r"
  by (simp add: apply_patch_def)

lemma ids_of_patch_rows:
  "p_id p = None \<Longrightarrow> ids_of (map (\<lambda>r. if news_id r = i then apply_patch p r else r) rs) = ids_of rs"
  by (induction rs) (simp_all add: ids_of_def)

lemma set_pg_order_desc [simp]: "set (pg_order_desc xs) = set xs"
  by (simp add: pg_order_desc_def)

lemma select_limited_shape:
  assumes "throw_or_list (pg_select db (\<lambda>r. category_name (category r) = category_name c) True (Some n)) = Inr rs"
  shows "length rs \<le> n \<and> (\<forall>r\<in>set rs. category r = c) \<and>
         sorted_wrt (\<lambda>a b. published_at b \<le> published_at a) rs"
proof -
  have on: "db_online db"
  proof (rule ccontr)
    assume "\<not> db_online db"
    with assms show False by (simp add: pg_select_offline)
  qed
  with assms have rs: "rs = take n (pg_order_desc (filter (\<lambda>r. category r = c) (db_rows db)))"
    by (simp add: pg_select_online)
  then have "\<forall>r\<in>set rs. category r = c"
    by (auto dest: in_set_takeD)
  moreover have "sorted_wrt (\<lambda>a b. published_at b \<le> published_at a) rs"
    unfolding rs using sorted_pg_order_desc by (rule sorted_wrt_take)
  moreover have "length rs \<le> n"
    using rs by simp
  ultimately show ?thesis by blast
qed

lemma createNews_wf: "db_wf db \<Longrightarrow> db_wf (snd (createNews db f now sid stamp))"
  by (auto simp: createNews_def pg_insert_def db_wf_def ids_of_def server_row_def)

lemma updateNews_wf: "db_wf db \<Longrightarrow> db_wf (snd (updateNews db i p))"
  by (auto simp: updateNews_def pg_update_def db_wf_def Let_def)

lemma deleteNews_wf: "db_wf db \<Longrightarrow> db_wf (snd (deleteNews db i))"
  by (auto simp: deleteNews_def pg_delete_def db_wf_def ids_of_def distinct_map_filter)

text \<open>C31: \<open>getLatestNews(limit)\<close> returns at most \<open>limit\<close> articles, all of category \<open>latest\<close>, newest first.\<close>

theorem getLatestNews_result:
  "getLatestNews db n = Inr rs \<Longrightarrow>
     length rs \<le> n \<and> (\<forall>r\<in>set rs. category r = Latest) \<and>
     sorted_wrt (\<lambda>a b. published_at b \<le> published_at a) rs"
  using select_limited_shape [of db Latest n rs] by (simp add: getLatestNews_def)

text \<open>\<open>getLatestNews\<close> throws exactly when the connection is down, and then throws the network failure unchanged.\<close>

theorem getLatestNews_error:
  "getLatestNews db n = Inl e \<longleftrightarrow> \<not> db_online db \<and> e = NetworkFailure"
  by (cases "db_online db") (auto simp: getLatestNews_def gateway_simps)

text \<open>C32: with the connection up, \<open>getNewsByCategory\<close> returns every article of the category and nothing else (as a multiset).\<close>

theorem getNewsByCategory_complete:
  "db_online db \<Longrightarrow>
     \<exists>rs. getNewsByCategory db (category_name c) = Inr rs \<and>
          mset rs = mset (filter (\<lambda>r. category r = c) (db_rows db))"
  by (simp add: getNewsByCategory_def pg_select_online)

text \<open>A successful \<open>createNews\<close> returns the stored row, and \<open>getNewsById\<close> on its id then finds exactly that row.\<close>

theorem createNews_getNewsById:
  assumes "db_online db" and "sid \<notin> set (ids_of (db_rows db))"
  shows "fst (createNews db f now sid stamp) = Inr (Some (server_row sid stamp now f)) \<and>
         getNewsById (snd (createNews db f now sid stamp)) sid = Inr (Some (server_row sid stamp now f))"
proof -
  let ?r = "server_row sid stamp now f"
  have ins: "pg_insert db ?r = (pg_ok [?r], db\<lparr>db_rows := db_rows db @ [?r]\<rparr>)"
    using assms by (simp add: pg_insert_def server_row_def)
  have "filter (\<lambda>x. news_id x = sid) (db_rows db @ [?r]) = [?r]"
    using assms(2) by (simp add: filter_fresh_id server_row_def)
  with ins assms(1) show ?thesis
    by (simp add: createNews_def getNewsById_def pg_select_online)
qed

text \<open>\<open>deleteNews\<close> succeeds (even on a missing id), after which \<open>getNewsById\<close> on that id fails with the \<open>.single()\<close> error.\<close>

theorem deleteNews_getNewsById:
  "db_online db \<Longrightarrow>
     fst (deleteNews db i) = Inr () \<and> getNewsById (snd (deleteNews db i)) i = Inl SingleRowError"
  by (simp add: deleteNews_def pg_delete_def getNewsById_def pg_select_online filter_empty_conv
                pg_single_def pg_fail_def pg_ok_def throw_or_data_def)

text \<open>The writes of the service keep the article ids unique.\<close>

theorem gateway_writes_preserve_wf:
  assumes "db_wf db"
  shows "db_wf (snd (createNews db f now sid stamp)) \<and> db_wf (snd (updateNews db i p)) \<and>
         db_wf (snd (deleteNews db i))"
  using assms by (simp add: createNews_wf updateNews_wf deleteNews_wf)

section \<open>Witnesses\<close>

theorem getLatestNews_result_witness:
  "getLatestNews example_db 4 = Inr [example_row] \<and> length [example_row] \<le> 4 \<and>
   category example_row = Latest \<and>
   sorted_wrt (\<lambda>a b. published_at b \<le> published_at a) [example_row]"
proof -
  have h: "getLatestNews example_db 4 = Inr [example_row]"
    by (simp add: getLatestNews_def example_db_def example_row_def pg_select_online pg_order_desc_def)
  show ?thesis using h getLatestNews_result [OF h] by simp
qed

theorem getNewsByCategory_complete_witness:
  "db_online example_db \<and>
   (\<exists>rs. getNewsByCategory example_db (category_name Latest) = Inr rs \<and>
         mset rs = mset (filter (\<lambda>r. category r = Latest) (db_rows example_db)))"
  using getNewsByCategory_complete [of example_db Latest] by (simp add: example_db_def)

theorem createNews_getNewsById_witness:
  "fst (createNews example_db example_fields ''t0'' ''n2'' ''t1'') =
     Inr (Some (server_row ''n2'' ''t1'' ''t0'' example_fields)) \<and>
   getNewsById (snd (createNews example_db example_fields ''t0'' ''n2'' ''t1'')) ''n2'' =
     Inr (Some (server_row ''n2'' ''t1'' ''t0'' example_fields))"
  by (rule createNews_getNewsById) (simp_all add: example_db_def example_row_def ids_of_def)

theorem deleteNews_getNewsById_witness:
  "fst (deleteNews example_db ''n1'') = Inr () \<and>
   getNewsById (snd (deleteNews example_db ''n1'')) ''n1'' = Inl SingleRowError"
  by (rule deleteNews_getNewsById) (simp add: example_db_def)

theorem gateway_writes_preserve_wf_witness:
  "db_wf example_db \<and> db_wf (snd (deleteNews example_db ''n1''))"
proof -
  have w: "db_wf example_db" by (simp add: db_wf_def example_db_def ids_of_def)
  show ?thesis using w gateway_writes_preserve_wf [OF w, of _ _ _ _ "''n1''"] by simp
qed


theorem getLatestNews_error_witness:
  "getLatestNews (example_db\<lparr>db_online := False\<rparr>) 4 = Inl NetworkFailure"
  using getLatestNews_error [of "example_db\<lparr>db_online := False\<rparr>" 4 NetworkFailure] by simp

end
