(* ===== verification/Query_Cache.thy ===== *)
theory Query_Cache
  imports News_Prelude
begin

text \<open>
  The query cache core and the fetch coordinator.  The repository does not contain
  them: it configures the TanStack Query client in \<open>App.tsx\<close> (\<open>retry\<close>,
  \<open>retryDelay\<close>, \<open>staleTime\<close>, \<open>gcTime\<close>) and calls \<open>useQuery\<close>, \<open>refetch\<close> and
  \<open>invalidateQueries\<close>.  The cache is modelled from the spec (\<S>3, \<S>4.1, \<S>4.2, \<S>5)
  and the library behaviour it describes; the configuration is the code's.

  \<^item> A query key is a list of strings and numbers (\<open>['news', 'latest', 4]\<close>);
    \<open>invalidateQueries({queryKey: p})\<close> matches the keys that start with \<open>p\<close>.
  \<^item> The cache is an insertion-ordered map from keys to entries (an association
    list) together with the next request number: every network request carries a
    fresh, increasing number, and an entry accepts only the answer to its own
    latest request, so a late answer to a superseded request is dropped.
  \<^item> A fetch runs through the retryer: \<open>retry: 3\<close> further attempts after a failure,
    sleeping \<open>retryDelay(failureCount)\<close> before each.
\<close>

named_theorems cache_simps "evaluation rules of the cache operations"

section \<open>Configuration (\<open>App.tsx\<close>)\<close>

definition retry :: nat where
  "retry = 3"

definition retryDelay :: "nat \<Rightarrow> millis" where
  "retryDelay attemptIndex = min (1000 * 2 ^ attemptIndex) 30000"

definition staleTime :: millis where
  "staleTime = 5 * 60 * 1000"

definition gcTime :: millis where
  "gcTime = 10 * 60 * 1000"

section \<open>Keys, entries and the cache\<close>

datatype key_part = KStr string | KNum nat

type_synonym query_key = "key_part list"

text \<open>\<open>partialMatchKey\<close> on array keys: the filter is a prefix of the key.\<close>

definition key_matches :: "query_key \<Rightarrow> query_key \<Rightarrow> bool" where
  "key_matches p k \<longleftrightarrow> starts_with p k"

datatype query_status = StPending | StError | StSuccess

datatype fetch_status = Idle | Fetching

record ('v, 'e) query_entry =
  q_data :: "'v option"
  q_updated_at :: millis
  q_status :: query_status
  q_fetch :: fetch_status
  q_error :: "'e option"
  q_invalidated :: bool
  q_observers :: nat
  q_gc_at :: "millis option"
  q_seq :: nat
  q_stale_time :: millis

type_synonym ('v, 'e) query_cache = "(query_key \<times> ('v, 'e) query_entry) list"

text \<open>A network request: the key and the request number.\<close>

type_synonym request = "query_key \<times> nat"

record ('v, 'e) query_client =
  queries :: "('v, 'e) query_cache"
  next_seq :: nat

datatype ('v, 'e) outcome = Ok 'v | Fail 'e

definition empty_client :: "('v, 'e) query_client" where
  "empty_client = \<lparr>queries = [], next_seq = 1\<rparr>"

definition new_entry :: "millis \<Rightarrow> ('v, 'e) query_entry" where
  "new_entry st =
     \<lparr>q_data = None, q_updated_at = 0, q_status = StPending, q_fetch = Idle, q_error = None,
      q_invalidated = False, q_observers = 0, q_gc_at = None, q_seq = 0, q_stale_time = st\<rparr>"

text \<open>\<open>QueryCache.build\<close>: the entry of a key, created on first access.\<close>

definition entry_of :: "('v, 'e) query_client \<Rightarrow> query_key \<Rightarrow> millis \<Rightarrow> ('v, 'e) query_entry" where
  "entry_of qc k st = (case map_of (queries qc) k of None \<Rightarrow> new_entry st | Some e \<Rightarrow> e)"

definition put :: "query_key \<Rightarrow> ('v, 'e) query_entry \<Rightarrow> ('v, 'e) query_client \<Rightarrow> ('v, 'e) query_client" where
  "put k e qc = qc\<lparr>queries := AList.update k e (queries qc)\<rparr>"

text \<open>Stale: invalidated, never fetched, or older than its \<open>staleTime\<close>.\<close>

definition is_stale :: "millis \<Rightarrow> ('v, 'e) query_entry \<Rightarrow> bool" where
  "is_stale now e \<longleftrightarrow> q_invalidated e \<or> q_data e = None \<or> q_updated_at e + q_stale_time e \<le> now"

section \<open>The retryer\<close>

text \<open>
  The answers of successive attempts are the list \<open>os\<close>; \<open>n\<close> is \<open>failureCount\<close>.
  The result is the settled outcome and the delays slept, or \<open>None\<close> when the
  attempts supplied do not settle the fetch.
\<close>

fun retryer :: "nat \<Rightarrow> ('v, 'e) outcome list \<Rightarrow> (('v, 'e) outcome \<times> millis list) option" where
  "retryer n [] = None"
| "retryer n (Ok v # os) = Some (Ok v, [])"
| "retryer n (Fail e # os) =
     (if n < retry then map_option (\<lambda>(r, ds). (r, retryDelay n # ds)) (retryer (Suc n) os)
      else Some (Fail e, []))"

section \<open>Operations of the cache\<close>

text \<open>
  \<open>Query.fetch\<close>: a fetch already in flight is joined (deduplication) unless the
  caller cancels it and there is data to fall back on (\<open>cancelRefetch\<close>); otherwise
  a new request with a fresh number is issued.
\<close>

definition fetch_query ::
  "bool \<Rightarrow> query_key \<Rightarrow> ('v, 'e) query_entry \<Rightarrow> ('v, 'e) query_client \<Rightarrow> ('v, 'e) query_client \<times> request list" where
  "fetch_query cancel k e qc =
     (if q_fetch e = Fetching \<and> \<not> (cancel \<and> q_data e \<noteq> None) then (put k e qc, [])
      else (let s = next_seq qc
            in (put k (e\<lparr>q_fetch := Fetching, q_seq := s\<rparr>) (qc\<lparr>next_seq := Suc s\<rparr>), [(k, s)])))"

text \<open>\<open>ensureFresh(key)\<close>; \<open>force\<close> is \<open>refetch()\<close>, which bypasses staleness.\<close>

definition ensure_fresh ::
  "millis \<Rightarrow> bool \<Rightarrow> query_key \<Rightarrow> millis \<Rightarrow> ('v, 'e) query_client \<Rightarrow> ('v, 'e) query_client \<times> request list" where
  "ensure_fresh now force k st qc =
     (let e = entry_of qc k st
      in if force \<or> is_stale now e then fetch_query force k e qc else (put k e qc, []))"

text \<open>Mounting a \<open>useQuery\<close> observer; a disabled observer does not fetch.\<close>

definition subscribe ::
  "millis \<Rightarrow> bool \<Rightarrow> query_key \<Rightarrow> millis \<Rightarrow> ('v, 'e) query_client \<Rightarrow> ('v, 'e) query_client \<times> request list" where
  "subscribe now enabled k st qc =
     (let e = entry_of qc k st;
          qc' = put k (e\<lparr>q_observers := Suc (q_observers e), q_gc_at := None\<rparr>) qc
      in if enabled then ensure_fresh now False k st qc' else (qc', []))"

text \<open>Unmounting: the last observer leaving starts the retention period.\<close>

definition unsubscribe :: "millis \<Rightarrow> query_key \<Rightarrow> ('v, 'e) query_client \<Rightarrow> ('v, 'e) query_client" where
  "unsubscribe now k qc =
     (case map_of (queries qc) k of
        None \<Rightarrow> qc
      | Some e \<Rightarrow>
          (if q_observers e = 0 then qc
           else (let n = q_observers e - 1
                 in put k (e\<lparr>q_observers := n,
                             q_gc_at := (if n = 0 then Some (now + gcTime) else q_gc_at e)\<rparr>) qc)))"

fun settle :: "millis \<Rightarrow> ('v, 'e) outcome \<Rightarrow> ('v, 'e) query_entry \<Rightarrow> ('v, 'e) query_entry" where
  "settle now (Ok v) e =
     e\<lparr>q_data := Some v, q_updated_at := now, q_status := StSuccess, q_error := None,
       q_invalidated := False, q_fetch := Idle\<rparr>"
| "settle now (Fail err) e = e\<lparr>q_status := StError, q_error := Some err, q_fetch := Idle\<rparr>"

text \<open>
  The settled answer to request \<open>(k, s)\<close>: accepted only by an entry still fetching
  under that number; the retention timer restarts if nobody observes the entry.
\<close>

definition on_response ::
  "millis \<Rightarrow> request \<Rightarrow> ('v, 'e) outcome \<Rightarrow> ('v, 'e) query_client \<Rightarrow> ('v, 'e) query_client" where
  "on_response now q r qc =
     (case map_of (queries qc) (fst q) of
        None \<Rightarrow> qc
      | Some e \<Rightarrow>
          (if q_fetch e = Fetching \<and> q_seq e = snd q
           then put (fst q) ((settle now r e)\<lparr>q_gc_at :=
                  (if q_observers e = 0 then Some (now + gcTime) else q_gc_at e)\<rparr>) qc
           else qc))"

text \<open>\<open>invalidateQueries({queryKey: p})\<close>: mark, then refetch the active matches.\<close>

definition mark_invalid :: "query_key \<Rightarrow> ('v, 'e) query_cache \<Rightarrow> ('v, 'e) query_cache" where
  "mark_invalid p c = map (\<lambda>(k, e). (k, if key_matches p k then e\<lparr>q_invalidated := True\<rparr> else e)) c"

definition active_matching :: "query_key \<Rightarrow> ('v, 'e) query_cache \<Rightarrow> query_key list" where
  "active_matching p c = map fst (filter (\<lambda>(k, e). key_matches p k \<and> 0 < q_observers e) c)"

fun refetch_keys :: "query_key list \<Rightarrow> ('v, 'e) query_client \<Rightarrow> ('v, 'e) query_client \<times> request list" where
  "refetch_keys [] qc = (qc, [])"
| "refetch_keys (k # ks) qc =
     (case map_of (queries qc) k of
        None \<Rightarrow> refetch_keys ks qc
      | Some e \<Rightarrow> (let (qc1, rs1) = fetch_query True k e qc; (qc2, rs2) = refetch_keys ks qc1
                  in (qc2, rs1 @ rs2)))"

definition invalidate :: "query_key \<Rightarrow> ('v, 'e) query_client \<Rightarrow> ('v, 'e) query_client \<times> request list" where
  "invalidate p qc =
     (let qc1 = qc\<lparr>queries := mark_invalid p (queries qc)\<rparr>
      in refetch_keys (active_matching p (queries qc1)) qc1)"

text \<open>The garbage collector: unobserved idle entries past their retention deadline.\<close>

definition collectable :: "millis \<Rightarrow> ('v, 'e) query_entry \<Rightarrow> bool" where
  "collectable now e \<longleftrightarrow>
     q_observers e = 0 \<and> q_fetch e = Idle \<and> (case q_gc_at e of None \<Rightarrow> False | Some t \<Rightarrow> t \<le> now)"

definition gc_sweep :: "millis \<Rightarrow> ('v, 'e) query_client \<Rightarrow> ('v, 'e) query_client" where
  "gc_sweep now qc = qc\<lparr>queries := filter (\<lambda>(k, e). \<not> collectable now e) (queries qc)\<rparr>"

section \<open>What an observer sees\<close>

text \<open>
  The fields of the \<open>useQuery\<close> result the screens read: \<open>data\<close>, \<open>error\<close> (only in
  the error status), \<open>isLoading\<close> (first fetch in flight: pending and fetching)
  and \<open>isFetching\<close>.
\<close>

record ('v, 'e) query_result =
  res_data :: "'v option"
  res_error :: "'e option"
  res_isLoading :: bool
  res_isFetching :: bool

definition query_result :: "('v, 'e) query_entry \<Rightarrow> ('v, 'e) query_result" where
  "query_result e =
     \<lparr>res_data = q_data e,
      res_error = (if q_status e = StError then q_error e else None),
      res_isLoading = (q_status e = StPending \<and> q_fetch e = Fetching),
      res_isFetching = (q_fetch e = Fetching)\<rparr>"

definition observe :: "('v, 'e) query_client \<Rightarrow> query_key \<Rightarrow> millis \<Rightarrow> ('v, 'e) query_result" where
  "observe qc k st = query_result (entry_of qc k st)"

section \<open>Lemmas on the cache operations\<close>

lemma map_of_put [cache_simps, simp]: "map_of (queries (put k e qc)) = (map_of (queries qc))(k \<mapsto> e)"
  by (simp add: put_def update_conv')

lemma next_seq_put [cache_simps, simp]: "next_seq (put k e qc) = next_seq qc"
  by (simp add: put_def)

lemma entry_of_put_same [cache_simps, simp]: "entry_of (put k e qc) k st = e"
  by (simp add: entry_of_def)

lemma fetch_query_map:
  "\<exists>s. map_of (queries (fst (fetch_query c k e qc))) =
        (map_of (queries qc))(k \<mapsto> e\<lparr>q_fetch := Fetching, q_seq := s\<rparr>)"
proof (cases "q_fetch e = Fetching \<and> \<not> (c \<and> q_data e \<noteq> None)")
  case True
  then have "e\<lparr>q_fetch := Fetching, q_seq := q_seq e\<rparr> = e" by simp
  with True show ?thesis by (metis fetch_query_def fst_conv map_of_put)
next
  case False
  then show ?thesis by (auto simp: fetch_query_def Let_def)
qed

lemma fetch_query_join [cache_simps]:
  "q_fetch e = Fetching \<Longrightarrow> \<not> (c \<and> q_data e \<noteq> None) \<Longrightarrow> fetch_query c k e qc = (put k e qc, [])"
  by (simp add: fetch_query_def)

lemma fetch_query_issue [cache_simps]:
  "\<not> (q_fetch e = Fetching \<and> \<not> (c \<and> q_data e \<noteq> None)) \<Longrightarrow>
     fetch_query c k e qc =
       (put k (e\<lparr>q_fetch := Fetching, q_seq := next_seq qc\<rparr>) (qc\<lparr>next_seq := Suc (next_seq qc)\<rparr>),
        [(k, next_seq qc)])"
  by (simp add: fetch_query_def Let_def)

text \<open>Two \<open>ensureFresh\<close> calls on a stale idle key: the second joins the first fetch.\<close>

lemma ensure_fresh_dedup:
  assumes "q_fetch (entry_of qc k st) = Idle" and "is_stale now (entry_of qc k st)"
  shows "snd (ensure_fresh now False k st qc) = [(k, next_seq qc)] \<and>
         snd (ensure_fresh now' False k st (fst (ensure_fresh now False k st qc))) = []"
proof -
  let ?e = "entry_of qc k st"
  let ?e' = "?e\<lparr>q_fetch := Fetching, q_seq := next_seq qc\<rparr>"
  have first: "ensure_fresh now False k st qc =
      (put k ?e' (qc\<lparr>next_seq := Suc (next_seq qc)\<rparr>), [(k, next_seq qc)])"
    using assms by (simp add: ensure_fresh_def fetch_query_issue)
  have "entry_of (put k ?e' (qc\<lparr>next_seq := Suc (next_seq qc)\<rparr>)) k st = ?e'"
    by simp
  then have "snd (ensure_fresh now' False k st (put k ?e' (qc\<lparr>next_seq := Suc (next_seq qc)\<rparr>))) = []"
    by (simp add: ensure_fresh_def fetch_query_join Let_def)
  with first show ?thesis by simp
qed

theorem superseded_response_ignored:
  "map_of (queries qc) k = Some e \<Longrightarrow> q_seq e \<noteq> s \<Longrightarrow> on_response now (k, s) r qc = qc"
  by (simp add: on_response_def)

lemma on_response_accept [cache_simps]:
  "map_of (queries qc) k = Some e \<Longrightarrow> q_fetch e = Fetching \<Longrightarrow>
     on_response now (k, q_seq e) r qc =
       put k ((settle now r e)\<lparr>q_gc_at := (if q_observers e = 0 then Some (now + gcTime) else q_gc_at e)\<rparr>) qc"
  by (simp add: on_response_def)


lemma refetch_keys_Cons_fst:
  "map_of (queries qc) k' = Some e' \<Longrightarrow>
     fst (refetch_keys (k' # ks) qc) = fst (refetch_keys ks (fst (fetch_query True k' e' qc)))"
  by (simp add: split_def Let_def)

lemma refetch_keys_other:
  "k \<notin> set ks \<Longrightarrow> map_of (queries (fst (refetch_keys ks qc))) k = map_of (queries qc) k"
proof (induction ks arbitrary: qc)
  case Nil
  then show ?case by simp
next
  case (Cons k' ks)
  show ?case
  proof (cases "map_of (queries qc) k'")
    case None
    with Cons show ?thesis by simp
  next
    case (Some e')
    obtain s where s: "map_of (queries (fst (fetch_query True k' e' qc))) =
        (map_of (queries qc))(k' \<mapsto> e'\<lparr>q_fetch := Fetching, q_seq := s\<rparr>)"
      using fetch_query_map by blast
    from Cons.prems have "k \<noteq> k'" and "k \<notin> set ks" by auto
    have "fst (refetch_keys (k' # ks) qc) = fst (refetch_keys ks (fst (fetch_query True k' e' qc)))"
      using Some by (rule refetch_keys_Cons_fst)
    with \<open>k \<notin> set ks\<close> Cons.IH
    have "map_of (queries (fst (refetch_keys (k' # ks) qc))) k =
          map_of (queries (fst (fetch_query True k' e' qc))) k"
      by simp
    with s \<open>k \<noteq> k'\<close> show ?thesis by simp
  qed
qed

lemma refetch_keys_member:
  "k \<in> set ks \<Longrightarrow> map_of (queries qc) k = Some e \<Longrightarrow>
     \<exists>s. map_of (queries (fst (refetch_keys ks qc))) k = Some (e\<lparr>q_fetch := Fetching, q_seq := s\<rparr>)"
proof (induction ks arbitrary: qc e)
  case Nil
  then show ?case by simp
next
  case (Cons k' ks)
  show ?case
  proof (cases "map_of (queries qc) k'")
    case None
    with Cons.prems have "k \<noteq> k'" by auto
    with None Cons show ?thesis by simp
  next
    case (Some e')
    let ?qc1 = "fst (fetch_query True k' e' qc)"
    obtain s where s: "map_of (queries ?qc1) = (map_of (queries qc))(k' \<mapsto> e'\<lparr>q_fetch := Fetching, q_seq := s\<rparr>)"
      using fetch_query_map by blast
    have rk: "fst (refetch_keys (k' # ks) qc) = fst (refetch_keys ks ?qc1)"
      using Some by (rule refetch_keys_Cons_fst)
    show ?thesis
    proof (cases "k = k'")
      case True
      with Some Cons.prems have e': "e' = e" by simp
      show ?thesis
      proof (cases "k \<in> set ks")
        case True
        from s \<open>k = k'\<close> e' have "map_of (queries ?qc1) k = Some (e\<lparr>q_fetch := Fetching, q_seq := s\<rparr>)"
          by simp
        from Cons.IH [OF True this] obtain s' where
          "map_of (queries (fst (refetch_keys ks ?qc1))) k =
             Some (e\<lparr>q_fetch := Fetching, q_seq := s, q_fetch := Fetching, q_seq := s'\<rparr>)"
          by blast
        with rk show ?thesis by auto
      next
        case False
        with s \<open>k = k'\<close> e' rk
        have "map_of (queries (fst (refetch_keys (k' # ks) qc))) k = Some (e\<lparr>q_fetch := Fetching, q_seq := s\<rparr>)"
          by (simp add: refetch_keys_other)
        then show ?thesis by blast
      qed
    next
      case False
      with Cons.prems have "k \<in> set ks" by simp
      moreover from False s Cons.prems have "map_of (queries ?qc1) k = Some e" by simp
      ultimately show ?thesis using Cons.IH rk by metis
    qed
  qed
qed

lemma map_of_mark_invalid:
  "map_of (mark_invalid p c) k =
     map_option (\<lambda>e. if key_matches p k then e\<lparr>q_invalidated := True\<rparr> else e) (map_of c k)"
  by (induction c) (auto simp: mark_invalid_def)

lemma active_matchingI:
  "map_of c k = Some e \<Longrightarrow> key_matches p k \<Longrightarrow> 0 < q_observers e \<Longrightarrow> k \<in> set (active_matching p c)"
  by (force simp: active_matching_def dest: map_of_SomeD)

lemma active_matchingD:
  "k \<in> set (active_matching p c) \<Longrightarrow> key_matches p k"
  by (auto simp: active_matching_def)

lemma invalidate_matching:
  assumes "map_of (queries qc) k = Some e" and "key_matches p k"
  shows "\<exists>e'. map_of (queries (fst (invalidate p qc))) k = Some e' \<and> q_invalidated e' \<and>
              q_data e' = q_data e \<and> is_stale now e' \<and> (0 < q_observers e \<longrightarrow> q_fetch e' = Fetching)"
proof -
  let ?qc1 = "qc\<lparr>queries := mark_invalid p (queries qc)\<rparr>"
  let ?m = "e\<lparr>q_invalidated := True\<rparr>"
  have m: "map_of (queries ?qc1) k = Some ?m"
    using assms by (simp add: map_of_mark_invalid)
  have inv: "fst (invalidate p qc) = fst (refetch_keys (active_matching p (queries ?qc1)) ?qc1)"
    by (simp add: invalidate_def)
  show ?thesis
  proof (cases "k \<in> set (active_matching p (queries ?qc1))")
    case True
    from refetch_keys_member [OF True m] obtain s where
      "map_of (queries (fst (invalidate p qc))) k = Some (?m\<lparr>q_fetch := Fetching, q_seq := s\<rparr>)"
      using inv by auto
    then show ?thesis by (simp add: is_stale_def)
  next
    case False
    then have "\<not> 0 < q_observers e"
      using active_matchingI [OF m assms(2)] by auto
    with False m inv show ?thesis by (simp add: refetch_keys_other is_stale_def)
  qed
qed

lemma invalidate_other:
  "\<not> key_matches p k \<Longrightarrow> map_of (queries (fst (invalidate p qc))) k = map_of (queries qc) k"
proof -
  assume nm: "\<not> key_matches p k"
  let ?qc1 = "qc\<lparr>queries := mark_invalid p (queries qc)\<rparr>"
  have "k \<notin> set (active_matching p (queries ?qc1))"
    using nm active_matchingD by blast
  then have "map_of (queries (fst (invalidate p qc))) k = map_of (queries ?qc1) k"
    by (simp add: invalidate_def refetch_keys_other)
  also have "\<dots> = map_of (queries qc) k"
    using nm by (simp add: map_of_mark_invalid option.map_ident)
  finally show ?thesis .
qed


lemma map_of_gc_sweep_keep:
  "distinct (map fst (queries qc)) \<Longrightarrow> map_of (queries qc) k = Some e \<Longrightarrow> \<not> collectable now e \<Longrightarrow>
     map_of (queries (gc_sweep now qc)) k = Some e"
  by (simp add: gc_sweep_def map_of_filter_keep)

lemma map_of_gc_sweep_drop:
  "distinct (map fst (queries qc)) \<Longrightarrow> map_of (queries qc) k = Some e \<Longrightarrow> collectable now e \<Longrightarrow>
     map_of (queries (gc_sweep now qc)) k = None"
  by (simp add: gc_sweep_def map_of_filter_drop)

text \<open>The garbage collector never evicts an entry that has an observer.\<close>

theorem gc_keeps_observed:
  "distinct (map fst (queries qc)) \<Longrightarrow> map_of (queries qc) k = Some e \<Longrightarrow> 0 < q_observers e \<Longrightarrow>
     map_of (queries (gc_sweep now qc)) k = Some e"
  by (simp add: map_of_gc_sweep_keep collectable_def)

lemma distinct_keys_put [cache_simps]:
  "distinct (map fst (queries qc)) \<Longrightarrow> distinct (map fst (queries (put k e qc)))"
  by (simp add: put_def distinct_update)

text \<open>C8: when the last observer leaves an idle entry, a sweep after the retention period evicts it, and a new subscription then starts a cold fetch (no data, loading).\<close>

theorem evict_then_cold_start:
  assumes "distinct (map fst (queries qc))" and "map_of (queries qc) k = Some e"
    and "q_observers e = 1" and "q_fetch e = Idle" and "t + gcTime \<le> now"
  shows "map_of (queries (gc_sweep now (unsubscribe t k qc))) k = None \<and>
         snd (subscribe now' True k st (gc_sweep now (unsubscribe t k qc))) = [(k, next_seq qc)] \<and>
         res_isLoading (observe (fst (subscribe now' True k st (gc_sweep now (unsubscribe t k qc)))) k st) \<and>
         res_data (observe (fst (subscribe now' True k st (gc_sweep now (unsubscribe t k qc)))) k st) = None"
proof -
  let ?e1 = "e\<lparr>q_observers := 0, q_gc_at := Some (t + gcTime)\<rparr>"
  let ?qc1 = "unsubscribe t k qc"
  have u: "?qc1 = put k ?e1 qc"
    using assms(2,3) by (simp add: unsubscribe_def)
  have "collectable now ?e1"
    using assms(4,5) by (simp add: collectable_def)
  then have gone: "map_of (queries (gc_sweep now ?qc1)) k = None"
    using u assms(1) by (simp add: map_of_gc_sweep_drop distinct_keys_put)
  let ?qc2 = "gc_sweep now ?qc1"
  have seq: "next_seq ?qc2 = next_seq qc"
    using u by (simp add: gc_sweep_def)
  have ent: "entry_of ?qc2 k st = new_entry st"
    using gone by (simp add: entry_of_def)
  let ?n = "(new_entry st)\<lparr>q_observers := Suc 0, q_gc_at := None\<rparr>"
  have sub: "subscribe now' True k st ?qc2 =
      (put k (?n\<lparr>q_fetch := Fetching, q_seq := next_seq qc\<rparr>)
        ((put k ?n ?qc2)\<lparr>next_seq := Suc (next_seq qc)\<rparr>), [(k, next_seq qc)])"
    using ent seq by (simp add: subscribe_def ensure_fresh_def fetch_query_issue is_stale_def new_entry_def)
  show ?thesis
    using gone sub by (simp add: observe_def query_result_def new_entry_def)
qed

lemma retryer_delays:
  "retryer n os = Some (r, ds) \<Longrightarrow> ds = map retryDelay [n..<n + length ds] \<and> length ds \<le> retry - n"
proof (induction n os arbitrary: ds rule: retryer.induct)
  case (1 n)
  then show ?case by simp
next
  case (2 n v os)
  then show ?case by simp
next
  case (3 n e os)
  show ?case
  proof (cases "n < retry")
    case True
    with "3.prems" obtain ds' where r: "retryer (Suc n) os = Some (r, ds')" and ds: "ds = retryDelay n # ds'"
      by (auto split: prod.splits)
    from "3.IH" [OF True r] have "ds' = map retryDelay [Suc n..<Suc n + length ds']"
      and "length ds' \<le> retry - Suc n" by auto
    moreover have "[n..<n + length ds] = n # [Suc n..<Suc n + length ds']"
      using ds by (simp add: upt_conv_Cons del: upt_Suc)
    ultimately show ?thesis using ds True by (simp del: upt_Suc)
  next
    case False
    with "3.prems" show ?thesis by simp
  qed
qed

text \<open>C29: the retry loop terminates: given more attempt answers than remaining retries, it settles.\<close>

theorem retryer_settles:
  "retry - n < length os \<Longrightarrow> \<exists>r ds. retryer n os = Some (r, ds)"
proof (induction n os rule: retryer.induct)
  case (1 n)
  then show ?case by simp
next
  case (2 n v os)
  then show ?case by simp
next
  case (3 n e os)
  show ?case
  proof (cases "n < retry")
    case True
    with "3.prems" have "retry - Suc n < length os" by simp
    with "3.IH" True show ?thesis by fastforce
  next
    case False
    then show ?thesis by simp
  qed
qed

lemma retryer_fails_then_ok:
  "n + length fs \<le> retry \<Longrightarrow>
   retryer n (map Fail fs @ Ok v # os) = Some (Ok v, map retryDelay [n..<n + length fs])"
proof (induction fs arbitrary: n)
  case Nil
  then show ?case by simp
next
  case (Cons f fs)
  then have "retryer (Suc n) (map Fail fs @ Ok v # os) = Some (Ok v, map retryDelay [Suc n..<Suc n + length fs])"
    by simp
  moreover have "[n..<n + length (f # fs)] = n # [Suc n..<Suc n + length fs]"
    by (metis add_Suc_right add_Suc_shift length_Cons less_add_Suc1 upt_conv_Cons)
  ultimately show ?case using Cons.prems by simp
qed

lemma retryer_all_fail:
  "n + length fs = Suc retry \<Longrightarrow> fs \<noteq> [] \<Longrightarrow>
   retryer n (map Fail fs @ os) = Some (Fail (last fs), map retryDelay [n..<retry])"
proof (induction fs arbitrary: n)
  case Nil
  then show ?case by simp
next
  case (Cons f fs)
  show ?case
  proof (cases "fs = []")
    case True
    with Cons.prems show ?thesis by simp
  next
    case False
    with Cons.prems Cons.IH [of "Suc n"]
    have "retryer (Suc n) (map Fail fs @ os) = Some (Fail (last fs), map retryDelay [Suc n..<retry])" by simp
    moreover have "n < retry" using Cons.prems False by (cases fs) auto
    moreover have "[n..<retry] = n # [Suc n..<retry]" using \<open>n < retry\<close> by (simp add: upt_conv_Cons)
    ultimately show ?thesis using False by simp
  qed
qed

lemma retryDelay_first: "m \<le> 3 \<Longrightarrow> map retryDelay [0..<m] = take m [1000, 2000, 4000]"
  by (cases m; cases "m - 1"; cases "m - 2") (auto simp: retryDelay_def)

text \<open>C7: the retry schedule of the application (\<open>retry: 3\<close>, \<open>retryDelay\<close>) for any answers:
  a fetch whose first attempts fail, at most three times, and whose next attempt
  succeeds, returns that data after sleeping 1000, 2000, 4000 ms before the retries it
  made; four failures in a row surface the fourth error after sleeping 1000, 2000 and
  4000 ms, whatever answers would have followed.\<close>

theorem retry_schedule:
  "(length fs \<le> 3 \<longrightarrow> retryer 0 (map Fail fs @ Ok v # os) = Some (Ok v, take (length fs) [1000, 2000, 4000])) \<and>
   (length fs = 4 \<longrightarrow> retryer 0 (map Fail fs @ os) = Some (Fail (last fs), [1000, 2000, 4000]))"
proof (intro conjI impI)
  assume "length fs \<le> 3"
  then show "retryer 0 (map Fail fs @ Ok v # os) = Some (Ok v, take (length fs) [1000, 2000, 4000])"
    using retryer_fails_then_ok [of 0 fs v os] retryDelay_first [of "length fs"] by (simp add: retry_def)
next
  assume l: "length fs = 4"
  then have "fs \<noteq> []" by auto
  then show "retryer 0 (map Fail fs @ os) = Some (Fail (last fs), [1000, 2000, 4000])"
    using retryer_all_fail [of 0 fs os] retryDelay_first [of 3] l by (simp add: retry_def numeral_eq_Suc)
qed

text \<open>C30: \<open>retryDelay\<close> doubles from 1000 ms and is capped at 30000 ms from the sixth retry on.\<close>

theorem retryDelay_bounds:
  "retryDelay n \<le> 30000 \<and> (n \<le> 4 \<longrightarrow> retryDelay n = 1000 * 2 ^ n) \<and> (5 \<le> n \<longrightarrow> retryDelay n = 30000)"
proof -
  have small: "n \<le> 4 \<Longrightarrow> 1000 * 2 ^ n \<le> (30000::nat)"
  proof -
    assume "n \<le> 4"
    then have "(2::nat) ^ n \<le> 2 ^ 4" by (rule power_increasing) simp
    then show ?thesis by simp
  qed
  have big: "5 \<le> n \<Longrightarrow> (30000::nat) \<le> 1000 * 2 ^ n"
  proof -
    assume "5 \<le> n"
    then have "(2::nat) ^ 5 \<le> 2 ^ n" by (rule power_increasing) simp
    then show ?thesis by simp
  qed
  show ?thesis using small big by (auto simp: retryDelay_def)
qed

section \<open>Witnesses\<close>

theorem evict_then_cold_start_witness:
  "map_of (queries (gc_sweep gcTime (unsubscribe 0 [KStr ''news'', KStr ''all'']
      \<lparr>queries = [([KStr ''news'', KStr ''all''], (new_entry staleTime)\<lparr>q_observers := 1\<rparr>)], next_seq = 5\<rparr>)))
      [KStr ''news'', KStr ''all''] = (None :: (nat, nat) query_entry option) \<and>
   snd (subscribe 0 True [KStr ''news'', KStr ''all''] staleTime (gc_sweep gcTime (unsubscribe 0 [KStr ''news'', KStr ''all'']
      \<lparr>queries = [([KStr ''news'', KStr ''all''], (new_entry staleTime :: (nat, nat) query_entry)\<lparr>q_observers := 1\<rparr>)], next_seq = 5\<rparr>)))
     = [([KStr ''news'', KStr ''all''], 5)]"
  using evict_then_cold_start [of "\<lparr>queries = [([KStr ''news'', KStr ''all''], (new_entry staleTime :: (nat, nat) query_entry)\<lparr>q_observers := 1\<rparr>)], next_seq = 5\<rparr>"
      "[KStr ''news'', KStr ''all'']" "(new_entry staleTime)\<lparr>q_observers := 1\<rparr>" 0 gcTime 0 staleTime]
  by (simp add: new_entry_def)

theorem retry_schedule_witness:
  "length [1::nat, 2] \<le> 3 \<and>
   retryer 0 (map Fail [1::nat, 2] @ [Ok (7::nat)]) = Some (Ok 7, take (length [1::nat, 2]) [1000, 2000, 4000]) \<and>
   length [1::nat, 2, 3, 4] = 4 \<and>
   retryer 0 (map Fail [1::nat, 2, 3, 4] @ [Ok (7::nat)]) = Some (Fail (last [1::nat, 2, 3, 4]), [1000, 2000, 4000])"
  using retry_schedule [where fs = "[1::nat, 2]" and v = "7::nat" and os = "[]"]
        retry_schedule [where fs = "[1::nat, 2, 3, 4]" and v = "7::nat" and os = "[Ok (7::nat)]"]
  by simp

theorem retryer_settles_witness:
  "retry - 0 < length [Fail (0::nat), Fail (0::nat), Fail (0::nat), Fail 0 :: (nat, nat) outcome] \<and>
   (\<exists>r ds. retryer 0 [Fail (0::nat), Fail (0::nat), Fail (0::nat), Fail 0 :: (nat, nat) outcome] = Some (r, ds))"
  using retryer_settles [of 0 "[Fail (0::nat), Fail (0::nat), Fail (0::nat), Fail (0::nat)] :: (nat, nat) outcome list"]
  by (simp add: retry_def)

theorem retryDelay_bounds_witness:
  "retryDelay 2 = 4000 \<and> retryDelay 7 = 30000"
  using retryDelay_bounds [of 2] retryDelay_bounds [of 7] by simp

theorem gc_keeps_observed_witness:
  "distinct (map fst [([KStr ''news'', KStr ''all''], (new_entry staleTime :: (nat, nat) query_entry)\<lparr>q_observers := 1\<rparr>)]) \<and>
   map_of (queries (gc_sweep (2 * gcTime) \<lparr>queries = [([KStr ''news'', KStr ''all''], (new_entry staleTime :: (nat, nat) query_entry)\<lparr>q_observers := 1\<rparr>)], next_seq = 1\<rparr>))
     [KStr ''news'', KStr ''all''] = Some ((new_entry staleTime)\<lparr>q_observers := 1\<rparr>)"
  using gc_keeps_observed [of "\<lparr>queries = [([KStr ''news'', KStr ''all''], (new_entry staleTime :: (nat, nat) query_entry)\<lparr>q_observers := 1\<rparr>)], next_seq = 1\<rparr>"
      "[KStr ''news'', KStr ''all'']" "(new_entry staleTime)\<lparr>q_observers := 1\<rparr>" "2 * gcTime"]
  by (simp add: new_entry_def)

end
