(* ===== verification/News_Hooks.thy ===== *)
theory News_Hooks
  imports News_Service Query_Cache
begin

text \<open>
  The hooks of \<open>src/hooks/useNews.ts\<close> and the two places where screens talk to the
  query client directly (\<open>AdminDashboardScreen.tsx\<close>, \<open>AddEditNewsScreen.tsx\<close>).
  A hook is the options object it passes to \<open>useQuery\<close>: the key, the service call
  of its \<open>queryFn\<close>, \<open>staleTime\<close> and \<open>enabled\<close>; mounting it subscribes an
  observer in the query cache.  A mutation hook runs the service write and, on
  success only, calls \<open>invalidateQueries\<close> with its key prefix.
\<close>

section \<open>Queries\<close>

text \<open>The service call each \<open>queryFn\<close> makes.\<close>

datatype news_query =
    AllNews
  | NewsByCategory string
  | LatestNews nat
  | GlobalNews nat
  | SportsNews nat
  | TechNews nat
  | NewsById string

text \<open>What a query stores: a list of articles, or one article (possibly \<open>null\<close>).\<close>

datatype news_data = NewsList "news_item list" | NewsOne "news_item option"

record query_options =
  queryKey :: query_key
  queryFn :: news_query
  qo_staleTime :: millis
  enabled :: bool

definition run_query :: "news_db \<Rightarrow> news_query \<Rightarrow> (news_data, gateway_error) outcome" where
  "run_query db q =
     (let r = (case q of
                 AllNews \<Rightarrow> map_sum id NewsList (getAllNews db)
               | NewsByCategory c \<Rightarrow> map_sum id NewsList (getNewsByCategory db c)
               | LatestNews n \<Rightarrow> map_sum id NewsList (getLatestNews db n)
               | GlobalNews n \<Rightarrow> map_sum id NewsList (getGlobalNews db n)
               | SportsNews n \<Rightarrow> map_sum id NewsList (getSportsNews db n)
               | TechNews n \<Rightarrow> map_sum id NewsList (getTechNews db n)
               | NewsById i \<Rightarrow> map_sum id NewsOne (getNewsById db i))
      in case r of Inl e \<Rightarrow> Fail e | Inr v \<Rightarrow> Ok v)"

definition useAllNews :: query_options where
  "useAllNews =
     \<lparr>queryKey = [KStr ''news'', KStr ''all''], queryFn = AllNews,
      qo_staleTime = 5 * 60 * 1000, enabled = True\<rparr>"

definition useNewsByCategory :: "string \<Rightarrow> query_options" where
  "useNewsByCategory c =
     \<lparr>queryKey = [KStr ''news'', KStr ''category'', KStr c], queryFn = NewsByCategory c,
      qo_staleTime = 5 * 60 * 1000, enabled = (c \<noteq> [])\<rparr>"

definition useLatestNews :: "nat \<Rightarrow> query_options" where
  "useLatestNews limit =
     \<lparr>queryKey = [KStr ''news'', KStr ''latest'', KNum limit], queryFn = LatestNews limit,
      qo_staleTime = 5 * 60 * 1000, enabled = True\<rparr>"

definition useGlobalNews :: "nat \<Rightarrow> query_options" where
  "useGlobalNews limit =
     \<lparr>queryKey = [KStr ''news'', KStr ''global'', KNum limit], queryFn = GlobalNews limit,
      qo_staleTime = 5 * 60 * 1000, enabled = True\<rparr>"

definition useSportsNews :: "nat \<Rightarrow> query_options" where
  "useSportsNews limit =
     \<lparr>queryKey = [KStr ''news'', KStr ''sports'', KNum limit], queryFn = SportsNews limit,
      qo_staleTime = 5 * 60 * 1000, enabled = True\<rparr>"

definition useTechNews :: "nat \<Rightarrow> query_options" where
  "useTechNews limit =
     \<lparr>queryKey = [KStr ''news'', KStr ''tech'', KNum limit], queryFn = TechNews limit,
      qo_staleTime = 5 * 60 * 1000, enabled = True\<rparr>"

text \<open>\<open>useNewsById\<close> sets no \<open>staleTime\<close>: the client default of \<open>App.tsx\<close> applies.\<close>

definition useNewsById :: "string \<Rightarrow> query_options" where
  "useNewsById i =
     \<lparr>queryKey = [KStr ''news'', KStr ''id'', KStr i], queryFn = NewsById i,
      qo_staleTime = staleTime, enabled = (i \<noteq> [])\<rparr>"

text \<open>The dashboard's own query (\<open>AdminDashboardScreen.tsx\<close>), also on the default.\<close>

definition adminAllNews :: query_options where
  "adminAllNews =
     \<lparr>queryKey = [KStr ''admin'', KStr ''allNews''], queryFn = AllNews,
      qo_staleTime = staleTime, enabled = True\<rparr>"

text \<open>Mounting a component that calls the hook; \<open>refetch()\<close> from its screen.\<close>

definition use_query ::
  "millis \<Rightarrow> query_options \<Rightarrow> (news_data, gateway_error) query_client \<Rightarrow>
     (news_data, gateway_error) query_client \<times> request list" where
  "use_query now opts qc = subscribe now (enabled opts) (queryKey opts) (qo_staleTime opts) qc"

definition refetch ::
  "millis \<Rightarrow> query_options \<Rightarrow> (news_data, gateway_error) query_client \<Rightarrow>
     (news_data, gateway_error) query_client \<times> request list" where
  "refetch now opts qc = ensure_fresh now True (queryKey opts) (qo_staleTime opts) qc"

text \<open>Every query options object the application passes to \<open>useQuery\<close>.\<close>

definition app_queries :: "query_options set" where
  "app_queries =
     {useAllNews, adminAllNews} \<union> range useNewsByCategory \<union> range useLatestNews \<union> range useGlobalNews \<union>
     range useSportsNews \<union> range useTechNews \<union> range useNewsById"

section \<open>Mutations\<close>

text \<open>
  The state a write touches: the database, the query client and the requests the
  invalidation sends out.
\<close>

record app_state =
  st_db :: news_db
  st_client :: "(news_data, gateway_error) query_client"

text \<open>\<open>onSuccess: () => queryClient.invalidateQueries({queryKey: p})\<close>, after the write.\<close>

definition mutate_then_invalidate ::
  "query_key \<Rightarrow> ('a + 'b) \<times> news_db \<Rightarrow> app_state \<Rightarrow> ('a + 'b) \<times> app_state \<times> request list" where
  "mutate_then_invalidate p w s =
     (case fst w of
        Inl e \<Rightarrow> (Inl e, s\<lparr>st_db := snd w\<rparr>, [])
      | Inr v \<Rightarrow> (let (qc', rs) = invalidate p (st_client s)
                 in (Inr v, s\<lparr>st_db := snd w, st_client := qc'\<rparr>, rs)))"

definition useCreateNews ::
  "news_fields \<Rightarrow> string \<Rightarrow> string \<Rightarrow> string \<Rightarrow> app_state \<Rightarrow>
     (gateway_error + news_item option) \<times> app_state \<times> request list" where
  "useCreateNews f now sid stamp s =
     mutate_then_invalidate [KStr ''news''] (createNews (st_db s) f now sid stamp) s"

definition useUpdateNews ::
  "string \<Rightarrow> news_patch \<Rightarrow> app_state \<Rightarrow> (gateway_error + news_item option) \<times> app_state \<times> request list" where
  "useUpdateNews i p s = mutate_then_invalidate [KStr ''news''] (updateNews (st_db s) i p) s"

definition useDeleteNews ::
  "string \<Rightarrow> app_state \<Rightarrow> (gateway_error + unit) \<times> app_state \<times> request list" where
  "useDeleteNews i s = mutate_then_invalidate [KStr ''news''] (deleteNews (st_db s) i) s"

text \<open>\<open>AddEditNewsScreen\<close>'s own mutations invalidate only the dashboard's key.\<close>

definition addEdit_create ::
  "news_fields \<Rightarrow> string \<Rightarrow> string \<Rightarrow> string \<Rightarrow> app_state \<Rightarrow>
     (gateway_error + news_item option) \<times> app_state \<times> request list" where
  "addEdit_create f now sid stamp s =
     mutate_then_invalidate [KStr ''admin'', KStr ''allNews''] (createNews (st_db s) f now sid stamp) s"

definition addEdit_update ::
  "string \<Rightarrow> news_patch \<Rightarrow> app_state \<Rightarrow> (gateway_error + news_item option) \<times> app_state \<times> request list" where
  "addEdit_update i p s =
     mutate_then_invalidate [KStr ''admin'', KStr ''allNews''] (updateNews (st_db s) i p) s"

text \<open>
  \<open>handleDeleteNews\<close> of the dashboard: \<open>await deleteNews(id); refetch()\<close>; a failure
  is only logged.
\<close>

definition dashboard_delete :: "millis \<Rightarrow> string \<Rightarrow> app_state \<Rightarrow> app_state \<times> request list" where
  "dashboard_delete now i s =
     (let (r, db') = deleteNews (st_db s) i
      in if isl r then (s\<lparr>st_db := db'\<rparr>, [])
         else (let (qc', rs) = refetch now adminAllNews (st_client s)
               in (s\<lparr>st_db := db', st_client := qc'\<rparr>, rs)))"

section \<open>Lemmas\<close>

text \<open>The query keys of the hooks identify their queries: two hooks with the same key run the same service call, so a shared cache entry never mixes two queries.\<close>

theorem query_key_determines_fn:
  "o1 \<in> app_queries \<Longrightarrow> o2 \<in> app_queries \<Longrightarrow> queryKey o1 = queryKey o2 \<Longrightarrow> queryFn o1 = queryFn o2"
  by (auto simp: app_queries_def useAllNews_def adminAllNews_def useNewsByCategory_def useLatestNews_def
      useGlobalNews_def useSportsNews_def useTechNews_def useNewsById_def)

lemma mutate_then_invalidate_fail:
  "fst w = Inl e \<Longrightarrow> mutate_then_invalidate p w s = (Inl e, s\<lparr>st_db := snd w\<rparr>, [])"
  by (simp add: mutate_then_invalidate_def)

lemma mutate_then_invalidate_ok:
  "fst w = Inr v \<Longrightarrow>
     mutate_then_invalidate p w s =
       (Inr v, s\<lparr>st_db := snd w, st_client := fst (invalidate p (st_client s))\<rparr>, snd (invalidate p (st_client s)))"
  by (simp add: mutate_then_invalidate_def split_def Let_def)

lemma mutate_then_invalidate_client:
  "st_client (fst (snd (mutate_then_invalidate p w s))) =
     (if isl (fst w) then st_client s else fst (invalidate p (st_client s)))"
  by (cases "fst w") (simp_all add: mutate_then_invalidate_fail mutate_then_invalidate_ok)

text \<open>C4: after a successful \<open>useUpdateNews\<close> of article \<open>i\<close>, the cached category lists and the cached article \<open>i\<close> are stale, keep their data, and refetch if observed.\<close>

theorem useUpdateNews_marks_stale:
  assumes "fst (useUpdateNews i p s) = Inr v"
    and "map_of (queries (st_client s)) k = Some e"
    and "k = queryKey (useNewsByCategory c) \<or> k = queryKey (useNewsById i)"
  shows "\<exists>e'. map_of (queries (st_client (fst (snd (useUpdateNews i p s))))) k = Some e' \<and>
              is_stale now e' \<and> q_data e' = q_data e \<and> (0 < q_observers e \<longrightarrow> q_fetch e' = Fetching)"
proof -
  have ok: "fst (updateNews (st_db s) i p) = Inr v"
    using assms(1) by (cases "fst (updateNews (st_db s) i p)")
      (simp_all add: useUpdateNews_def mutate_then_invalidate_fail mutate_then_invalidate_ok)
  have m: "key_matches [KStr ''news''] k"
    using assms(3) by (auto simp: key_matches_def useNewsByCategory_def useNewsById_def)
  from ok have "st_client (fst (snd (useUpdateNews i p s))) = fst (invalidate [KStr ''news''] (st_client s))"
    by (simp add: useUpdateNews_def mutate_then_invalidate_client)
  with invalidate_matching [OF assms(2) m, of now] show ?thesis by auto
qed

text \<open>C6: a failed \<open>useCreateNews\<close> leaves the query cache untouched and sends no request.\<close>

theorem news_mutation_failure_atomic:
  "isl (fst (useCreateNews f now sid stamp s)) \<Longrightarrow>
     st_client (fst (snd (useCreateNews f now sid stamp s))) = st_client s \<and> snd (snd (useCreateNews f now sid stamp s)) = []"
  by (cases "fst (createNews (st_db s) f now sid stamp)")
     (simp_all add: useCreateNews_def mutate_then_invalidate_fail mutate_then_invalidate_ok)

text \<open>C23: the create mutation of \<open>AddEditNewsScreen\<close> invalidates only the dashboard key: every \<open>news\<close> entry the reader screens use is left as it was.\<close>

theorem addEdit_create_leaves_news_keys:
  "key_matches [KStr ''news''] k \<Longrightarrow>
     map_of (queries (st_client (fst (snd (addEdit_create f now sid stamp s))))) k = map_of (queries (st_client s)) k"
proof -
  assume m: "key_matches [KStr ''news''] k"
  then have "\<not> key_matches [KStr ''admin'', KStr ''allNews''] k"
    by (auto simp: key_matches_def split: list.splits)
  then show ?thesis
    by (simp add: addEdit_create_def mutate_then_invalidate_client invalidate_other)
qed

text \<open>C3: two components mounting the same enabled hook on an empty cache cause exactly one network request.\<close>

theorem use_query_dedup:
  assumes "opts \<in> app_queries" and "enabled opts" and "map_of (queries qc) (queryKey opts) = None"
  shows "snd (use_query now opts qc) = [(queryKey opts, next_seq qc)] \<and>
         snd (use_query now' opts (fst (use_query now opts qc))) = []"
proof -
  let ?k = "queryKey opts" and ?st = "qo_staleTime opts"
  let ?e1 = "(new_entry ?st)\<lparr>q_observers := Suc 0, q_gc_at := None\<rparr>"
  let ?qc1 = "put ?k ?e1 qc"
  have e: "entry_of qc ?k ?st = new_entry ?st" using assms(3) by (simp add: entry_of_def)
  have u1: "use_query now opts qc = ensure_fresh now False ?k ?st ?qc1"
    using assms(2) e by (simp add: use_query_def subscribe_def new_entry_def)
  have idle: "q_fetch (entry_of ?qc1 ?k ?st) = Idle" and stale: "is_stale now (entry_of ?qc1 ?k ?st)"
    by (simp_all add: new_entry_def is_stale_def)
  from ensure_fresh_dedup [OF idle stale]
  have d1: "snd (ensure_fresh now False ?k ?st ?qc1) = [(?k, next_seq qc)]"
    and d2: "snd (ensure_fresh now' False ?k ?st (fst (ensure_fresh now False ?k ?st ?qc1))) = []"
    by simp_all
  let ?qc2 = "fst (ensure_fresh now False ?k ?st ?qc1)"
  have "q_fetch (entry_of ?qc2 ?k ?st) = Fetching"
    by (simp add: ensure_fresh_def fetch_query_issue new_entry_def is_stale_def)
  then have "snd (use_query now' opts ?qc2) = []"
    using assms(2) by (simp add: use_query_def subscribe_def ensure_fresh_def fetch_query_join Let_def)
  with u1 d1 show ?thesis by simp
qed

section \<open>Witnesses\<close>

theorem query_key_determines_fn_witness:
  "useLatestNews 4 \<in> app_queries \<and> useNewsByCategory ''latest'' \<in> app_queries \<and>
   queryFn (useLatestNews 4) = queryFn (useLatestNews 4)"
  using query_key_determines_fn [of "useLatestNews 4" "useLatestNews 4"] by (simp add: app_queries_def)

theorem use_query_dedup_witness:
  "snd (use_query 0 (useSportsNews 4) empty_client) = [(queryKey (useSportsNews 4), 1)] \<and>
   snd (use_query 0 (useSportsNews 4) (fst (use_query 0 (useSportsNews 4) empty_client))) = []"
  using use_query_dedup [of "useSportsNews 4" empty_client 0 0]
  by (simp add: app_queries_def useSportsNews_def empty_client_def)

theorem news_mutation_failure_atomic_witness:
  "isl (fst (useCreateNews example_fields ''t0'' ''n2'' ''t1'' \<lparr>st_db = example_db\<lparr>db_online := False\<rparr>, st_client = empty_client\<rparr>)) \<and>
   st_client (fst (snd (useCreateNews example_fields ''t0'' ''n2'' ''t1'' \<lparr>st_db = example_db\<lparr>db_online := False\<rparr>, st_client = empty_client\<rparr>)))
     = empty_client"
proof -
  have h: "isl (fst (useCreateNews example_fields ''t0'' ''n2'' ''t1'' \<lparr>st_db = example_db\<lparr>db_online := False\<rparr>, st_client = empty_client\<rparr>))"
    by (simp add: useCreateNews_def createNews_def pg_insert_def mutate_then_invalidate_def example_db_def
                  throw_or_data_def pg_single_def pg_fail_def)
  show ?thesis using h news_mutation_failure_atomic [OF h] by simp
qed

theorem addEdit_create_leaves_news_keys_witness:
  "key_matches [KStr ''news''] (queryKey (useLatestNews 4)) \<and>
   map_of (queries (st_client (fst (snd (addEdit_create example_fields ''t0'' ''n2'' ''t1'' \<lparr>st_db = example_db, st_client = empty_client\<rparr>))))) (queryKey (useLatestNews 4)) =
   map_of (queries (st_client \<lparr>st_db = example_db, st_client = empty_client\<rparr>)) (queryKey (useLatestNews 4))"
proof -
  have h: "key_matches [KStr ''news''] (queryKey (useLatestNews 4))"
    by (simp add: key_matches_def useLatestNews_def)
  show ?thesis using h addEdit_create_leaves_news_keys [OF h] by simp
qed

theorem useUpdateNews_marks_stale_witness:
  "\<exists>e'. map_of (queries (st_client (fst (snd (useUpdateNews ''n1'' (news_patch.make None (Some ''New'') None None None None None None None None)
          \<lparr>st_db = example_db, st_client = \<lparr>queries = [([KStr ''news'', KStr ''id'', KStr ''n1''], new_entry staleTime)], next_seq = 1\<rparr>\<rparr>)))))
          [KStr ''news'', KStr ''id'', KStr ''n1''] = Some e' \<and> is_stale 0 e'"
proof -
  let ?p = "news_patch.make None (Some ''New'') None None None None None None None None"
  let ?s = "\<lparr>st_db = example_db, st_client = \<lparr>queries = [([KStr ''news'', KStr ''id'', KStr ''n1''], new_entry staleTime)], next_seq = 1\<rparr>\<rparr>"
  have h1: "fst (useUpdateNews ''n1'' ?p ?s) = Inr (Some (apply_patch ?p example_row))"
    by (simp add: useUpdateNews_def mutate_then_invalidate_def updateNews_def pg_update_def example_db_def
        example_row_def ids_of_def apply_patch_def news_patch.make_def pg_single_def pg_ok_def throw_or_data_def
        split_def Let_def)
  have h2: "map_of (queries (st_client ?s)) [KStr ''news'', KStr ''id'', KStr ''n1''] = Some (new_entry staleTime)"
    by simp
  have h3: "[KStr ''news'', KStr ''id'', KStr ''n1''] = queryKey (useNewsByCategory ''x'') \<or>
            [KStr ''news'', KStr ''id'', KStr ''n1''] = queryKey (useNewsById ''n1'')"
    by (simp add: useNewsById_def)
  show ?thesis using useUpdateNews_marks_stale [OF h1 h2 h3, of 0] by blast
qed

end
