(* ===== verification/Fetch_Coordinator.thy ===== *)
theory Fetch_Coordinator
  imports News_Hooks
begin

text \<open>
  The fetch coordinator as a transition system: the database, the query client, the
  requests on the network and the clock.  Every step is one thing the running
  application does: a screen mounts a hook of \<open>useNews.ts\<close> or calls \<open>refetch\<close>, an
  admin screen runs one of its writes, the network delivers the settled answer of a
  request (after the retryer's attempts and sleeps), an observer unmounts, time
  passes, or the garbage collector sweeps.  Interleavings are arbitrary: any event
  may happen in any state.  The invariant \<open>client_ok\<close> holds in every reachable
  state; its parts are the coordinator's safety properties.
\<close>

record coord_state =
  cs_db :: news_db
  cs_client :: "(news_data, gateway_error) query_client"
  cs_net :: "request list"
  cs_now :: millis

definition coord_init :: "news_db \<Rightarrow> coord_state" where
  "coord_init db = \<lparr>cs_db = db, cs_client = empty_client, cs_net = [], cs_now = 0\<rparr>"

definition app_of :: "coord_state \<Rightarrow> app_state" where
  "app_of s = \<lparr>st_db = cs_db s, st_client = cs_client s\<rparr>"

definition after_write :: "coord_state \<Rightarrow> app_state \<Rightarrow> request list \<Rightarrow> coord_state" where
  "after_write s a rs = s\<lparr>cs_db := st_db a, cs_client := st_client a, cs_net := cs_net s @ rs\<rparr>"

inductive coord_step :: "coord_state \<Rightarrow> coord_state \<Rightarrow> bool" where
  mount: "opts \<in> app_queries \<Longrightarrow> use_query (cs_now s) opts (cs_client s) = (qc, rs) \<Longrightarrow>
     coord_step s (s\<lparr>cs_client := qc, cs_net := cs_net s @ rs\<rparr>)"
| unmount: "coord_step s (s\<lparr>cs_client := unsubscribe (cs_now s) k (cs_client s)\<rparr>)"
| refetch: "opts \<in> app_queries \<Longrightarrow> refetch (cs_now s) opts (cs_client s) = (qc, rs) \<Longrightarrow>
     coord_step s (s\<lparr>cs_client := qc, cs_net := cs_net s @ rs\<rparr>)"
| create: "useCreateNews f now sid stamp (app_of s) = (r, a, rs) \<Longrightarrow> coord_step s (after_write s a rs)"
| update: "useUpdateNews i p (app_of s) = (r, a, rs) \<Longrightarrow> coord_step s (after_write s a rs)"
| delete: "useDeleteNews i (app_of s) = (r', a, rs) \<Longrightarrow> coord_step s (after_write s a rs)"
| admin_create: "addEdit_create f now sid stamp (app_of s) = (r, a, rs) \<Longrightarrow> coord_step s (after_write s a rs)"
| admin_update: "addEdit_update i p (app_of s) = (r, a, rs) \<Longrightarrow> coord_step s (after_write s a rs)"
| admin_delete: "dashboard_delete (cs_now s) i (app_of s) = (a, rs) \<Longrightarrow> coord_step s (after_write s a rs)"
| respond: "q \<in> set (cs_net s) \<Longrightarrow> retryer 0 os = Some (r, ds) \<Longrightarrow>
     coord_step s (s\<lparr>cs_client := on_response (cs_now s + sum_list ds) q r (cs_client s),
                    cs_net := remove1 q (cs_net s), cs_now := cs_now s + sum_list ds\<rparr>)"
| tick: "coord_step s (s\<lparr>cs_now := cs_now s + d\<rparr>)"
| gc: "coord_step s (s\<lparr>cs_client := gc_sweep (cs_now s) (cs_client s)\<rparr>)"

inductive coord_reach :: "coord_state \<Rightarrow> bool" where
  init: "coord_reach (coord_init db)"
| step: "coord_reach s \<Longrightarrow> coord_step s t \<Longrightarrow> coord_reach t"

section \<open>An example run\<close>

text \<open>
  The sports section of the home screen mounts, its fetch succeeds, and the user
  pulls to refresh twice; the second \<open>refetch\<close> cancels the first, whose request
  stays on the network.
\<close>

definition run_mounted :: coord_state where
  "run_mounted =
     (coord_init example_db)\<lparr>cs_client := fst (use_query (cs_now (coord_init example_db)) (useSportsNews 4) (cs_client (coord_init example_db))),
        cs_net := cs_net (coord_init example_db) @ snd (use_query (cs_now (coord_init example_db)) (useSportsNews 4) (cs_client (coord_init example_db)))\<rparr>"

definition run_settled :: coord_state where
  "run_settled =
     run_mounted\<lparr>cs_client := on_response (cs_now run_mounted + sum_list [])
                   (queryKey (useSportsNews 4), 1) (Ok (NewsList [])) (cs_client run_mounted),
                 cs_net := remove1 (queryKey (useSportsNews 4), 1) (cs_net run_mounted),
                 cs_now := cs_now run_mounted + sum_list []\<rparr>"

definition run_refetched :: coord_state where
  "run_refetched =
     run_settled\<lparr>cs_client := fst (refetch (cs_now run_settled) (useSportsNews 4) (cs_client run_settled)),
       cs_net := cs_net run_settled @ snd (refetch (cs_now run_settled) (useSportsNews 4) (cs_client run_settled))\<rparr>"

definition run_refetched_twice :: coord_state where
  "run_refetched_twice =
     run_refetched\<lparr>cs_client := fst (refetch (cs_now run_refetched) (useSportsNews 4) (cs_client run_refetched)),
       cs_net := cs_net run_refetched @ snd (refetch (cs_now run_refetched) (useSportsNews 4) (cs_client run_refetched))\<rparr>"

section \<open>The invariant\<close>

text \<open>Requests on the network are distinct and numbered below the next number.\<close>

definition net_ok :: "nat \<Rightarrow> request list \<Rightarrow> bool" where
  "net_ok n net \<longleftrightarrow> distinct net \<and> (\<forall>q\<in>set net. 0 < snd q \<and> snd q < n)"

text \<open>
  An entry is fetching exactly when its latest request is on the network, and that
  request is the newest for its key; observed entries have no retention deadline;
  the status agrees with the data and the error.
\<close>

definition entry_ok :: "nat \<Rightarrow> request list \<Rightarrow> query_key \<Rightarrow> ('v, 'e) query_entry \<Rightarrow> bool" where
  "entry_ok n net k e \<longleftrightarrow>
     q_seq e < n \<and> (q_fetch e = Fetching \<longleftrightarrow> (k, q_seq e) \<in> set net) \<and>
     (q_fetch e = Fetching \<longrightarrow> (\<forall>s. (k, s) \<in> set net \<longrightarrow> s \<le> q_seq e)) \<and>
     (0 < q_observers e \<longrightarrow> q_gc_at e = None) \<and>
     (q_status e = StSuccess \<longrightarrow> q_data e \<noteq> None) \<and> (q_status e = StError \<longleftrightarrow> q_error e \<noteq> None)"

definition client_ok :: "('v, 'e) query_client \<Rightarrow> request list \<Rightarrow> bool" where
  "client_ok qc net \<longleftrightarrow>
     distinct (map fst (queries qc)) \<and> 0 < next_seq qc \<and> net_ok (next_seq qc) net \<and>
     (\<forall>(k, e)\<in>set (queries qc). entry_ok (next_seq qc) net k e)"

section \<open>Preservation of the invariant\<close>

lemma client_ok_put:
  assumes "client_ok qc net" and "entry_ok (next_seq qc) net k e"
  shows "client_ok (put k e qc) net"
proof -
  have d: "distinct (map fst (queries qc))" using assms(1) by (simp add: client_ok_def)
  have "\<forall>(k2, e2)\<in>set (queries (put k e qc)). entry_ok (next_seq qc) net k2 e2"
  proof (clarify)
    fix k2 e2 assume "(k2, e2) \<in> set (queries (put k e qc))"
    then have "(k2 = k \<and> e2 = e) \<or> (k2 \<noteq> k \<and> (k2, e2) \<in> set (queries qc))"
      using d by (simp add: put_def set_update_distinct)
    then show "entry_ok (next_seq qc) net k2 e2"
      using assms by (auto simp: client_ok_def)
  qed
  then show ?thesis using assms(1) d by (simp add: client_ok_def put_def distinct_update)
qed

lemma net_ok_issue: "net_ok n net \<Longrightarrow> 0 < n \<Longrightarrow> net_ok (Suc n) (net @ [(k, n)])"
  by (auto simp: net_ok_def)

lemma entry_ok_issue_other:
  "entry_ok n net k2 e \<Longrightarrow> k2 \<noteq> k \<Longrightarrow> entry_ok (Suc n) (net @ [(k, n)]) k2 e"
  by (auto simp: entry_ok_def)

lemma entry_ok_issue_same:
  "entry_ok n net k e \<Longrightarrow> net_ok n net \<Longrightarrow>
     entry_ok (Suc n) (net @ [(k, n)]) k (e\<lparr>q_fetch := Fetching, q_seq := n\<rparr>)"
  by (force simp: entry_ok_def net_ok_def)

lemma fetch_query_ok:
  assumes ok: "client_ok qc net" and e: "entry_ok (next_seq qc) net k e"
  shows "client_ok (fst (fetch_query c k e qc)) (net @ snd (fetch_query c k e qc))"
proof (cases "q_fetch e = Fetching \<and> \<not> (c \<and> q_data e \<noteq> None)")
  case True
  with ok e show ?thesis by (simp add: fetch_query_join client_ok_put)
next
  case False
  let ?n = "next_seq qc"
  let ?e' = "e\<lparr>q_fetch := Fetching, q_seq := ?n\<rparr>"
  have d: "distinct (map fst (queries qc))" and pos: "0 < ?n" and net: "net_ok ?n net"
    using ok by (simp_all add: client_ok_def)
  have all: "\<forall>(k2, e2)\<in>set (AList.update k ?e' (queries qc)). entry_ok (Suc ?n) (net @ [(k, ?n)]) k2 e2"
  proof (clarify)
    fix k2 e2 assume "(k2, e2) \<in> set (AList.update k ?e' (queries qc))"
    then have "(k2 = k \<and> e2 = ?e') \<or> (k2 \<noteq> k \<and> (k2, e2) \<in> set (queries qc))"
      by (rule set_update_distinct [OF d])
    then show "entry_ok (Suc ?n) (net @ [(k, ?n)]) k2 e2"
    proof
      assume "k2 = k \<and> e2 = ?e'"
      with e net show ?thesis by (simp add: entry_ok_issue_same)
    next
      assume "k2 \<noteq> k \<and> (k2, e2) \<in> set (queries qc)"
      with ok show ?thesis by (auto simp: client_ok_def intro: entry_ok_issue_other)
    qed
  qed
  show ?thesis
    using False d pos net all
    by (simp add: fetch_query_issue client_ok_def put_def distinct_update net_ok_issue)
qed

lemma new_entry_ok: "net_ok n net \<Longrightarrow> 0 < n \<Longrightarrow> entry_ok n net k (new_entry st)"
  by (auto simp: entry_ok_def new_entry_def net_ok_def)

lemma entry_of_ok:
  assumes "client_ok qc net"
  shows "entry_ok (next_seq qc) net k (entry_of qc k st)"
proof (cases "map_of (queries qc) k")
  case None
  with assms show ?thesis by (simp add: entry_of_def client_ok_def new_entry_ok)
next
  case (Some e)
  then have "(k, e) \<in> set (queries qc)" by (rule map_of_SomeD)
  with Some assms show ?thesis by (auto simp: entry_of_def client_ok_def)
qed

lemma ensure_fresh_ok:
  "client_ok qc net \<Longrightarrow>
     client_ok (fst (ensure_fresh now f k st qc)) (net @ snd (ensure_fresh now f k st qc))"
  by (auto simp: ensure_fresh_def Let_def intro: fetch_query_ok client_ok_put entry_of_ok)

lemma subscribe_ok:
  assumes "client_ok qc net"
  shows "client_ok (fst (subscribe now en k st qc)) (net @ snd (subscribe now en k st qc))"
proof -
  let ?e = "entry_of qc k st"
  let ?e1 = "?e\<lparr>q_observers := Suc (q_observers ?e), q_gc_at := None\<rparr>"
  have "entry_ok (next_seq qc) net k ?e1"
    using entry_of_ok [OF assms, of k st] by (simp add: entry_ok_def)
  then have "client_ok (put k ?e1 qc) net"
    by (rule client_ok_put [OF assms])
  then show ?thesis
    using ensure_fresh_ok by (auto simp: subscribe_def Let_def)
qed

lemma unsubscribe_ok:
  assumes "client_ok qc net"
  shows "client_ok (unsubscribe now k qc) net"
proof (cases "map_of (queries qc) k")
  case None
  with assms show ?thesis by (simp add: unsubscribe_def)
next
  case (Some e)
  then have "(k, e) \<in> set (queries qc)" by (rule map_of_SomeD)
  with assms have "entry_ok (next_seq qc) net k e" by (auto simp: client_ok_def)
  then have "entry_ok (next_seq qc) net k
      (e\<lparr>q_observers := q_observers e - 1,
         q_gc_at := (if q_observers e - 1 = 0 then Some (now + gcTime) else q_gc_at e)\<rparr>)"
    by (auto simp: entry_ok_def)
  with Some assms show ?thesis by (simp add: unsubscribe_def Let_def client_ok_put)
qed


lemma client_okI:
  assumes "distinct (map fst (queries qc))" and "0 < next_seq qc" and "net_ok (next_seq qc) net"
    and "\<And>k e. (k, e) \<in> set (queries qc) \<Longrightarrow> entry_ok (next_seq qc) net k e"
  shows "client_ok qc net"
  using assms by (auto simp: client_ok_def)

lemma client_ok_entry:
  "client_ok qc net \<Longrightarrow> (k, e) \<in> set (queries qc) \<Longrightarrow> entry_ok (next_seq qc) net k e"
  by (auto simp: client_ok_def)

lemma net_ok_remove1: "net_ok n net \<Longrightarrow> net_ok n (remove1 q net)"
  using set_remove1_subset [of q net] by (auto simp: net_ok_def)

lemma entry_ok_remove:
  assumes "entry_ok n net k e" and "distinct net" and "\<not> (q = (k, q_seq e) \<and> q_fetch e = Fetching)"
  shows "entry_ok n (remove1 q net) k e"
  using assms by (auto simp: entry_ok_def set_remove1_eq)

lemma entry_ok_settle:
  assumes "entry_ok n net k e" and "distinct net" and "q = (k, q_seq e)"
    and "0 < q_observers e \<longrightarrow> g = None"
  shows "entry_ok n (remove1 q net) k ((settle now r e)\<lparr>q_gc_at := g\<rparr>)"
  using assms by (cases r) (auto simp: entry_ok_def set_remove1_eq)

lemma on_response_ok:
  assumes ok: "client_ok qc net" and q: "q \<in> set net"
  shows "client_ok (on_response now q r qc) (remove1 q net)"
proof -
  have d: "distinct (map fst (queries qc))" and pos: "0 < next_seq qc"
    and net: "net_ok (next_seq qc) net" and dn: "distinct net"
    using ok by (simp_all add: client_ok_def net_ok_def)
  have net': "net_ok (next_seq qc) (remove1 q net)" using net by (rule net_ok_remove1)
  have others: "entry_ok (next_seq qc) (remove1 q net) k2 e2"
    if "(k2, e2) \<in> set (queries qc)" and "k2 \<noteq> fst q" for k2 e2
    using that ok dn by (auto intro: entry_ok_remove client_ok_entry)
  show ?thesis
  proof (cases "map_of (queries qc) (fst q)")
    case None
    have "entry_ok (next_seq qc) (remove1 q net) k2 e2" if "(k2, e2) \<in> set (queries qc)" for k2 e2
    proof -
      from that None have "k2 \<noteq> fst q" by (force simp: map_of_eq_None_iff)
      with that show ?thesis by (rule others)
    qed
    with None d pos net' show ?thesis by (simp add: on_response_def client_okI)
  next
    case (Some e)
    have ke: "(fst q, e) \<in> set (queries qc)" using Some by (rule map_of_SomeD)
    have eok: "entry_ok (next_seq qc) net (fst q) e" using ok ke by (rule client_ok_entry)
    show ?thesis
    proof (cases "q_fetch e = Fetching \<and> q_seq e = snd q")
      case True
      let ?g = "if q_observers e = 0 then Some (now + gcTime) else q_gc_at e"
      have "entry_ok (next_seq qc) (remove1 q net) (fst q) ((settle now r e)\<lparr>q_gc_at := ?g\<rparr>)"
        using eok dn True by (intro entry_ok_settle) (auto simp: entry_ok_def)
      moreover have "client_ok (put (fst q) ((settle now r e)\<lparr>q_gc_at := ?g\<rparr>) qc) (remove1 q net)"
      proof (rule client_okI)
        show "distinct (map fst (queries (put (fst q) ((settle now r e)\<lparr>q_gc_at := ?g\<rparr>) qc)))"
          using d by (simp add: put_def distinct_update)
      next
        fix k2 e2 assume "(k2, e2) \<in> set (queries (put (fst q) ((settle now r e)\<lparr>q_gc_at := ?g\<rparr>) qc))"
        then have "(k2 = fst q \<and> e2 = (settle now r e)\<lparr>q_gc_at := ?g\<rparr>) \<or> (k2 \<noteq> fst q \<and> (k2, e2) \<in> set (queries qc))"
          by (simp add: put_def set_update_distinct [OF d])
        with calculation others
        show "entry_ok (next_seq (put (fst q) ((settle now r e)\<lparr>q_gc_at := ?g\<rparr>) qc)) (remove1 q net) k2 e2"
          by auto
      qed (use pos net' in simp_all)
      ultimately show ?thesis using Some True by (simp add: on_response_def)
    next
      case False
      have all: "entry_ok (next_seq qc) (remove1 q net) k2 e2" if "(k2, e2) \<in> set (queries qc)" for k2 e2
      proof (cases "k2 = fst q")
        case True
        with that d ke have "e2 = e" by (metis eq_key_imp_eq_value)
        have "\<not> (q = (k2, q_seq e2) \<and> q_fetch e2 = Fetching)"
          using True \<open>e2 = e\<close> False by (cases q) auto
        then show ?thesis by (rule entry_ok_remove [OF client_ok_entry [OF ok that] dn])
      next
        case False
        with that show ?thesis by (rule others)
      qed
      have "client_ok qc (remove1 q net)" by (rule client_okI [OF d pos net' all])
      moreover have "on_response now q r qc = qc" using Some False by (auto simp: on_response_def)
      ultimately show ?thesis by simp
    qed
  qed
qed

lemma gc_sweep_ok: "client_ok qc net \<Longrightarrow> client_ok (gc_sweep now qc) net"
  by (auto simp: client_ok_def gc_sweep_def distinct_keys_filter)

lemma mark_invalid_ok:
  "client_ok qc net \<Longrightarrow> client_ok (qc\<lparr>queries := mark_invalid p (queries qc)\<rparr>) net"
proof -
  assume ok: "client_ok qc net"
  have keys: "map fst (mark_invalid p c) = map fst c" for c :: "('v, 'e) query_cache"
    by (induction c) (auto simp: mark_invalid_def)
  have ents: "(k, e) \<in> set (mark_invalid p c) \<Longrightarrow> \<exists>e0. (k, e0) \<in> set c \<and> (e = e0 \<or> e = e0\<lparr>q_invalidated := True\<rparr>)"
    for k e and c :: "('v, 'e) query_cache"
    by (auto simp: mark_invalid_def)
  have inv: "entry_ok n net k (e\<lparr>q_invalidated := True\<rparr>) = entry_ok n net k e" for n k and e :: "('v, 'e) query_entry"
    by (simp add: entry_ok_def)
  show ?thesis
    using ok by (auto simp: client_ok_def keys inv dest!: ents)
qed

lemma refetch_keys_ok:
  "client_ok qc net \<Longrightarrow> client_ok (fst (refetch_keys ks qc)) (net @ snd (refetch_keys ks qc))"
proof (induction ks arbitrary: qc net)
  case Nil
  then show ?case by simp
next
  case (Cons k ks)
  show ?case
  proof (cases "map_of (queries qc) k")
    case None
    with Cons show ?thesis by simp
  next
    case (Some e)
    let ?p = "fetch_query True k e qc"
    have "entry_ok (next_seq qc) net k e"
      using Cons.prems map_of_SomeD [OF Some] by (rule client_ok_entry)
    with Cons.prems have "client_ok (fst ?p) (net @ snd ?p)" by (rule fetch_query_ok)
    from Cons.IH [OF this] Some show ?thesis by (simp add: split_def Let_def)
  qed
qed

lemma invalidate_ok:
  "client_ok qc net \<Longrightarrow> client_ok (fst (invalidate p qc)) (net @ snd (invalidate p qc))"
  by (simp add: invalidate_def refetch_keys_ok mark_invalid_ok)


lemma use_query_ok:
  assumes "client_ok qc net" and "use_query now opts qc = (qc', rs)"
  shows "client_ok qc' (net @ rs)"
proof -
  have "client_ok (fst (subscribe now (enabled opts) (queryKey opts) (qo_staleTime opts) qc))
      (net @ snd (subscribe now (enabled opts) (queryKey opts) (qo_staleTime opts) qc))"
    by (rule subscribe_ok [OF assms(1)])
  with assms(2) show ?thesis by (simp add: use_query_def)
qed

lemma refetch_ok:
  assumes "client_ok qc net" and "refetch now opts qc = (qc', rs)"
  shows "client_ok qc' (net @ rs)"
proof -
  have "client_ok (fst (ensure_fresh now True (queryKey opts) (qo_staleTime opts) qc))
      (net @ snd (ensure_fresh now True (queryKey opts) (qo_staleTime opts) qc))"
    by (rule ensure_fresh_ok [OF assms(1)])
  with assms(2) show ?thesis by (simp add: refetch_def)
qed

lemma mutate_then_invalidate_client_ok:
  assumes "client_ok (st_client a) net" and "mutate_then_invalidate p w a = (r, a', rs)"
  shows "client_ok (st_client a') (net @ rs)"
proof (cases "fst w")
  case (Inl e)
  with assms show ?thesis by (auto simp: mutate_then_invalidate_def)
next
  case (Inr v)
  with assms invalidate_ok [OF assms(1), of p] show ?thesis
    by (auto simp: mutate_then_invalidate_def split_def Let_def)
qed

lemma dashboard_delete_ok:
  assumes "client_ok (st_client a) net" and "dashboard_delete now i a = (a', rs)"
  shows "client_ok (st_client a') (net @ rs)"
proof (cases "isl (fst (deleteNews (st_db a) i))")
  case True
  with assms show ?thesis by (auto simp: dashboard_delete_def split_def)
next
  case False
  obtain qc' rs' where rf: "refetch now adminAllNews (st_client a) = (qc', rs')"
    by fastforce
  have "client_ok qc' (net @ rs')" by (rule refetch_ok [OF assms(1) rf])
  moreover have "st_client a' = qc'" and "rs = rs'"
    using assms(2) False rf by (auto simp: dashboard_delete_def split_def)
  ultimately show ?thesis by simp
qed

lemma write_ok:
  assumes "client_ok (cs_client s) (cs_net s)" and "mutate_then_invalidate p w (app_of s) = (r, a, rs)"
  shows "client_ok (cs_client (after_write s a rs)) (cs_net (after_write s a rs))"
proof -
  have "client_ok (st_client (app_of s)) (cs_net s)" using assms(1) by (simp add: app_of_def)
  from mutate_then_invalidate_client_ok [OF this assms(2)] show ?thesis by (simp add: after_write_def)
qed

lemma coord_step_ok:
  "coord_step s t \<Longrightarrow> client_ok (cs_client s) (cs_net s) \<Longrightarrow> client_ok (cs_client t) (cs_net t)"
proof (induction rule: coord_step.induct)
  case (mount opts s qc rs)
  then show ?case by (simp add: use_query_ok)
next
  case (unmount s k)
  then show ?case by (simp add: unsubscribe_ok)
next
  case (refetch opts s qc rs)
  then show ?case by (simp add: refetch_ok)
next
  case (create f now sid stamp s r a rs)
  show ?case by (rule write_ok [OF create.prems create.hyps [unfolded useCreateNews_def]])
next
  case (update i p s r a rs)
  show ?case by (rule write_ok [OF update.prems update.hyps [unfolded useUpdateNews_def]])
next
  case (delete i s r' a rs)
  show ?case by (rule write_ok [OF delete.prems delete.hyps [unfolded useDeleteNews_def]])
next
  case (admin_create f now sid stamp s r a rs)
  show ?case by (rule write_ok [OF admin_create.prems admin_create.hyps [unfolded addEdit_create_def]])
next
  case (admin_update i p s r a rs)
  show ?case by (rule write_ok [OF admin_update.prems admin_update.hyps [unfolded addEdit_update_def]])
next
  case (admin_delete s i a rs)
  then show ?case
  proof -
    have "client_ok (st_client (app_of s)) (cs_net s)" using admin_delete.prems by (simp add: app_of_def)
    from dashboard_delete_ok [OF this admin_delete.hyps] show ?thesis by (simp add: after_write_def)
  qed
next
  case (respond q s os r ds)
  then show ?case by (simp add: on_response_ok)
next
  case (tick s d)
  then show ?case by simp
next
  case (gc s)
  then show ?case by (simp add: gc_sweep_ok)
qed

lemma reach_client_ok: "coord_reach s \<Longrightarrow> client_ok (cs_client s) (cs_net s)"
proof (induction rule: coord_reach.induct)
  case (init db)
  show ?case by (simp add: coord_init_def empty_client_def client_ok_def net_ok_def)
next
  case (step s t)
  show ?case by (rule coord_step_ok [OF step.hyps(2) step.IH])
qed

lemma reach_entry_ok:
  "coord_reach s \<Longrightarrow> map_of (queries (cs_client s)) k = Some e \<Longrightarrow>
     entry_ok (next_seq (cs_client s)) (cs_net s) k e"
proof -
  assume r: "coord_reach s" and m: "map_of (queries (cs_client s)) k = Some e"
  from r have "client_ok (cs_client s) (cs_net s)" by (rule reach_client_ok)
  then show ?thesis using map_of_SomeD [OF m] by (rule client_ok_entry)
qed

text \<open>C1: in every reachable state of the running application the query client is consistent: keys are unique, an entry is fetching exactly when its latest request is on the network, request numbers are fresh, observed entries are never scheduled for eviction, and status, data and error agree.\<close>

theorem coord_reach_ok: "coord_reach s \<Longrightarrow> client_ok (cs_client s) (cs_net s)"
  by (rule reach_client_ok)

text \<open>C9: in every reachable state a fetching entry is never stuck: its request is on the network, and its answer, success or failure, ends the fetch.\<close>

theorem coord_fetch_completes:
  assumes "coord_reach s" and "map_of (queries (cs_client s)) k = Some e" and "q_fetch e = Fetching"
  shows "(k, q_seq e) \<in> set (cs_net s) \<and>
         (\<exists>e'. map_of (queries (on_response t (k, q_seq e) r (cs_client s))) k = Some e' \<and> q_fetch e' = Idle)"
proof -
  have "entry_ok (next_seq (cs_client s)) (cs_net s) k e"
    using assms(1,2) by (rule reach_entry_ok)
  with assms(3) have "(k, q_seq e) \<in> set (cs_net s)" by (simp add: entry_ok_def)
  moreover
  let ?g = "if q_observers e = 0 then Some (t + gcTime) else q_gc_at e"
  have "on_response t (k, q_seq e) r (cs_client s) = put k ((settle t r e)\<lparr>q_gc_at := ?g\<rparr>) (cs_client s)"
    using assms(2,3) by (rule on_response_accept)
  then have "map_of (queries (on_response t (k, q_seq e) r (cs_client s))) k =
      Some ((settle t r e)\<lparr>q_gc_at := ?g\<rparr>)"
    by simp
  moreover have "q_fetch ((settle t r e)\<lparr>q_gc_at := ?g\<rparr>) = Idle"
    by (cases r) simp_all
  ultimately show ?thesis
    by (intro conjI exI [of _ "(settle t r e)\<lparr>q_gc_at := ?g\<rparr>"]) simp_all
qed

text \<open>C2: in every reachable state, an answer to any request of a fetching key other than the latest one is older and is discarded without touching the cache (no late overwrite).\<close>

theorem coord_only_latest_accepted:
  assumes "coord_reach s" and "map_of (queries (cs_client s)) k = Some e" and "q_fetch e = Fetching"
    and "(k, n) \<in> set (cs_net s)" and "n \<noteq> q_seq e"
  shows "n < q_seq e \<and> on_response t (k, n) r (cs_client s) = cs_client s"
proof -
  have "entry_ok (next_seq (cs_client s)) (cs_net s) k e"
    using assms(1,2) by (rule reach_entry_ok)
  then have "\<forall>m. (k, m) \<in> set (cs_net s) \<longrightarrow> m \<le> q_seq e"
    using assms(3) by (simp add: entry_ok_def)
  then have "n \<le> q_seq e" using assms(4) by blast
  with assms(5) have "n < q_seq e" by simp
  moreover have "on_response t (k, n) r (cs_client s) = cs_client s"
    using assms(2) assms(5) [symmetric] by (rule superseded_response_ignored)
  ultimately show ?thesis by (rule conjI)
qed

section \<open>Witnesses on the example run\<close>

lemma sports_app: "useSportsNews 4 \<in> app_queries" by (simp add: app_queries_def)
lemma reach_run_mounted: "coord_reach run_mounted"
  unfolding run_mounted_def
  by (rule coord_reach.step [OF coord_reach.init coord_step.mount [OF sports_app]]) simp
lemma reach_run_settled: "coord_reach run_settled"
  unfolding run_settled_def
proof (rule coord_reach.step [OF reach_run_mounted coord_step.respond])
  show "(queryKey (useSportsNews 4), 1) \<in> set (cs_net run_mounted)"
    by (simp add: run_mounted_def use_query_def subscribe_def ensure_fresh_def entry_of_def empty_client_def
         fetch_query_def is_stale_def new_entry_def coord_init_def useSportsNews_def put_def)
  show "retryer 0 [Ok (NewsList [])] = Some (Ok (NewsList []), [])" by simp
qed
lemma reach_run_refetched: "coord_reach run_refetched"
  unfolding run_refetched_def
  by (rule coord_reach.step [OF reach_run_settled coord_step.refetch [OF sports_app]]) simp
lemma reach_run_refetched_twice: "coord_reach run_refetched_twice"
  unfolding run_refetched_twice_def
  by (rule coord_reach.step [OF reach_run_refetched coord_step.refetch [OF sports_app]]) simp
lemmas run_defs = run_refetched_twice_def run_refetched_def run_settled_def run_mounted_def refetch_def
  use_query_def subscribe_def ensure_fresh_def entry_of_def empty_client_def fetch_query_def is_stale_def
  new_entry_def coord_init_def useSportsNews_def put_def on_response_def

lemma run_entry:
  "map_of (queries (cs_client run_refetched_twice)) [KStr ''news'', KStr ''sports'', KNum 4] =
     Some (the (map_of (queries (cs_client run_refetched_twice)) [KStr ''news'', KStr ''sports'', KNum 4]))"
  by (simp add: run_defs)

lemma run_entry_fetching:
  "q_fetch (the (map_of (queries (cs_client run_refetched_twice)) [KStr ''news'', KStr ''sports'', KNum 4])) = Fetching \<and>
   q_seq (the (map_of (queries (cs_client run_refetched_twice)) [KStr ''news'', KStr ''sports'', KNum 4])) = 3"
  by (simp add: run_defs)

lemma run_net:
  "cs_net run_refetched_twice =
     [([KStr ''news'', KStr ''sports'', KNum 4], 2), ([KStr ''news'', KStr ''sports'', KNum 4], 3)]"
  by (simp add: run_defs)

theorem coord_reach_ok_witness:
  "coord_reach run_refetched_twice \<and> client_ok (cs_client run_refetched_twice) (cs_net run_refetched_twice)"
  using reach_run_refetched_twice coord_reach_ok [OF reach_run_refetched_twice] by simp

theorem coord_fetch_completes_witness:
  "coord_reach run_refetched_twice \<and>
   ([KStr ''news'', KStr ''sports'', KNum 4], 3) \<in> set (cs_net run_refetched_twice) \<and>
   (\<exists>e'. map_of (queries (on_response 0 ([KStr ''news'', KStr ''sports'', KNum 4], 3) (Ok (NewsList []))
            (cs_client run_refetched_twice))) [KStr ''news'', KStr ''sports'', KNum 4] = Some e' \<and> q_fetch e' = Idle)"
  using reach_run_refetched_twice run_entry_fetching
    coord_fetch_completes [OF reach_run_refetched_twice run_entry, of 0 "Ok (NewsList [])"]
  by simp

theorem coord_only_latest_accepted_witness:
  "coord_reach run_refetched_twice \<and> (2::nat) < 3 \<and>
   on_response 0 ([KStr ''news'', KStr ''sports'', KNum 4], 2) (Ok (NewsList []))
     (cs_client run_refetched_twice) = cs_client run_refetched_twice"
proof -
  have "([KStr ''news'', KStr ''sports'', KNum 4], 2) \<in> set (cs_net run_refetched_twice)"
    by (simp add: run_net)
  moreover have "(2::nat) \<noteq> q_seq (the (map_of (queries (cs_client run_refetched_twice)) [KStr ''news'', KStr ''sports'', KNum 4]))"
    using run_entry_fetching by simp
  ultimately show ?thesis
    using reach_run_refetched_twice run_entry_fetching
      coord_only_latest_accepted [OF reach_run_refetched_twice run_entry, of 2 0 "Ok (NewsList [])"]
    by simp
qed

end
