(* ===== verification/Video_Player.thy ===== *)
theory Video_Player
  imports News_Prelude
begin

text \<open>
  The playback component \<open>src/src/components/common/VideoPlayer.tsx\<close>.  Its state is
  the two \<open>useState\<close> cells \<open>error\<close> and \<open>isPlaying\<close> and the \<open>expo-video\<close> player
  it creates with \<open>useVideoPlayer\<close>.  The player (a library) is modelled from its
  documented behaviour: \<open>play()\<close>, \<open>pause()\<close> and \<open>replay()\<close> change its playing flag
  and emit \<open>playingChange\<close>; a change of its status (\<open>loading\<close>, \<open>readyToPlay\<close>,
  \<open>error\<close> when the source fails to load) emits \<open>statusChange\<close>.  The player has
  no event named \<open>error\<close>.  Emitted events wait in a queue until the listeners of the
  component's effect run, so the component sees them in order and possibly late; an
  event reaches the listeners subscribed under its name.  The user acts on what is
  rendered: the play/pause button in the player view, \<open>Retry\<close> in the error view.
  The \<open>videoUri\<close> prop is fixed for the life of the component (a new URI makes
  \<open>useVideoPlayer\<close> build a new player, i.e. a new mount).
\<close>

section \<open>The player (expo-video)\<close>

text \<open>\<open>videoUri.startsWith('assets/videos/') ? require(sample.mp4) : {uri: videoUri}\<close>\<close>

datatype video_source = BundledSample | RemoteUri string

definition videoSource :: "string \<Rightarrow> video_source" where
  "videoSource uri = (if starts_with ''assets/videos/'' uri then BundledSample else RemoteUri uri)"

datatype player_status = Loading | ReadyToPlay | Failed

record player =
  pl_source :: video_source
  pl_loop :: bool
  pl_playing :: bool
  pl_status :: player_status

text \<open>The events of the player, and the name a listener subscribes under.\<close>

datatype player_event = PlayingChange bool | StatusChange player_status

definition event_name :: "player_event \<Rightarrow> string" where
  "event_name ev = (case ev of PlayingChange b \<Rightarrow> ''playingChange'' | StatusChange st \<Rightarrow> ''statusChange'')"

text \<open>Setting the playing flag emits \<open>playingChange\<close> only when it changes; likewise the
  status and \<open>statusChange\<close>.\<close>

definition set_playing :: "bool \<Rightarrow> player \<Rightarrow> player \<times> player_event list" where
  "set_playing b p = (if pl_playing p = b then (p, []) else (p\<lparr>pl_playing := b\<rparr>, [PlayingChange b]))"

definition set_status :: "player_status \<Rightarrow> player \<Rightarrow> player \<times> player_event list" where
  "set_status st p = (if pl_status p = st then (p, []) else (p\<lparr>pl_status := st\<rparr>, [StatusChange st]))"

definition player_play :: "player \<Rightarrow> player \<times> player_event list" where
  "player_play p = set_playing True p"

definition player_pause :: "player \<Rightarrow> player \<times> player_event list" where
  "player_pause p = set_playing False p"

text \<open>\<open>replay()\<close>: back to the start and play; a failed source is loaded again.\<close>

definition player_replay :: "player \<Rightarrow> player \<times> player_event list" where
  "player_replay p =
     (let (p1, e1) = set_playing True p;
          (p2, e2) = (if pl_status p = Failed then set_status Loading p1 else (p1, []))
      in (p2, e1 @ e2))"

text \<open>A source that fails to load: the player stops and its status becomes \<open>error\<close>.\<close>

definition player_source_fails :: "player \<Rightarrow> player \<times> player_event list" where
  "player_source_fails p =
     (let (p1, e1) = set_playing False p; (p2, e2) = set_status Failed p1 in (p2, e1 @ e2))"

definition player_source_loads :: "player \<Rightarrow> player \<times> player_event list" where
  "player_source_loads p = set_status ReadyToPlay p"

section \<open>The component\<close>

record vp_state =
  vp_error :: "string option"
  vp_isPlaying :: bool
  vp_player :: player
  vp_pending :: "player_event list"

definition vp_error_message :: string where
  "vp_error_message = ''Failed to load video. Using fallback video.''"

text \<open>\<open>getFallbackVideoUri\<close>: declared by the component and called nowhere.\<close>

definition getFallbackVideoUri :: string where
  "getFallbackVideoUri = ''https://www.w3schools.com/html/mov_bbb.mp4''"

text \<open>
  Mounting: \<open>useState(null)\<close>, \<open>useState(shouldAutoPlay)\<close>, and the setup callback of
  \<open>useVideoPlayer\<close> (\<open>loop = true\<close>, \<open>play()\<close> when auto-playing), which runs before
  the listeners are attached, so its event is not queued.
\<close>

definition vp_mount :: "string \<Rightarrow> bool \<Rightarrow> vp_state" where
  "vp_mount uri auto =
     \<lparr>vp_error = None, vp_isPlaying = auto,
      vp_player = \<lparr>pl_source = videoSource uri, pl_loop = True, pl_playing = auto, pl_status = Loading\<rparr>,
      vp_pending = []\<rparr>"

text \<open>The two subscriptions of the effect, in order: \<open>'playingChange'\<close> copies the
  payload into \<open>isPlaying\<close>, \<open>'error'\<close> sets the error message.  A queued event runs
  every listener subscribed under its name.\<close>

definition vp_listeners :: "(string \<times> (player_event \<Rightarrow> vp_state \<Rightarrow> vp_state)) list" where
  "vp_listeners =
     [(''playingChange'', \<lambda>ev s. (case ev of PlayingChange b \<Rightarrow> s\<lparr>vp_isPlaying := b\<rparr> | StatusChange st \<Rightarrow> s)),
      (''error'', \<lambda>ev s. s\<lparr>vp_error := Some vp_error_message\<rparr>)]"

definition vp_listen :: "player_event \<Rightarrow> vp_state \<Rightarrow> vp_state" where
  "vp_listen ev s = foldl (\<lambda>s (n, h). if n = event_name ev then h ev s else s) s vp_listeners"

definition vp_deliver :: "vp_state \<Rightarrow> vp_state" where
  "vp_deliver s = (case vp_pending s of [] \<Rightarrow> s | ev # evs \<Rightarrow> vp_listen ev (s\<lparr>vp_pending := evs\<rparr>))"

definition vp_with_player :: "(player \<Rightarrow> player \<times> player_event list) \<Rightarrow> vp_state \<Rightarrow> vp_state" where
  "vp_with_player f s = (let (p', evs) = f (vp_player s) in s\<lparr>vp_player := p', vp_pending := vp_pending s @ evs\<rparr>)"

text \<open>\<open>handlePlayPause\<close> reads the component's \<open>isPlaying\<close>, not the player's flag.\<close>

definition handlePlayPause :: "vp_state \<Rightarrow> vp_state" where
  "handlePlayPause s = (if vp_isPlaying s then vp_with_player player_pause s else vp_with_player player_play s)"

text \<open>The \<open>Retry\<close> button: \<open>setError(null); player.replay();\<close>\<close>

definition vp_retry :: "vp_state \<Rightarrow> vp_state" where
  "vp_retry s = vp_with_player player_replay (s\<lparr>vp_error := None\<rparr>)"

text \<open>What is rendered: \<open>if (error)\<close> the error view, else the player with its label.\<close>

datatype vp_view = VpErrorView string | VpPlayerView bool string

definition vp_view :: "vp_state \<Rightarrow> vp_view" where
  "vp_view s =
     (case vp_error s of
        Some m \<Rightarrow> (if m \<noteq> [] then VpErrorView m
                  else VpPlayerView (vp_isPlaying s) (if vp_isPlaying s then ''Playing...'' else ''Paused''))
      | None \<Rightarrow> VpPlayerView (vp_isPlaying s) (if vp_isPlaying s then ''Playing...'' else ''Paused''))"

text \<open>The runs of one mounted player: user actions on the rendered view, the source
  loading or failing, and listeners running on queued events.\<close>

inductive vp_step :: "vp_state \<Rightarrow> vp_state \<Rightarrow> bool" where
  press_play_pause: "vp_view s = VpPlayerView b l \<Longrightarrow> vp_step s (handlePlayPause s)"
| press_retry: "vp_view s = VpErrorView m \<Longrightarrow> vp_step s (vp_retry s)"
| source_fails: "pl_status (vp_player s) \<noteq> Failed \<Longrightarrow> vp_step s (vp_with_player player_source_fails s)"
| source_loads: "pl_status (vp_player s) = Loading \<Longrightarrow> vp_step s (vp_with_player player_source_loads s)"
| deliver: "vp_pending s \<noteq> [] \<Longrightarrow> vp_step s (vp_deliver s)"

inductive vp_reach :: "string \<Rightarrow> bool \<Rightarrow> vp_state \<Rightarrow> bool" where
  mount: "vp_reach uri auto (vp_mount uri auto)"
| step: "vp_reach uri auto s \<Longrightarrow> vp_step s t \<Longrightarrow> vp_reach uri auto t"

text \<open>Running every queued listener.\<close>

fun vp_listen_all :: "player_event list \<Rightarrow> vp_state \<Rightarrow> vp_state" where
  "vp_listen_all [] s = s"
| "vp_listen_all (ev # evs) s = vp_listen_all evs (vp_listen ev s)"

definition vp_flush :: "vp_state \<Rightarrow> vp_state" where
  "vp_flush s = vp_listen_all (vp_pending s) (s\<lparr>vp_pending := []\<rparr>)"

text \<open>The playing flag the component will hold once the queued events are delivered.\<close>

fun pending_playing :: "player_event list \<Rightarrow> bool \<Rightarrow> bool" where
  "pending_playing [] b = b"
| "pending_playing (PlayingChange b' # evs) b = pending_playing evs b'"
| "pending_playing (StatusChange st # evs) b = pending_playing evs b"

definition vp_inv :: "string \<Rightarrow> vp_state \<Rightarrow> bool" where
  "vp_inv uri s \<longleftrightarrow>
     pl_source (vp_player s) = videoSource uri \<and> pl_loop (vp_player s) \<and>
     pending_playing (vp_pending s) (vp_isPlaying s) = pl_playing (vp_player s) \<and>
     vp_error s = None"

section \<open>Lemmas\<close>

named_theorems vp_simps "unfolding rules of the player model"

lemmas [vp_simps] = player_play_def player_pause_def player_replay_def player_source_fails_def
  player_source_loads_def set_playing_def set_status_def vp_with_player_def handlePlayPause_def vp_retry_def

lemma pending_playing_append [simp]:
  "pending_playing (xs @ ys) b = pending_playing ys (pending_playing xs b)"
  by (induction xs b rule: pending_playing.induct) simp_all

lemma set_playing_pending [simp]:
  "pending_playing (snd (set_playing b p)) c = (if pl_playing p = b then c else b)"
  by (simp add: set_playing_def)

lemma set_status_pending [simp]: "pending_playing (snd (set_status st p)) c = c"
  by (simp add: set_status_def)

lemma vp_listen_playing [simp]: "vp_listen (PlayingChange b) s = s\<lparr>vp_isPlaying := b\<rparr>"
  by (simp add: vp_listen_def vp_listeners_def event_name_def)

lemma vp_listen_status [simp]: "vp_listen (StatusChange st) s = s"
  by (simp add: vp_listen_def vp_listeners_def event_name_def)

lemma vp_listen_keeps [simp]:
  "vp_player (vp_listen ev s) = vp_player s" "vp_pending (vp_listen ev s) = vp_pending s"
  by (simp_all add: vp_listen_def vp_listeners_def split: player_event.splits)

lemma vp_listen_error [simp]: "vp_error (vp_listen ev s) = vp_error s"
  by (cases ev) simp_all

lemma vp_listen_all_keeps [simp]:
  "vp_player (vp_listen_all evs s) = vp_player s" "vp_pending (vp_listen_all evs s) = vp_pending s"
  by (induction evs arbitrary: s) simp_all

lemma vp_listen_all_error [simp]: "vp_error (vp_listen_all evs s) = vp_error s"
  by (induction evs arbitrary: s) simp_all

lemma vp_listen_pending [simp]:
  "vp_listen ev (s\<lparr>vp_pending := evs\<rparr>) = (vp_listen ev s)\<lparr>vp_pending := evs\<rparr>"
  by (simp add: vp_listen_def vp_listeners_def split: player_event.splits)

lemma vp_deliver_flush: "vp_pending s \<noteq> [] \<Longrightarrow> vp_flush (vp_deliver s) = vp_flush s"
  by (cases "vp_pending s") (simp_all add: vp_flush_def vp_deliver_def)

lemma vp_inv_mount: "vp_inv uri (vp_mount uri auto)"
  by (simp add: vp_inv_def vp_mount_def)

lemma vp_inv_play_pause: "vp_inv uri s \<Longrightarrow> vp_inv uri (handlePlayPause s)"
  by (auto simp: vp_inv_def vp_simps)

lemma vp_inv_fails:
  "vp_inv uri s \<Longrightarrow> vp_inv uri (vp_with_player player_source_fails s)"
  by (auto simp: vp_inv_def vp_simps)

lemma vp_inv_loads:
  "vp_inv uri s \<Longrightarrow> vp_inv uri (vp_with_player player_source_loads s)"
  by (auto simp: vp_inv_def vp_simps)

lemma vp_inv_deliver: "vp_inv uri s \<Longrightarrow> vp_inv uri (vp_deliver s)"
  by (cases "vp_pending s" rule: list.exhaust; cases "hd (vp_pending s)")
     (auto simp: vp_inv_def vp_deliver_def)

lemma vp_view_error: "vp_view s = VpErrorView m \<Longrightarrow> vp_error s = Some m \<and> m \<noteq> []"
  by (simp add: vp_view_def split: option.splits if_splits)

lemma vp_step_inv: "vp_step s t \<Longrightarrow> vp_inv uri s \<Longrightarrow> vp_inv uri t"
proof (induction rule: vp_step.induct)
  case (press_retry s m)
  then show ?case using vp_view_error [OF press_retry.hyps] by (simp add: vp_inv_def)
qed (simp_all add: vp_inv_play_pause vp_inv_fails vp_inv_loads vp_inv_deliver)

lemma vp_reach_inv: "vp_reach uri auto s \<Longrightarrow> vp_inv uri s"
  by (induction rule: vp_reach.induct) (simp_all add: vp_inv_mount vp_step_inv)

lemma vp_reach_flush: "vp_reach uri auto s \<Longrightarrow> vp_reach uri auto (vp_flush s)"
proof (induction "vp_pending s" arbitrary: s)
  case Nil
  then have e: "s\<lparr>vp_pending := []\<rparr> = s" by (cases s) simp
  have "vp_flush s = s" unfolding vp_flush_def using e by (simp add: Nil.hyps [symmetric])
  with Nil.prems show ?case by simp
next
  case (Cons ev evs)
  then have "vp_reach uri auto (vp_deliver s)" by (metis list.discI vp_reach.step vp_step.deliver)
  moreover have "evs = vp_pending (vp_deliver s)" using Cons.hyps(2) [symmetric] by (simp add: vp_deliver_def)
  ultimately have "vp_reach uri auto (vp_flush (vp_deliver s))" using Cons.hyps(1) by blast
  then show ?case using Cons.hyps(2) [symmetric] by (simp add: vp_deliver_flush)
qed

lemma vp_label_synced_aux:
  "vp_reach uri auto s \<Longrightarrow> vp_pending s = [] \<Longrightarrow> vp_isPlaying s = pl_playing (vp_player s)"
  by (drule vp_reach_inv) (simp add: vp_inv_def)

lemma vp_flush_keeps [simp]:
  "vp_pending (vp_flush s) = []" "vp_player (vp_flush s) = vp_player s"
  by (simp_all add: vp_flush_def)

lemma vp_flush_error [simp]: "vp_error (vp_flush s) = vp_error s"
  by (simp add: vp_flush_def)

text \<open>C15: a mounted player never switches to another source: in every reachable state
  it plays the source of the \<open>videoUri\<close> it was mounted with (the fallback is never used).\<close>

theorem vp_source_fixed:
  "vp_reach uri auto s \<Longrightarrow> pl_source (vp_player s) = videoSource uri"
  using vp_reach_inv by (simp add: vp_inv_def)

text \<open>C16: in every reachable state, once the queued listeners have run, the play/pause
  label agrees with the player: the component never shows \<open>Paused\<close> for a playing
  video or \<open>Playing...\<close> for a stopped one.\<close>

theorem vp_label_synced:
  "vp_reach uri auto s \<Longrightarrow> vp_isPlaying (vp_flush s) = pl_playing (vp_player (vp_flush s))"
  by (rule vp_label_synced_aux [OF vp_reach_flush]) simp_all

text \<open>C14: a load failure is silent: the component's \<open>'error'\<close> listener is subscribed
  under a name the player never emits (failures come as \<open>statusChange\<close>), so in every
  reachable state, failed source included, the error state stays \<open>null\<close> and the error
  view with its message and \<open>Retry\<close> button is never rendered.\<close>

theorem vp_failure_silent:
  "vp_reach uri auto s \<Longrightarrow> vp_error s = None \<and> (\<forall>m. vp_view s \<noteq> VpErrorView m)"
  using vp_reach_inv [of uri auto s] vp_view_error [of s] by (auto simp: vp_inv_def)

section \<open>Witnesses\<close>

definition example_video :: string where
  "example_video = ''https://example.com/v.mp4''"

lemma vp_reach_failed_example:
  "vp_reach example_video True (vp_flush (vp_with_player player_source_fails (vp_mount example_video True)))"
proof -
  have "vp_reach example_video True (vp_with_player player_source_fails (vp_mount example_video True))"
    by (rule vp_reach.step [OF vp_reach.mount vp_step.source_fails]) (simp add: vp_mount_def)
  then show ?thesis by (rule vp_reach_flush)
qed

theorem vp_source_fixed_witness:
  "vp_reach example_video True (vp_flush (vp_with_player player_source_fails (vp_mount example_video True))) \<and>
   pl_source (vp_player (vp_flush (vp_with_player player_source_fails (vp_mount example_video True)))) =
     RemoteUri example_video"
  using vp_reach_failed_example vp_source_fixed [OF vp_reach_failed_example]
  by (simp add: videoSource_def example_video_def)

theorem vp_label_synced_witness:
  "vp_reach example_video True (vp_mount example_video True) \<and>
   vp_isPlaying (vp_flush (vp_mount example_video True)) = True"
  using vp_reach.mount [of example_video True] vp_label_synced [OF vp_reach.mount [of example_video True]]
  by (simp add: vp_mount_def)

theorem vp_failure_silent_witness:
  "vp_reach example_video True (vp_flush (vp_with_player player_source_fails (vp_mount example_video True))) \<and>
   pl_status (vp_player (vp_flush (vp_with_player player_source_fails (vp_mount example_video True)))) = Failed \<and>
   vp_error (vp_flush (vp_with_player player_source_fails (vp_mount example_video True))) = None \<and>
   (\<forall>m. vp_view (vp_flush (vp_with_player player_source_fails (vp_mount example_video True))) \<noteq> VpErrorView m)"
  using vp_reach_failed_example vp_failure_silent [OF vp_reach_failed_example]
  by (simp add: vp_simps vp_mount_def split_def)

end
