(* ===== verification/App_Store.thy ===== *)
theory App_Store
  imports News_Model
begin

text \<open>
  The Redux store of \<open>src/src/redux/store/store.ts\<close> with its three slices: the
  admin session (\<open>adminSlice.ts\<close>), the user settings (\<open>settingsSlice.ts\<close>) and the
  category slice of \<open>News_Model\<close>.  Every action creator of the slices is a
  constructor of \<open>action\<close>; \<open>store_dispatch\<close> is the combined reducer, which hands
  each action to the slice that declares it.  The settings screen
  (\<open>SettingsScreen.tsx\<close>) dispatches \<open>updateSettings\<close> from its two switches.
\<close>

section \<open>The admin slice\<close>

record admin_state =
  isAuthenticated :: bool
  isAdmin :: bool
  loginError :: "string option"

definition admin_initial :: admin_state where
  "admin_initial = \<lparr>isAuthenticated = False, isAdmin = False, loginError = None\<rparr>"

definition loginRequest :: "admin_state \<Rightarrow> admin_state" where
  "loginRequest s = s\<lparr>loginError := None\<rparr>"

definition loginSuccess :: "admin_state \<Rightarrow> admin_state" where
  "loginSuccess s = s\<lparr>isAuthenticated := True, isAdmin := True, loginError := None\<rparr>"

definition loginFailure :: "string \<Rightarrow> admin_state \<Rightarrow> admin_state" where
  "loginFailure msg s = s\<lparr>isAuthenticated := False, isAdmin := False, loginError := Some msg\<rparr>"

definition logout :: "admin_state \<Rightarrow> admin_state" where
  "logout s = s\<lparr>isAuthenticated := False, isAdmin := False, loginError := None\<rparr>"

definition clearError :: "admin_state \<Rightarrow> admin_state" where
  "clearError s = s\<lparr>loginError := None\<rparr>"

section \<open>The settings slice\<close>

record settings_state =
  notifications :: bool
  autoPlay :: bool

definition settings_initial :: settings_state where
  "settings_initial = \<lparr>notifications = True, autoPlay = True\<rparr>"

text \<open>\<open>Partial<SettingsState>\<close>: a key is present or absent.\<close>

record settings_patch =
  sp_notifications :: "bool option"
  sp_autoPlay :: "bool option"

text \<open>\<open>updateSettings\<close>: \<open>return { ...state, ...action.payload }\<close>.\<close>

definition updateSettings :: "settings_patch \<Rightarrow> settings_state \<Rightarrow> settings_state" where
  "updateSettings p s =
     \<lparr>notifications = case_option (notifications s) id (sp_notifications p),
      autoPlay = case_option (autoPlay s) id (sp_autoPlay p)\<rparr>"

section \<open>The store\<close>

record root_state =
  rs_settings :: settings_state
  rs_category :: category_state
  rs_admin :: admin_state

definition store_initial :: root_state where
  "store_initial = \<lparr>rs_settings = settings_initial, rs_category = category_initial, rs_admin = admin_initial\<rparr>"

datatype action =
    SetSelectedCategory category
  | UpdateSettings settings_patch
  | LoginRequest
  | LoginSuccess
  | LoginFailure string
  | Logout
  | ClearError

text \<open>\<open>configureStore({reducer: {settings, category, admin}})\<close>: the combined reducer.\<close>

definition store_dispatch :: "action \<Rightarrow> root_state \<Rightarrow> root_state" where
  "store_dispatch a s =
     (case a of
        SetSelectedCategory c \<Rightarrow> s\<lparr>rs_category := setSelectedCategory c (rs_category s)\<rparr>
      | UpdateSettings p \<Rightarrow> s\<lparr>rs_settings := updateSettings p (rs_settings s)\<rparr>
      | LoginRequest \<Rightarrow> s\<lparr>rs_admin := loginRequest (rs_admin s)\<rparr>
      | LoginSuccess \<Rightarrow> s\<lparr>rs_admin := loginSuccess (rs_admin s)\<rparr>
      | LoginFailure m \<Rightarrow> s\<lparr>rs_admin := loginFailure m (rs_admin s)\<rparr>
      | Logout \<Rightarrow> s\<lparr>rs_admin := logout (rs_admin s)\<rparr>
      | ClearError \<Rightarrow> s\<lparr>rs_admin := clearError (rs_admin s)\<rparr>)"

text \<open>The slice an action belongs to (the prefix of its Redux type string).\<close>

datatype slice = SettingsSlice | CategorySlice | AdminSlice

fun action_slice :: "action \<Rightarrow> slice" where
  "action_slice (SetSelectedCategory c) = CategorySlice"
| "action_slice (UpdateSettings p) = SettingsSlice"
| "action_slice _ = AdminSlice"

section \<open>The settings screen\<close>

definition handleNotificationToggle :: "bool \<Rightarrow> action" where
  "handleNotificationToggle v = UpdateSettings \<lparr>sp_notifications = Some v, sp_autoPlay = None\<rparr>"

definition handleAutoPlayToggle :: "bool \<Rightarrow> action" where
  "handleAutoPlayToggle v = UpdateSettings \<lparr>sp_notifications = None, sp_autoPlay = Some v\<rparr>"

text \<open>The items of \<open>settingsSections\<close>: a switch item carries its value and its
  \<open>onToggle\<close> handler, an info item neither.\<close>

record setting_item =
  si_id :: string
  si_title :: string
  si_subtitle :: string
  si_switch :: "(bool \<times> (bool \<Rightarrow> action)) option"
  si_icon :: string

definition settingsSections :: "settings_state \<Rightarrow> (string \<times> setting_item list) list" where
  "settingsSections st =
     [(''Options'',
       [\<lparr>si_id = ''notifications'', si_title = ''Push Notifications'',
         si_subtitle = ''Receive notifications for breaking news'',
         si_switch = Some (notifications st, handleNotificationToggle), si_icon = ''notifications-outline''\<rparr>,
        \<lparr>si_id = ''autoplay'', si_title = ''Auto-play Videos'', si_subtitle = ''Automatically play videos in news'',
         si_switch = Some (autoPlay st, handleAutoPlayToggle), si_icon = ''play-circle-outline''\<rparr>]),
      (''About'',
       [\<lparr>si_id = ''version'', si_title = ''Version'', si_subtitle = ''1.0.0'', si_switch = None,
         si_icon = ''information-circle-outline''\<rparr>,
        \<lparr>si_id = ''developer'', si_title = ''Developer'', si_subtitle = ''NinjaTech AI'', si_switch = None,
         si_icon = ''code-outline''\<rparr>])]"

text \<open>\<open>renderSettingItem\<close>: icon, title, subtitle and, for a switch, its value and
  thumb colour; \<open>renderSection\<close>: the section title and its items, each but the last
  followed by a divider.\<close>

record item_view =
  iv_icon :: string
  iv_title :: string
  iv_subtitle :: string
  iv_switch :: "(bool \<times> string) option"

definition renderSettingItem :: "setting_item \<Rightarrow> item_view" where
  "renderSettingItem item =
     \<lparr>iv_icon = si_icon item, iv_title = si_title item, iv_subtitle = si_subtitle item,
      iv_switch = map_option (\<lambda>(v, _). (v, if v then ''#fff'' else ''#f4f3f4'')) (si_switch item)\<rparr>"

definition renderSection :: "string \<times> setting_item list \<Rightarrow> string \<times> (item_view \<times> bool) list" where
  "renderSection sec =
     (fst sec, map (\<lambda>(k, item). (renderSettingItem item, k < length (snd sec) - 1)) (enumerate 0 (snd sec)))"

definition settings_screen :: "settings_state \<Rightarrow> (string \<times> (item_view \<times> bool) list) list" where
  "settings_screen st = map renderSection (settingsSections st)"

text \<open>Flipping the switch of an item: its \<open>onValueChange\<close> with the new value.\<close>

definition toggle_item :: "string \<Rightarrow> root_state \<Rightarrow> root_state" where
  "toggle_item i s =
     (case [x. x \<leftarrow> concat (map snd (settingsSections (rs_settings s))), si_id x = i] of
        x # _ \<Rightarrow> (case si_switch x of Some (v, onToggle) \<Rightarrow> store_dispatch (onToggle (\<not> v)) s | None \<Rightarrow> s)
      | [] \<Rightarrow> s)"

text \<open>The well-formedness of the admin slice: the two flags agree, and an
  authenticated session carries no login error.\<close>

definition admin_ok :: "admin_state \<Rightarrow> bool" where
  "admin_ok a \<longleftrightarrow> isAdmin a = isAuthenticated a \<and> (isAuthenticated a \<longrightarrow> loginError a = None)"

inductive store_reach :: "root_state \<Rightarrow> bool" where
  init: "store_reach store_initial"
| dispatch: "store_reach s \<Longrightarrow> store_reach (store_dispatch a s)"

section \<open>Lemmas\<close>

lemmas admin_reducers = loginRequest_def loginSuccess_def loginFailure_def logout_def clearError_def

lemma store_dispatch_slices [simp]:
  "action_slice a \<noteq> SettingsSlice \<Longrightarrow> rs_settings (store_dispatch a s) = rs_settings s"
  "action_slice a \<noteq> CategorySlice \<Longrightarrow> rs_category (store_dispatch a s) = rs_category s"
  "action_slice a \<noteq> AdminSlice \<Longrightarrow> rs_admin (store_dispatch a s) = rs_admin s"
  by (cases a; simp add: store_dispatch_def)+

lemma admin_ok_dispatch: "admin_ok (rs_admin s) \<Longrightarrow> admin_ok (rs_admin (store_dispatch a s))"
  by (cases a) (simp_all add: store_dispatch_def admin_ok_def admin_reducers)

lemma updateSettings_get [simp]:
  "notifications (updateSettings p s) = case_option (notifications s) id (sp_notifications p)"
  "autoPlay (updateSettings p s) = case_option (autoPlay s) id (sp_autoPlay p)"
  by (simp_all add: updateSettings_def)

text \<open>C27: every state the store reaches, by any sequence of dispatched actions, has a
  consistent admin slice: \<open>isAdmin\<close> equals \<open>isAuthenticated\<close>, and an authenticated
  session has no login error.\<close>

theorem store_admin_ok: "store_reach s \<Longrightarrow> admin_ok (rs_admin s)"
proof (induction rule: store_reach.induct)
  case init
  show ?case by (simp add: store_initial_def admin_initial_def admin_ok_def)
next
  case (dispatch s a)
  show ?case by (rule admin_ok_dispatch [OF dispatch.IH])
qed

text \<open>The combined reducer hands every action to its own slice: dispatching an
  action changes the slice it belongs to and leaves the two others as they were.\<close>

theorem store_dispatch_isolated:
  "store_dispatch a s =
     (case action_slice a of
        SettingsSlice \<Rightarrow> s\<lparr>rs_settings := rs_settings (store_dispatch a s)\<rparr>
      | CategorySlice \<Rightarrow> s\<lparr>rs_category := rs_category (store_dispatch a s)\<rparr>
      | AdminSlice \<Rightarrow> s\<lparr>rs_admin := rs_admin (store_dispatch a s)\<rparr>)"
  by (cases a) (simp_all add: store_dispatch_def)

text \<open>The settings screen shows what its switches set: flipping a switch flips the
  value its row shows and leaves the other switch as it was.\<close>

theorem settings_toggles_shown:
  "settings_screen (rs_settings (toggle_item ''notifications'' s)) =
     settings_screen (rs_settings s\<lparr>notifications := \<not> notifications (rs_settings s)\<rparr>) \<and>
   settings_screen (rs_settings (toggle_item ''autoplay'' s)) =
     settings_screen (rs_settings s\<lparr>autoPlay := \<not> autoPlay (rs_settings s)\<rparr>)"
  by (cases "rs_settings s")
     (simp add: toggle_item_def settingsSections_def store_dispatch_def handleAutoPlayToggle_def
      handleNotificationToggle_def updateSettings_def)

section \<open>Witnesses\<close>

theorem store_admin_ok_witness:
  "store_reach (store_dispatch LoginSuccess store_initial) \<and>
   isAuthenticated (rs_admin (store_dispatch LoginSuccess store_initial)) \<and>
   admin_ok (rs_admin (store_dispatch LoginSuccess store_initial))"
proof -
  have r: "store_reach (store_dispatch LoginSuccess store_initial)"
    by (rule store_reach.dispatch [OF store_reach.init])
  show ?thesis using r store_admin_ok [OF r] by (simp add: store_dispatch_def loginSuccess_def)
qed

end
