(* ===== verification/Admin_Session.thy ===== *)
theory Admin_Session
  imports App_Store
begin

text \<open>
  The admin flow: \<open>AdminLoginScreen.tsx\<close> (\<open>handleLogin\<close>, \<open>handleBack\<close>), the
  logout and navigation handlers of \<open>AdminDashboardScreen.tsx\<close>, and the admin stack
  of \<open>AppNavigator.tsx\<close> whose first screen is \<open>AdminLogin\<close>.  \<open>handleLogin\<close> checks
  the password in a \<open>setTimeout\<close> of 500 ms; the callback sees the password typed
  when it was scheduled.  A scheduled callback is kept in the session until it fires,
  so the model covers every interleaving of typing, submitting and timers.  The Login
  button is disabled while submitting, the keyboard's submit key
  (\<open>onSubmitEditing={handleLogin}\<close>) is not.  \<open>login_view\<close> is what the screen
  renders (masked field, eye icon, error line, button label and state).
\<close>

section \<open>Routes of the admin stack\<close>

datatype form_mode = AddMode | EditMode

datatype admin_route = AdminLogin | AdminDashboard | AddEditNews form_mode

text \<open>\<open>navigation.replace\<close> from a screen replaces that screen's route; if the screen
  is gone the action is not handled.\<close>

fun replace_route :: "admin_route \<Rightarrow> admin_route \<Rightarrow> admin_route list \<Rightarrow> admin_route list" where
  "replace_route r r' [] = []"
| "replace_route r r' (x # xs) = (if x = r then r' # xs else x # replace_route r r' xs)"

text \<open>\<open>goBack\<close> pops the stack; on its first screen the drawer handles it (left out).\<close>

definition go_back :: "admin_route list \<Rightarrow> admin_route list" where
  "go_back st = (if length st \<le> 1 then st else butlast st)"

section \<open>The login screen\<close>

record login_screen =
  password :: string
  showPassword :: bool
  isSubmitting :: bool

definition login_initial :: login_screen where
  "login_initial = \<lparr>password = [], showPassword = False, isSubmitting = False\<rparr>"

record session =
  ss_store :: root_state
  ss_login :: login_screen
  ss_stack :: "admin_route list"
  ss_timers :: "string list"

definition session_initial :: session where
  "session_initial =
     \<lparr>ss_store = store_initial, ss_login = login_initial, ss_stack = [AdminLogin], ss_timers = []\<rparr>"

definition dispatch :: "action \<Rightarrow> session \<Rightarrow> session" where
  "dispatch a s = s\<lparr>ss_store := store_dispatch a (ss_store s)\<rparr>"

text \<open>\<open>handleLogin\<close>: a blank password fails at once; otherwise it marks the screen
  submitting, dispatches \<open>loginRequest\<close> and schedules the check.\<close>

definition handleLogin :: "session \<Rightarrow> session" where
  "handleLogin s =
     (if js_trim (password (ss_login s)) = [] then dispatch (LoginFailure ''Please enter password'') s
      else (dispatch LoginRequest s)\<lparr>ss_login := (ss_login s)\<lparr>isSubmitting := True\<rparr>,
                                     ss_timers := ss_timers s @ [password (ss_login s)]\<rparr>)"

text \<open>The timer callback, with the password it captured.\<close>

definition login_timer :: "string \<Rightarrow> session \<Rightarrow> session" where
  "login_timer pw s =
     (let s' = (if pw = ''123''
                then (dispatch LoginSuccess s)\<lparr>ss_stack := replace_route AdminLogin AdminDashboard (ss_stack s)\<rparr>
                else dispatch (LoginFailure ''Invalid password'') s)
      in s'\<lparr>ss_login := (ss_login s')\<lparr>isSubmitting := False\<rparr>\<rparr>)"

definition handleBack :: "session \<Rightarrow> session" where
  "handleBack s = (dispatch ClearError s)\<lparr>ss_stack := go_back (ss_stack s)\<rparr>"

text \<open>The dashboard's \<open>handleLogout\<close>, \<open>handleAddNews\<close> and \<open>handleEditNews\<close>.\<close>

definition handleLogout :: "session \<Rightarrow> session" where
  "handleLogout s =
     (dispatch Logout s)\<lparr>ss_stack := replace_route AdminDashboard AdminLogin (ss_stack s),
                         ss_login := login_initial\<rparr>"

definition handleAddNews :: "session \<Rightarrow> session" where
  "handleAddNews s = s\<lparr>ss_stack := ss_stack s @ [AddEditNews AddMode]\<rparr>"

definition handleEditNews :: "session \<Rightarrow> session" where
  "handleEditNews s = s\<lparr>ss_stack := ss_stack s @ [AddEditNews EditMode]\<rparr>"

definition top_route :: "session \<Rightarrow> admin_route option" where
  "top_route s = (if ss_stack s = [] then None else Some (last (ss_stack s)))"

text \<open>\<open>onChangeText={setPassword}\<close>, and the oldest pending timer firing.\<close>

definition setPassword :: "string \<Rightarrow> session \<Rightarrow> session" where
  "setPassword pw s = s\<lparr>ss_login := (ss_login s)\<lparr>password := pw\<rparr>\<rparr>"

definition fire_timer :: "session \<Rightarrow> session" where
  "fire_timer s = (case ss_timers s of [] \<Rightarrow> s | pw # rest \<Rightarrow> login_timer pw (s\<lparr>ss_timers := rest\<rparr>))"

text \<open>The eye button: \<open>onPress={() => setShowPassword(!showPassword)}\<close>.\<close>

definition toggleShowPassword :: "session \<Rightarrow> session" where
  "toggleShowPassword s = s\<lparr>ss_login := (ss_login s)\<lparr>showPassword := \<not> showPassword (ss_login s)\<rparr>\<rparr>"

text \<open>What the login screen renders: the password field (masked unless shown), the
  eye icon, the error line (\<open>{loginError && ...}\<close>, an empty string being falsy), and
  the Login button's label and \<open>disabled\<close> flag.\<close>

record login_view =
  lv_password :: string
  lv_secure :: bool
  lv_eye_icon :: string
  lv_error :: "string option"
  lv_button_label :: string
  lv_button_disabled :: bool

definition login_view :: "session \<Rightarrow> login_view" where
  "login_view s =
     (let l = ss_login s
      in \<lparr>lv_password = password l, lv_secure = (\<not> showPassword l),
          lv_eye_icon = (if showPassword l then ''eye-off'' else ''eye''),
          lv_error = (case loginError (rs_admin (ss_store s)) of
                        None \<Rightarrow> None | Some e \<Rightarrow> (if e = [] then None else Some e)),
          lv_button_label = (if isSubmitting l then ''Logging in...'' else ''Login''),
          lv_button_disabled = isSubmitting l\<rparr>)"

text \<open>What the user can do on the screen on top, and timers firing in order.\<close>

inductive session_step :: "session \<Rightarrow> session \<Rightarrow> bool" where
  type_password: "top_route s = Some AdminLogin \<Longrightarrow> session_step s (setPassword pw s)"
| press_login: "top_route s = Some AdminLogin \<Longrightarrow> \<not> isSubmitting (ss_login s) \<Longrightarrow>
     session_step s (handleLogin s)"
| submit_editing: "top_route s = Some AdminLogin \<Longrightarrow> session_step s (handleLogin s)"
| timer: "ss_timers s \<noteq> [] \<Longrightarrow> session_step s (fire_timer s)"
| press_back: "top_route s = Some AdminLogin \<Longrightarrow> session_step s (handleBack s)"
| toggle_password: "top_route s = Some AdminLogin \<Longrightarrow> session_step s (toggleShowPassword s)"
| logout: "top_route s = Some AdminDashboard \<Longrightarrow> session_step s (handleLogout s)"
| add_news: "top_route s = Some AdminDashboard \<Longrightarrow> session_step s (handleAddNews s)"
| edit_news: "top_route s = Some AdminDashboard \<Longrightarrow> session_step s (handleEditNews s)"
| form_done: "top_route s = Some (AddEditNews m) \<Longrightarrow> session_step s (s\<lparr>ss_stack := go_back (ss_stack s)\<rparr>)"

inductive session_reach :: "session \<Rightarrow> bool" where
  init: "session_reach session_initial"
| step: "session_reach s \<Longrightarrow> session_step s t \<Longrightarrow> session_reach t"

text \<open>The shapes the admin stack can take.\<close>

definition stack_ok :: "admin_route list \<Rightarrow> bool" where
  "stack_ok st \<longleftrightarrow>
     st = [AdminLogin] \<or> st = [AdminDashboard] \<or>
     st = [AdminDashboard, AddEditNews AddMode] \<or> st = [AdminDashboard, AddEditNews EditMode]"

text \<open>A screen that is submitting has a check pending.\<close>

definition submit_pending :: "session \<Rightarrow> bool" where
  "submit_pending s \<longleftrightarrow> (isSubmitting (ss_login s) \<longrightarrow> ss_timers s \<noteq> [])"

text \<open>Log in with \<open>123\<close>, then, while the check is pending, type another password
  and press the keyboard's submit key.\<close>

definition race_run :: session where
  "race_run =
     fire_timer (fire_timer (handleLogin (setPassword ''x''
       (handleLogin (setPassword ''123'' session_initial)))))"

section \<open>Lemmas\<close>

lemma dispatch_store [simp]: "ss_store (dispatch a s) = store_dispatch a (ss_store s)"
  by (simp add: dispatch_def)

lemma dispatch_other [simp]:
  "ss_login (dispatch a s) = ss_login s" "ss_stack (dispatch a s) = ss_stack s" "ss_timers (dispatch a s) = ss_timers s"
  by (simp_all add: dispatch_def)

lemma admin_ok_session_dispatch [simp]:
  "admin_ok (rs_admin (ss_store s)) \<Longrightarrow> admin_ok (rs_admin (ss_store (dispatch a s)))"
  by (simp add: admin_ok_dispatch)

lemma session_step_admin_ok:
  "session_step s t \<Longrightarrow> admin_ok (rs_admin (ss_store s)) \<Longrightarrow> admin_ok (rs_admin (ss_store t))"
  by (induction rule: session_step.induct)
     (auto simp: handleLogin_def login_timer_def handleBack_def handleLogout_def handleAddNews_def
       handleEditNews_def Let_def admin_ok_dispatch setPassword_def fire_timer_def toggleShowPassword_def
       split: list.splits)

lemma session_reach_admin_ok: "session_reach s \<Longrightarrow> admin_ok (rs_admin (ss_store s))"
proof (induction rule: session_reach.induct)
  case init
  show ?case by (simp add: session_initial_def store_initial_def admin_initial_def admin_ok_def)
next
  case (step s t)
  show ?case by (rule session_step_admin_ok [OF step.hyps(2) step.IH])
qed

lemma replace_route_login: "replace_route AdminLogin r [AdminLogin] = [r]"
  by simp

lemma session_step_stack_ok:
  "session_step s t \<Longrightarrow> stack_ok (ss_stack s) \<Longrightarrow> stack_ok (ss_stack t)"
proof (induction rule: session_step.induct)
  case (timer s)
  then show ?case
    by (auto simp: fire_timer_def login_timer_def Let_def stack_ok_def split: list.splits)
next
  case (logout s)
  then show ?case by (auto simp: handleLogout_def stack_ok_def top_route_def)
next
  case (add_news s)
  then show ?case by (auto simp: handleAddNews_def stack_ok_def top_route_def)
next
  case (edit_news s)
  then show ?case by (auto simp: handleEditNews_def stack_ok_def top_route_def)
next
  case (form_done s m)
  then show ?case by (auto simp: go_back_def stack_ok_def top_route_def)
next
  case (press_back s)
  then show ?case by (auto simp: handleBack_def go_back_def stack_ok_def top_route_def)
qed (simp_all add: setPassword_def handleLogin_def toggleShowPassword_def)

lemma session_reach_stack_ok: "session_reach s \<Longrightarrow> stack_ok (ss_stack s)"
proof (induction rule: session_reach.induct)
  case init
  show ?case by (simp add: session_initial_def stack_ok_def)
next
  case (step s t)
  show ?case by (rule session_step_stack_ok [OF step.hyps(2) step.IH])
qed

lemma login_timer_idle [simp]: "\<not> isSubmitting (ss_login (login_timer pw s))"
  by (simp add: login_timer_def Let_def)

lemma session_step_submit_pending:
  "session_step s t \<Longrightarrow> submit_pending s \<Longrightarrow> submit_pending t"
  by (induction rule: session_step.induct)
     (auto simp: submit_pending_def setPassword_def handleLogin_def fire_timer_def handleBack_def
       handleLogout_def login_initial_def handleAddNews_def handleEditNews_def toggleShowPassword_def
       split: list.splits)

lemma session_reach_submit_pending: "session_reach s \<Longrightarrow> submit_pending s"
proof (induction rule: session_reach.induct)
  case init
  show ?case by (simp add: submit_pending_def session_initial_def login_initial_def)
next
  case (step s t)
  show ?case by (rule session_step_submit_pending [OF step.hyps(2) step.IH])
qed

lemmas session_defs = session_initial_def store_initial_def login_initial_def setPassword_def
  handleLogin_def fire_timer_def login_timer_def top_route_def admin_initial_def

lemma js_trim_password_examples [simp]: "js_trim ''123'' \<noteq> []" "js_trim ''x'' \<noteq> []"
  by (simp_all add: js_trim_empty_iff is_js_space_def)

lemma race_run_reach: "session_reach race_run"
proof -
  let ?s1 = "setPassword ''123'' session_initial"
  let ?s2 = "handleLogin ?s1"
  let ?s3 = "setPassword ''x'' ?s2"
  let ?s4 = "handleLogin ?s3"
  have r1: "session_reach ?s1"
    by (rule session_reach.step [OF session_reach.init session_step.type_password]) (simp add: session_defs)
  have r2: "session_reach ?s2"
    by (rule session_reach.step [OF r1 session_step.press_login]) (simp_all add: session_defs)
  have r3: "session_reach ?s3"
    by (rule session_reach.step [OF r2 session_step.type_password]) (simp add: session_defs)
  have r4: "session_reach ?s4"
    by (rule session_reach.step [OF r3 session_step.submit_editing]) (simp add: session_defs)
  have r5: "session_reach (fire_timer ?s4)"
    by (rule session_reach.step [OF r4 session_step.timer]) (simp add: session_defs)
  have r6: "session_reach (fire_timer (fire_timer ?s4))"
    by (rule session_reach.step [OF r5 session_step.timer]) (simp add: session_defs Let_def)
  then show ?thesis by (simp add: race_run_def)
qed

text \<open>C28: the admin stack only takes four shapes: the login screen alone, the dashboard
  alone, or the add or edit form on top of the dashboard; the form is never reached
  from the login screen directly.\<close>

theorem session_stack_shape: "session_reach s \<Longrightarrow> stack_ok (ss_stack s)"
  by (rule session_reach_stack_ok)

text \<open>C24: a login with the password \<open>123\<close> from the login screen, once its timer
  fires, authenticates the session and replaces the login screen by the dashboard.\<close>

theorem login_correct_password:
  assumes "session_reach s" and "top_route s = Some AdminLogin" and "ss_timers s = []"
  shows "session_reach (fire_timer (handleLogin (setPassword ''123'' s))) \<and>
         top_route (fire_timer (handleLogin (setPassword ''123'' s))) = Some AdminDashboard \<and>
         isAuthenticated (rs_admin (ss_store (fire_timer (handleLogin (setPassword ''123'' s)))))"
proof -
  have st: "ss_stack s = [AdminLogin]"
    using session_reach_stack_ok [OF assms(1)] assms(2) by (auto simp: stack_ok_def top_route_def)
  let ?s1 = "setPassword ''123'' s"
  let ?s2 = "handleLogin ?s1"
  have top1: "top_route ?s1 = Some AdminLogin" using assms(2) by (simp add: setPassword_def top_route_def split: if_splits)
  have r1: "session_reach ?s1"
    using assms(1,2) by (rule session_reach.step [OF _ session_step.type_password])
  have r2: "session_reach ?s2" using r1 top1 by (rule session_reach.step [OF _ session_step.submit_editing])
  have tm: "ss_timers ?s2 = [''123'']" using assms(3) by (simp add: handleLogin_def setPassword_def)
  have r3: "session_reach (fire_timer ?s2)"
    using r2 by (rule session_reach.step [OF _ session_step.timer]) (simp add: tm)
  have "ss_stack (fire_timer ?s2) = [AdminDashboard]"
    using tm st by (simp add: fire_timer_def login_timer_def Let_def handleLogin_def setPassword_def)
  moreover have "isAuthenticated (rs_admin (ss_store (fire_timer ?s2)))"
    using tm by (simp add: fire_timer_def login_timer_def Let_def store_dispatch_def loginSuccess_def)
  ultimately show ?thesis using r3 by (simp add: top_route_def)
qed

text \<open>C25: a login with any other non-blank password fails once its timer fires: the
  session is not authenticated, the error reads \<open>Invalid password\<close>, the stack is
  unchanged and the screen is no longer submitting.\<close>

theorem login_wrong_password:
  assumes "pw \<noteq> ''123''" and "js_trim pw \<noteq> []" and "ss_timers s = []"
  shows "\<not> isAuthenticated (rs_admin (ss_store (fire_timer (handleLogin (setPassword pw s))))) \<and>
         loginError (rs_admin (ss_store (fire_timer (handleLogin (setPassword pw s))))) = Some ''Invalid password'' \<and>
         ss_stack (fire_timer (handleLogin (setPassword pw s))) = ss_stack s \<and>
         \<not> isSubmitting (ss_login (fire_timer (handleLogin (setPassword pw s))))"
  using assms
  by (simp add: fire_timer_def login_timer_def Let_def handleLogin_def setPassword_def store_dispatch_def
      loginFailure_def)

text \<open>A blank password is rejected at once: the error reads \<open>Please enter
  password\<close>, the session is not authenticated, and no check is scheduled.\<close>

theorem login_blank_password:
  "js_trim (password (ss_login s)) = [] \<Longrightarrow>
     loginError (rs_admin (ss_store (handleLogin s))) = Some ''Please enter password'' \<and>
     \<not> isAuthenticated (rs_admin (ss_store (handleLogin s))) \<and>
     ss_timers (handleLogin s) = ss_timers s \<and> ss_login (handleLogin s) = ss_login s"
  by (simp add: handleLogin_def store_dispatch_def loginFailure_def)

text \<open>C17: the keyboard's submit key is not disabled while a check is pending, and each
  check dispatches its own verdict: after logging in with \<open>123\<close>, typing another
  password and submitting it within the 500 ms, the dashboard is on screen while the
  store says the session is not authenticated.\<close>

theorem login_race_logged_out_dashboard:
  "session_reach race_run \<and> top_route race_run = Some AdminDashboard \<and>
   \<not> isAuthenticated (rs_admin (ss_store race_run)) \<and>
   loginError (rs_admin (ss_store race_run)) = Some ''Invalid password''"
  using race_run_reach
  by (simp add: race_run_def session_defs Let_def store_dispatch_def loginSuccess_def loginFailure_def
      loginRequest_def)

text \<open>C26: the Login button is never stuck: in every reachable session, while it is
  disabled and reads \<open>Logging in...\<close> a check is pending, and the next check to fire
  enables it again.\<close>

theorem login_button_recovers:
  assumes "session_reach s" and "lv_button_disabled (login_view s)"
  shows "ss_timers s \<noteq> [] \<and> lv_button_label (login_view s) = ''Logging in...'' \<and>
         session_step s (fire_timer s) \<and>
         \<not> lv_button_disabled (login_view (fire_timer s)) \<and> lv_button_label (login_view (fire_timer s)) = ''Login''"
proof -
  have sub: "isSubmitting (ss_login s)" using assms(2) by (simp add: login_view_def Let_def)
  then have t: "ss_timers s \<noteq> []"
    using session_reach_submit_pending [OF assms(1)] by (simp add: submit_pending_def)
  then obtain pw rest where "ss_timers s = pw # rest" by (cases "ss_timers s") auto
  then have "\<not> isSubmitting (ss_login (fire_timer s))" by (simp add: fire_timer_def)
  with t sub show ?thesis by (simp add: login_view_def Let_def session_step.timer)
qed

section \<open>Witnesses\<close>

theorem session_stack_shape_witness:
  "session_reach race_run \<and> stack_ok (ss_stack race_run)"
  using race_run_reach session_stack_shape [OF race_run_reach] by simp

theorem login_correct_password_witness:
  "top_route (fire_timer (handleLogin (setPassword ''123'' session_initial))) = Some AdminDashboard \<and>
   isAuthenticated (rs_admin (ss_store (fire_timer (handleLogin (setPassword ''123'' session_initial)))))"
proof -
  have h1: "top_route session_initial = Some AdminLogin" by (simp add: session_defs)
  have h2: "ss_timers session_initial = []" by (simp add: session_defs)
  show ?thesis using login_correct_password [OF session_reach.init h1 h2] by simp
qed

theorem login_wrong_password_witness:
  "loginError (rs_admin (ss_store (fire_timer (handleLogin (setPassword ''x'' session_initial))))) =
     Some ''Invalid password''"
proof -
  have h: "''x'' \<noteq> ''123''" "js_trim ''x'' \<noteq> []" "ss_timers session_initial = []"
    by (simp_all add: session_defs)
  show ?thesis using login_wrong_password [OF h] by simp
qed

theorem login_blank_password_witness:
  "loginError (rs_admin (ss_store (handleLogin session_initial))) = Some ''Please enter password''"
proof -
  have h: "js_trim (password (ss_login session_initial)) = []" by (simp add: session_defs js_trim_def)
  show ?thesis using login_blank_password [OF h] by simp
qed

theorem login_button_recovers_witness:
  "ss_timers (handleLogin (setPassword ''123'' session_initial)) = [''123''] \<and>
   lv_button_label (login_view (handleLogin (setPassword ''123'' session_initial))) = ''Logging in...'' \<and>
   lv_button_label (login_view (fire_timer (handleLogin (setPassword ''123'' session_initial)))) = ''Login''"
proof -
  let ?s = "handleLogin (setPassword ''123'' session_initial)"
  have r: "session_reach ?s"
  proof -
    have r1: "session_reach (setPassword ''123'' session_initial)"
      by (rule session_reach.step [OF session_reach.init session_step.type_password]) (simp add: session_defs)
    show ?thesis
      by (rule session_reach.step [OF r1 session_step.press_login]) (simp_all add: session_defs)
  qed
  have d: "lv_button_disabled (login_view ?s)" by (simp add: login_view_def session_defs)
  show ?thesis using login_button_recovers [OF r d] by (simp add: session_defs)
qed

end
