(* ===== verification/Screens.thy ===== *)
theory Screens
  imports News_Hooks Video_Player
begin

text \<open>
  The reader screens and the dashboard as functions from what their hooks return to
  what they render: \<open>HomeScreen.tsx\<close> (four carousels and one pull-to-refresh),
  \<open>CategoryScreen.tsx\<close>, \<open>NewsDetailScreen.tsx\<close> (which mounts the video player),
  \<open>AdminDashboardScreen.tsx\<close> (statistics and the article list), and the two
  presentational components \<open>HorizontalNewsCarousel.tsx\<close> and \<open>NewsCard.tsx\<close>.  A
  hook's result is \<open>query_result\<close> of \<open>Query_Cache\<close>, read from the client with the
  hook's key.  Styles and layout are not modelled.  A card and the detail view carry
  the \<open>published_at\<close> string their \<open>formatDate\<close> receives; \<open>Date_Format\<close>
  renders it (\<open>NewsCard_date\<close>, \<open>NewsDetail_date\<close>).
\<close>

section \<open>Cards and carousels\<close>

text \<open>What a \<open>NewsCard\<close> shows.\<close>

record card =
  card_id :: string
  card_image :: string
  card_category :: string
  card_title :: string
  card_description :: string
  card_author :: string
  card_date :: string

definition news_card :: "news_item \<Rightarrow> card" where
  "news_card n =
     \<lparr>card_id = news_id n,
      card_image = js_or (image_url n) ''https://picsum.photos/seed/default/400/300.jpg'',
      card_category = js_upper (category_name (category n)), card_title = title n,
      card_description = description n, card_author = author n, card_date = published_at n\<rparr>"

datatype carousel_body = CarouselCards "card list" | CarouselEmpty string

record carousel =
  car_title :: string
  car_see_more :: "string option"
  car_body :: carousel_body

definition news_carousel :: "string \<Rightarrow> news_item list \<Rightarrow> string option \<Rightarrow> carousel" where
  "news_carousel t news cat =
     \<lparr>car_title = t, car_see_more = cat,
      car_body = (if news \<noteq> [] then CarouselCards (map news_card news) else CarouselEmpty ''No news available'')\<rparr>"

section \<open>What a screen renders\<close>

record detail =
  det_image :: string
  det_category :: string
  det_title :: string
  det_author :: string
  det_date :: string
  det_video :: vp_state
  det_description :: string

record dashboard_stats =
  st_total :: nat
  st_latest :: nat
  st_global :: nat
  st_sports :: nat
  st_tech :: nat

record dashboard_row =
  row_id :: string
  row_has_image :: bool
  row_title :: string
  row_category :: string
  row_author :: string

text \<open>The body of the category list: its cards, or \<open>ListEmptyComponent\<close>.\<close>

datatype category_body = CategoryCards "card list" | NoNewsFound string string

datatype screen_view =
    Spinner string
  | ErrorScreen string
  | HomeView "carousel list"
  | CategoryView string string category_body bool
  | DetailView detail
  | DashboardView dashboard_stats "dashboard_row list"

text \<open>The list a list query holds (\<open>data || []\<close>), and the article a by-id query holds.\<close>

definition news_list :: "news_data option \<Rightarrow> news_item list" where
  "news_list d = (case d of Some (NewsList xs) \<Rightarrow> xs | _ \<Rightarrow> [])"

definition news_one :: "news_data option \<Rightarrow> news_item option" where
  "news_one d = (case d of Some (NewsOne n) \<Rightarrow> n | _ \<Rightarrow> None)"

type_synonym news_result = "(news_data, gateway_error) query_result"

definition hook_result :: "(news_data, gateway_error) query_client \<Rightarrow> query_options \<Rightarrow> news_result" where
  "hook_result qc opts = observe qc (queryKey opts) (qo_staleTime opts)"

section \<open>HomeScreen\<close>

text \<open>
  \<open>isLoading = latestLoading || ...\<close>, \<open>hasError = latestError || ...\<close>; the spinner
  only while no section has data, then the error screen if any section failed, else
  the four carousels with \<open>news || []\<close>.
\<close>

definition home_view :: "news_result \<Rightarrow> news_result \<Rightarrow> news_result \<Rightarrow> news_result \<Rightarrow> screen_view" where
  "home_view l g s t =
     (let isLoading = res_isLoading l \<or> res_isLoading g \<or> res_isLoading s \<or> res_isLoading t;
          hasError = res_error l \<noteq> None \<or> res_error g \<noteq> None \<or> res_error s \<noteq> None \<or> res_error t \<noteq> None
      in if isLoading \<and> res_data l = None \<and> res_data g = None \<and> res_data s = None \<and> res_data t = None
         then Spinner ''Loading news...''
         else if hasError
         then ErrorScreen ''Failed to load news. Please check your internet connection and try again.''
         else HomeView
           [news_carousel ''Latest'' (news_list (res_data l)) (Some ''latest''),
            news_carousel ''Global'' (news_list (res_data g)) (Some ''global''),
            news_carousel ''Sports'' (news_list (res_data s)) (Some ''sports''),
            news_carousel ''Technology'' (news_list (res_data t)) (Some ''tech'')])"

definition home_hooks :: "query_options list" where
  "home_hooks = [useLatestNews 4, useGlobalNews 4, useSportsNews 4, useTechNews 4]"

definition home_screen :: "(news_data, gateway_error) query_client \<Rightarrow> screen_view" where
  "home_screen qc =
     home_view (hook_result qc (useLatestNews 4)) (hook_result qc (useGlobalNews 4))
       (hook_result qc (useSportsNews 4)) (hook_result qc (useTechNews 4))"

text \<open>\<open>onRefresh\<close>: \<open>Promise.all\<close> of the four \<open>refetch()\<close> calls, issued in order.\<close>

fun refetch_all ::
  "millis \<Rightarrow> query_options list \<Rightarrow> (news_data, gateway_error) query_client \<Rightarrow>
     (news_data, gateway_error) query_client \<times> request list" where
  "refetch_all now [] qc = (qc, [])"
| "refetch_all now (h # hs) qc =
     (let (qc1, rs1) = refetch now h qc; (qc2, rs2) = refetch_all now hs qc1 in (qc2, rs1 @ rs2))"

definition home_onRefresh ::
  "millis \<Rightarrow> (news_data, gateway_error) query_client \<Rightarrow> (news_data, gateway_error) query_client \<times> request list" where
  "home_onRefresh now qc = refetch_all now home_hooks qc"

section \<open>CategoryScreen\<close>

definition categoryDisplayName :: "string \<Rightarrow> string" where
  "categoryDisplayName c =
     (if c = ''latest'' then ''Latest News'' else if c = ''global'' then ''Global News''
      else if c = ''sports'' then ''Sports News'' else if c = ''tech'' then ''Technology News''
      else ''Category'')"

text \<open>The render: the header title of \<open>setOptions\<close>, the list header
  (\<open>{category} News\<close>, JSX keeping the space before \<open>News\<close>), the cards of
  \<open>news || []\<close> or the empty state, and the pull-to-refresh flag.\<close>

definition category_view :: "string \<Rightarrow> bool \<Rightarrow> news_result \<Rightarrow> screen_view" where
  "category_view c refreshing r =
     (if res_isLoading r \<and> res_data r = None then Spinner ''Loading news...''
      else if res_error r \<noteq> None
      then ErrorScreen ''Failed to load news. Please check your internet connection and try again.''
      else CategoryView (categoryDisplayName c) (c @ '' News'')
             (if news_list (res_data r) = []
              then NoNewsFound ''No News Found'' ''There are no news articles in this category at the moment.''
              else CategoryCards (map news_card (news_list (res_data r))))
             refreshing)"

definition category_screen :: "(news_data, gateway_error) query_client \<Rightarrow> string \<Rightarrow> bool \<Rightarrow> screen_view" where
  "category_screen qc c refreshing = category_view c refreshing (hook_result qc (useNewsByCategory c))"

text \<open>\<open>onRefresh\<close> (also the error screen's retry): the category query's \<open>refetch()\<close>;
  \<open>refreshing\<close> is set before and reset in \<open>finally\<close>, whatever the outcome.\<close>

definition category_onRefresh ::
  "millis \<Rightarrow> string \<Rightarrow> (news_data, gateway_error) query_client \<Rightarrow> (news_data, gateway_error) query_client \<times> request list" where
  "category_onRefresh now c qc = refetch now (useNewsByCategory c) qc"

section \<open>NewsDetailScreen\<close>

definition getVideoUrl :: "string \<Rightarrow> string" where
  "getVideoUrl u =
     (if starts_with ''assets/'' u then u
      else if starts_with ''http'' u then u
      else ''assets/videos/sample1.mp4'')"

definition detail_of :: "news_item \<Rightarrow> detail" where
  "detail_of n =
     \<lparr>det_image = js_or (image_url n) ''https://picsum.photos/seed/news/400/300.jpg'',
      det_category = js_upper (category_name (category n)), det_title = title n, det_author = author n,
      det_date = published_at n, det_video = vp_mount (getVideoUrl (video_url n)) True,
      det_description = description n\<rparr>"

definition detail_view :: "news_result \<Rightarrow> screen_view" where
  "detail_view r =
     (if res_isLoading r then Spinner ''Loading news details...''
      else case (res_error r, news_one (res_data r)) of
        (None, Some n) \<Rightarrow> DetailView (detail_of n)
      | _ \<Rightarrow> ErrorScreen ''Failed to load news details. Please try again later.'')"

definition detail_screen :: "(news_data, gateway_error) query_client \<Rightarrow> string \<Rightarrow> screen_view" where
  "detail_screen qc i = detail_view (hook_result qc (useNewsById i))"

section \<open>AdminDashboardScreen\<close>

definition count_category :: "category \<Rightarrow> news_item list \<Rightarrow> nat" where
  "count_category c xs = length (filter (\<lambda>n. category n = c) xs)"

definition dashboard_stats :: "news_item list option \<Rightarrow> dashboard_stats" where
  "dashboard_stats d =
     (let xs = list_or d
      in \<lparr>st_total = length xs, st_latest = count_category Latest xs, st_global = count_category Global xs,
          st_sports = count_category Sports xs, st_tech = count_category Tech xs\<rparr>)"

definition dashboard_row :: "news_item \<Rightarrow> dashboard_row" where
  "dashboard_row n =
     \<lparr>row_id = news_id n, row_has_image = (js_or (image_url n) [] \<noteq> []), row_title = title n,
      row_category = js_upper (category_name (category n)), row_author = author n\<rparr>"

definition news_items :: "news_data option \<Rightarrow> news_item list option" where
  "news_items d = (case d of Some (NewsList xs) \<Rightarrow> Some xs | _ \<Rightarrow> None)"

definition dashboard_view :: "news_result \<Rightarrow> screen_view" where
  "dashboard_view r =
     (if res_isLoading r \<and> res_data r = None then Spinner ''Loading dashboard...''
      else if res_error r \<noteq> None then ErrorScreen ''Failed to load dashboard''
      else DashboardView (dashboard_stats (news_items (res_data r)))
             (map dashboard_row (list_or (news_items (res_data r)))))"

definition dashboard_screen :: "(news_data, gateway_error) query_client \<Rightarrow> screen_view" where
  "dashboard_screen qc = dashboard_view (hook_result qc adminAllNews)"

section \<open>Lemmas\<close>

lemma count_category_sum:
  "length xs = count_category Latest xs + count_category Global xs + count_category Sports xs + count_category Tech xs"
proof (induction xs)
  case Nil
  then show ?case by (simp add: count_category_def)
next
  case (Cons x xs)
  then show ?case by (cases "category x") (simp_all add: count_category_def)
qed

lemma starts_with_prefix: "starts_with (p @ q) u \<Longrightarrow> starts_with p u"
  by (auto simp: starts_with_iff)

lemma refetch_idle:
  assumes "q_fetch (entry_of qc (queryKey h) (qo_staleTime h)) \<noteq> Fetching"
  shows "refetch now h qc =
           (put (queryKey h) ((entry_of qc (queryKey h) (qo_staleTime h))\<lparr>q_fetch := Fetching, q_seq := next_seq qc\<rparr>)
              (qc\<lparr>next_seq := Suc (next_seq qc)\<rparr>), [(queryKey h, next_seq qc)])"
  using assms by (simp add: refetch_def ensure_fresh_def fetch_query_def Let_def)

lemma entry_of_put_other: "k' \<noteq> k \<Longrightarrow> entry_of (put k e qc) k' st = entry_of qc k' st"
  by (simp add: entry_of_def)

lemma entry_of_next_seq [simp]: "entry_of (qc\<lparr>next_seq := n\<rparr>) k st = entry_of qc k st"
  by (simp add: entry_of_def)

lemma next_seq_put' [simp]: "next_seq (put k e qc) = next_seq qc"
  by (simp add: put_def)

text \<open>Refetching hooks with distinct keys, none of them in flight, sends one request
  per hook, numbered in the order of the calls.\<close>

lemma refetch_all_idle:
  "distinct (map queryKey hs) \<Longrightarrow>
   (\<forall>h\<in>set hs. q_fetch (entry_of qc (queryKey h) (qo_staleTime h)) \<noteq> Fetching) \<Longrightarrow>
   snd (refetch_all now hs qc) = zip (map queryKey hs) [next_seq qc ..< next_seq qc + length hs]"
proof (induction hs arbitrary: qc)
  case Nil
  then show ?case by simp
next
  case (Cons h hs)
  let ?qc1 = "fst (refetch now h qc)"
  have r: "snd (refetch now h qc) = [(queryKey h, next_seq qc)]"
    using Cons.prems(2) by (simp add: refetch_idle)
  have n1: "next_seq ?qc1 = Suc (next_seq qc)" using Cons.prems(2) by (simp add: refetch_idle)
  have keep: "\<forall>h'\<in>set hs. q_fetch (entry_of ?qc1 (queryKey h') (qo_staleTime h')) \<noteq> Fetching"
  proof
    fix h' assume h': "h' \<in> set hs"
    then have "queryKey h' \<noteq> queryKey h" using Cons.prems(1) by (auto intro: rev_image_eqI)
    then show "q_fetch (entry_of ?qc1 (queryKey h') (qo_staleTime h')) \<noteq> Fetching"
      using Cons.prems(2) h' by (simp add: refetch_idle entry_of_put_other)
  qed
  have ih: "snd (refetch_all now hs ?qc1) = zip (map queryKey hs) [Suc (next_seq qc) ..< Suc (next_seq qc) + length hs]"
    using Cons.IH [of ?qc1] Cons.prems(1) keep n1 by simp
  have "[next_seq qc ..< next_seq qc + length (h # hs)] = next_seq qc # [Suc (next_seq qc) ..< Suc (next_seq qc) + length hs]"
    by (simp add: upt_conv_Cons del: upt_Suc)
  moreover have "snd (refetch_all now (h # hs) qc) = (queryKey h, next_seq qc) # snd (refetch_all now hs ?qc1)"
    using r by (simp add: split_def Let_def)
  ultimately show ?case using ih by (simp del: upt_Suc)
qed

text \<open>C10: one failing section hides them all: if the sports query has failed while the
  tech query has data, the home screen shows its error screen, not the sections that
  loaded.\<close>

theorem home_error_hides_sections:
  "res_error s \<noteq> None \<Longrightarrow> res_data t \<noteq> None \<Longrightarrow>
     home_view l g s t = ErrorScreen ''Failed to load news. Please check your internet connection and try again.''"
  by (simp add: home_view_def Let_def)

text \<open>C11: without errors, and as soon as one section has data, the home screen shows
  the four carousels, each with its own query's articles (partial results: a section
  still loading is empty).\<close>

theorem home_partial_results:
  assumes "res_error l = None" "res_error g = None" "res_error s = None" "res_error t = None"
    and "res_data l \<noteq> None \<or> res_data g \<noteq> None \<or> res_data s \<noteq> None \<or> res_data t \<noteq> None"
  shows "home_view l g s t =
           HomeView [news_carousel ''Latest'' (news_list (res_data l)) (Some ''latest''),
                     news_carousel ''Global'' (news_list (res_data g)) (Some ''global''),
                     news_carousel ''Sports'' (news_list (res_data s)) (Some ''sports''),
                     news_carousel ''Technology'' (news_list (res_data t)) (Some ''tech'')]"
  using assms by (auto simp: home_view_def Let_def)

text \<open>C12: pull-to-refresh on the home screen fans out: when none of the four queries is
  in flight it sends exactly four requests, one per section key, numbered in order.\<close>

theorem home_refresh_fan_out:
  assumes "\<forall>h\<in>set home_hooks. q_fetch (entry_of qc (queryKey h) (qo_staleTime h)) \<noteq> Fetching"
  shows "snd (home_onRefresh now qc) =
           [(queryKey (useLatestNews 4), next_seq qc), (queryKey (useGlobalNews 4), next_seq qc + 1),
            (queryKey (useSportsNews 4), next_seq qc + 2), (queryKey (useTechNews 4), next_seq qc + 3)]"
proof -
  have d: "distinct (map queryKey home_hooks)"
    by (simp add: home_hooks_def useLatestNews_def useGlobalNews_def useSportsNews_def useTechNews_def)
  have "[next_seq qc ..< next_seq qc + 4] = [next_seq qc, next_seq qc + 1, next_seq qc + 2, next_seq qc + 3]"
    by (simp add: upt_rec)
  then show ?thesis
    using refetch_all_idle [OF d assms, of now] by (simp add: home_onRefresh_def home_hooks_def)
qed

text \<open>C13: stale data is not shown after a failed refetch: an entry that succeeded and
  then failed still holds its data, yet the category screen and the dashboard render
  their error screens.\<close>

theorem stale_data_hidden_after_failed_refetch:
  "res_data (query_result (settle t2 (Fail err) (settle t1 (Ok (NewsList xs)) e))) = Some (NewsList xs) \<and>
   category_view c b (query_result (settle t2 (Fail err) (settle t1 (Ok (NewsList xs)) e))) =
     ErrorScreen ''Failed to load news. Please check your internet connection and try again.'' \<and>
   dashboard_view (query_result (settle t2 (Fail err) (settle t1 (Ok (NewsList xs)) e))) =
     ErrorScreen ''Failed to load dashboard''"
  by (simp add: query_result_def category_view_def dashboard_view_def)

text \<open>The dashboard's total is the sum of its four category counts.\<close>

theorem dashboard_stats_total:
  "st_total (dashboard_stats d) =
     st_latest (dashboard_stats d) + st_global (dashboard_stats d) + st_sports (dashboard_stats d) + st_tech (dashboard_stats d)"
  by (simp add: dashboard_stats_def Let_def count_category_sum [symmetric])

text \<open>C37: the detail screen mounts the video player auto-playing, on the bundled sample
  for \<open>assets/videos/\<close> paths and for URLs that are neither \<open>assets/\<close> paths nor
  \<open>http\<close> URLs, and on the URL itself otherwise (an \<open>assets/\<close> path outside
  \<open>assets/videos/\<close> included).\<close>

theorem detail_video_source:
  "vp_isPlaying (det_video (detail_of n)) \<and>
   pl_source (vp_player (det_video (detail_of n))) =
     (if starts_with ''assets/videos/'' (video_url n) then BundledSample
      else if starts_with ''assets/'' (video_url n) then RemoteUri (video_url n)
      else if starts_with ''http'' (video_url n) then RemoteUri (video_url n)
      else BundledSample)"
proof -
  have sub: "starts_with ''assets/videos/'' u \<Longrightarrow> starts_with ''assets/'' u" for u
    using starts_with_prefix [of "''assets/''" "''videos/''" u] by simp
  have sample: "starts_with ''assets/videos/'' ''assets/videos/sample1.mp4''" by simp
  show ?thesis
    using sub [of "video_url n"] sample
    by (simp add: detail_of_def getVideoUrl_def vp_mount_def videoSource_def)
qed

section \<open>Witnesses\<close>

definition example_result :: "news_data option \<Rightarrow> gateway_error option \<Rightarrow> news_result" where
  "example_result d err = \<lparr>res_data = d, res_error = err, res_isLoading = False, res_isFetching = False\<rparr>"

theorem home_error_hides_sections_witness:
  "home_view (example_result (Some (NewsList [])) None) (example_result (Some (NewsList [])) None)
     (example_result None (Some NetworkFailure)) (example_result (Some (NewsList [])) None) =
   ErrorScreen ''Failed to load news. Please check your internet connection and try again.''"
  by (rule home_error_hides_sections) (simp_all add: example_result_def)

theorem home_partial_results_witness:
  "home_view (example_result None None) (example_result None None) (example_result None None)
     (example_result (Some (NewsList [])) None) =
   HomeView [news_carousel ''Latest'' [] (Some ''latest''), news_carousel ''Global'' [] (Some ''global''),
             news_carousel ''Sports'' [] (Some ''sports''), news_carousel ''Technology'' [] (Some ''tech'')]"
proof -
  have h: "res_error (example_result None None) = None"
          "res_error (example_result (Some (NewsList [])) None) = None"
          "res_data (example_result None None) \<noteq> None \<or> res_data (example_result None None) \<noteq> None \<or>
           res_data (example_result None None) \<noteq> None \<or> res_data (example_result (Some (NewsList [])) None) \<noteq> None"
    by (simp_all add: example_result_def)
  show ?thesis using home_partial_results [OF h(1) h(1) h(1) h(2) h(3)]
    by (simp add: example_result_def news_list_def)
qed

theorem home_refresh_fan_out_witness:
  "snd (home_onRefresh 0 (empty_client :: (news_data, gateway_error) query_client)) =
     [(queryKey (useLatestNews 4), 1), (queryKey (useGlobalNews 4), 2),
      (queryKey (useSportsNews 4), 3), (queryKey (useTechNews 4), 4)]"
proof -
  have h: "\<forall>h\<in>set home_hooks. q_fetch (entry_of (empty_client :: (news_data, gateway_error) query_client)
             (queryKey h) (qo_staleTime h)) \<noteq> Fetching"
    by (simp add: home_hooks_def entry_of_def empty_client_def new_entry_def)
  show ?thesis using home_refresh_fan_out [OF h, of 0] by (simp add: empty_client_def)
qed

end
