(* ===== verification/AddEdit_Form.thy ===== *)
theory AddEdit_Form
  imports News_Hooks Admin_Session
begin

text \<open>
  The article form of \<open>src/src/screens/AddEditNewsScreen.tsx\<close>: the form state
  initialised from the article being edited, \<open>validateForm\<close> with \<open>isValidUrl\<close>,
  and \<open>handleSubmit\<close>, which runs the screen's own create or update mutation
  (\<open>addEdit_create\<close> and \<open>addEdit_update\<close> of \<open>News_Hooks\<close>) and answers with an
  alert.  \<open>isValidUrl\<close> is \<open>new URL(url)\<close> not throwing; the platform's URL parser is
  modelled by \<open>url_parses\<close>, a reduction of the WHATWG parser to what decides
  failure for the strings a form holds: a scheme, and a non-empty host for the
  special schemes other than \<open>file\<close>.
\<close>

section \<open>The URL constructor\<close>

definition is_ascii_alpha :: "char \<Rightarrow> bool" where
  "is_ascii_alpha c \<longleftrightarrow> (CHR ''a'' \<le> c \<and> c \<le> CHR ''z'') \<or> (CHR ''A'' \<le> c \<and> c \<le> CHR ''Z'')"

definition is_scheme_char :: "char \<Rightarrow> bool" where
  "is_scheme_char c \<longleftrightarrow> is_ascii_alpha c \<or> (CHR ''0'' \<le> c \<and> c \<le> CHR ''9'') \<or> c \<in> set ''+-.''"

definition js_lower_char :: "char \<Rightarrow> char" where
  "js_lower_char c = (if CHR ''A'' \<le> c \<and> c \<le> CHR ''Z'' then char_of (of_char c + (32::nat)) else c)"

text \<open>Leading and trailing C0 controls and spaces are stripped before parsing.\<close>

definition url_strip :: "string \<Rightarrow> string" where
  "url_strip s = rev (dropWhile (\<lambda>c. of_char c \<le> (32::nat)) (rev (dropWhile (\<lambda>c. of_char c \<le> (32::nat)) s)))"

definition special_schemes :: "string list" where
  "special_schemes = [''http'', ''https'', ''ws'', ''wss'', ''ftp'']"

definition url_parses :: "string \<Rightarrow> bool" where
  "url_parses u =
     (let s = url_strip u;
          sch = takeWhile (\<lambda>c. c \<noteq> CHR '':'') s;
          rest = drop (Suc (length sch)) s;
          host = takeWhile (\<lambda>c. c \<notin> set [CHR ''/'', CHR ''?'', CHR ''#'', CHR 0x5C])
                   (dropWhile (\<lambda>c. c \<in> set [CHR ''/'', CHR 0x5C]) rest)
      in length sch < length s \<and> sch \<noteq> [] \<and> is_ascii_alpha (hd sch) \<and> list_all is_scheme_char sch \<and>
         (map js_lower_char sch \<in> set special_schemes \<longrightarrow> host \<noteq> [] \<and> CHR '' '' \<notin> set host))"

definition isValidUrl :: "string \<Rightarrow> bool" where
  "isValidUrl u = url_parses u"

section \<open>The form\<close>

record form_data =
  fd_title :: string
  fd_description :: string
  fd_image_url :: string
  fd_video_url :: string
  fd_category :: category
  fd_author :: string

text \<open>\<open>useState({title: newsItem?.title || '', ..., category: newsItem?.category || 'latest'})\<close>\<close>

definition form_init :: "news_item option \<Rightarrow> form_data" where
  "form_init n =
     \<lparr>fd_title = js_or (map_option title n) [], fd_description = js_or (map_option description n) [],
      fd_image_url = js_or (Option.bind n image_url) [], fd_video_url = js_or (map_option video_url n) [],
      fd_category = (case n of None \<Rightarrow> Latest | Some x \<Rightarrow> category x),
      fd_author = js_or (map_option author n) []\<rparr>"

text \<open>\<open>validateForm\<close>: the errors by field, in the order the checks add them.\<close>

definition validateForm :: "form_data \<Rightarrow> (string \<times> string) list" where
  "validateForm f =
     (if js_trim (fd_title f) = [] then [(''title'', ''Title is required'')] else []) @
     (if js_trim (fd_description f) = [] then [(''description'', ''Description is required'')] else []) @
     (if js_trim (fd_video_url f) = [] then [(''video_url'', ''Video URL is required'')]
      else if \<not> isValidUrl (fd_video_url f) then [(''video_url'', ''Please enter a valid URL'')] else []) @
     (if js_trim (fd_author f) = [] then [(''author'', ''Author is required'')] else []) @
     (if fd_image_url f \<noteq> [] \<and> \<not> isValidUrl (fd_image_url f) then [(''image_url'', ''Please enter a valid URL'')] else [])"

text \<open>\<open>createMutation.mutate(formData)\<close>: the form object as it is, \<open>image_url\<close> included
  when empty.\<close>

definition form_fields :: "form_data \<Rightarrow> news_fields" where
  "form_fields f =
     \<lparr>f_title = fd_title f, f_description = fd_description f, f_image_url = Some (fd_image_url f),
      f_video_url = fd_video_url f, f_category = fd_category f, f_author = fd_author f\<rparr>"

text \<open>\<open>updateMutation.mutate({id: newsItem.id, data: formData})\<close>: every form field is
  in the patch.\<close>

definition form_patch :: "form_data \<Rightarrow> news_patch" where
  "form_patch f =
     \<lparr>p_id = None, p_title = Some (fd_title f), p_description = Some (fd_description f),
      p_image_url = Some (Some (fd_image_url f)), p_video_url = Some (fd_video_url f),
      p_category = Some (fd_category f), p_author = Some (fd_author f),
      p_published_at = None, p_created_at = None, p_updated_at = None\<rparr>"

record form_state =
  fs_data :: form_data
  fs_errors :: "(string \<times> string) list"

datatype form_outcome =
    NotSubmitted
  | Created "gateway_error + news_item option"
  | Updated "gateway_error + news_item option"

text \<open>\<open>handleSubmit\<close>; the clock, the id and the server's time stamp of a new row are
  inputs.\<close>

definition handleSubmit ::
  "form_mode \<Rightarrow> news_item option \<Rightarrow> string \<Rightarrow> string \<Rightarrow> string \<Rightarrow> form_state \<Rightarrow> app_state \<Rightarrow>
     form_state \<times> form_outcome \<times> app_state \<times> request list" where
  "handleSubmit mode item now sid stamp fs s =
     (let errs = validateForm (fs_data fs); fs' = fs\<lparr>fs_errors := errs\<rparr>
      in if errs \<noteq> [] then (fs', NotSubmitted, s, [])
         else if mode = AddMode
         then (let (r, s', rs) = addEdit_create (form_fields (fs_data fs)) now sid stamp s in (fs', Created r, s', rs))
         else (case item of
                 None \<Rightarrow> (fs', NotSubmitted, s, [])
               | Some n \<Rightarrow> (let (r, s', rs) = addEdit_update (news_id n) (form_patch (fs_data fs)) s
                           in (fs', Updated r, s', rs))))"

text \<open>The alerts of \<open>onSuccess\<close> and \<open>onError\<close>; a success also goes back.\<close>

definition submit_alert :: "form_outcome \<Rightarrow> (string \<times> string) option" where
  "submit_alert out =
     (case out of
        NotSubmitted \<Rightarrow> None
      | Created (Inr _) \<Rightarrow> Some (''Success'', ''Article created successfully!'')
      | Created (Inl _) \<Rightarrow> Some (''Error'', ''Failed to create article. Please try again.'')
      | Updated (Inr _) \<Rightarrow> Some (''Success'', ''Article updated successfully!'')
      | Updated (Inl _) \<Rightarrow> Some (''Error'', ''Failed to update article. Please try again.''))"

definition header_title :: "form_mode \<Rightarrow> string" where
  "header_title m = (if m = AddMode then ''Add New Article'' else ''Edit Article'')"

text \<open>The category buttons of \<open>AddEditNewsScreen\<close> (\<open>{id, name}\<close>).\<close>

definition form_categories :: "(string \<times> string) list" where
  "form_categories = [(''latest'', ''Latest''), (''global'', ''Global''), (''sports'', ''Sports''), (''tech'', ''Technology'')]"

section \<open>Editing and rendering the form\<close>

text \<open>The inputs' \<open>onChangeText\<close> handlers and the category buttons' \<open>onPress\<close>:
  \<open>setFormData({...formData, field: value})\<close>.  The errors are left as they are.\<close>

datatype form_input =
    InTitle string
  | InDescription string
  | InCategory category
  | InAuthor string
  | InImageUrl string
  | InVideoUrl string

fun form_edit :: "form_input \<Rightarrow> form_state \<Rightarrow> form_state" where
  "form_edit (InTitle x) fs = fs\<lparr>fs_data := (fs_data fs)\<lparr>fd_title := x\<rparr>\<rparr>"
| "form_edit (InDescription x) fs = fs\<lparr>fs_data := (fs_data fs)\<lparr>fd_description := x\<rparr>\<rparr>"
| "form_edit (InCategory c) fs = fs\<lparr>fs_data := (fs_data fs)\<lparr>fd_category := c\<rparr>\<rparr>"
| "form_edit (InAuthor x) fs = fs\<lparr>fs_data := (fs_data fs)\<lparr>fd_author := x\<rparr>\<rparr>"
| "form_edit (InImageUrl x) fs = fs\<lparr>fs_data := (fs_data fs)\<lparr>fd_image_url := x\<rparr>\<rparr>"
| "form_edit (InVideoUrl x) fs = fs\<lparr>fs_data := (fs_data fs)\<lparr>fd_video_url := x\<rparr>\<rparr>"

text \<open>\<open>{errors.f && <Text>{errors.f}</Text>}\<close>: the message recorded for a field, an
  empty one being falsy.\<close>

definition field_error :: "(string \<times> string) list \<Rightarrow> string \<Rightarrow> string option" where
  "field_error errs k = (case map_of errs k of None \<Rightarrow> None | Some m \<Rightarrow> (if m = [] then None else Some m))"

record input_view =
  in_label :: string
  in_value :: string
  in_error :: "string option"

datatype form_item = Input input_view | CategoryPicker "(string \<times> bool) list"

datatype form_screen =
    FormSpinner string
  | FormView string "form_item list" string

text \<open>The render of \<open>AddEditNewsScreen\<close>: the spinner while a mutation is pending
  (\<open>isSubmitting\<close>), otherwise the header, the six controls in their order with
  their error lines, the category buttons with the selected one active, and the
  submit button's label.\<close>

definition form_view :: "form_mode \<Rightarrow> bool \<Rightarrow> form_state \<Rightarrow> form_screen" where
  "form_view mode pending fs =
     (let d = fs_data fs; e = fs_errors fs
      in if pending then FormSpinner (if mode = AddMode then ''Creating article...'' else ''Updating article...'')
         else FormView (header_title mode)
           [Input \<lparr>in_label = ''Title *'', in_value = fd_title d, in_error = field_error e ''title''\<rparr>,
            Input \<lparr>in_label = ''Description *'', in_value = fd_description d, in_error = field_error e ''description''\<rparr>,
            CategoryPicker (map (\<lambda>(i, n). (n, category_name (fd_category d) = i)) form_categories),
            Input \<lparr>in_label = ''Author *'', in_value = fd_author d, in_error = field_error e ''author''\<rparr>,
            Input \<lparr>in_label = ''Image URL (Optional)'', in_value = fd_image_url d, in_error = field_error e ''image_url''\<rparr>,
            Input \<lparr>in_label = ''Video URL *'', in_value = fd_video_url d, in_error = field_error e ''video_url''\<rparr>]
           (if mode = AddMode then ''Create Article'' else ''Update Article''))"

text \<open>The error line shown under the input labelled \<open>l\<close>.\<close>

definition input_error :: "string \<Rightarrow> form_screen \<Rightarrow> string option" where
  "input_error l v =
     (case v of
        FormView _ items _ \<Rightarrow>
          (case [iv. Input iv \<leftarrow> items, in_label iv = l] of iv # _ \<Rightarrow> in_error iv | [] \<Rightarrow> None)
      | _ \<Rightarrow> None)"

text \<open>A filled-in form, used to instantiate the theorems below.\<close>

definition example_form :: form_state where
  "example_form =
     \<lparr>fs_data = \<lparr>fd_title = ''T'', fd_description = ''D'', fd_image_url = [],
                  fd_video_url = ''https://example.com/w.mp4'', fd_category = Sports, fd_author = ''B''\<rparr>,
      fs_errors = []\<rparr>"

section \<open>Lemmas\<close>

lemmas url_eval = isValidUrl_def url_parses_def url_strip_def is_ascii_alpha_def is_scheme_char_def
  js_lower_char_def special_schemes_def char_of_def bit_0

lemma validateForm_Nil_iff:
  "validateForm f = [] \<longleftrightarrow>
     js_trim (fd_title f) \<noteq> [] \<and> js_trim (fd_description f) \<noteq> [] \<and> js_trim (fd_video_url f) \<noteq> [] \<and>
     isValidUrl (fd_video_url f) \<and> js_trim (fd_author f) \<noteq> [] \<and>
     (fd_image_url f = [] \<or> isValidUrl (fd_image_url f))"
  by (auto simp: validateForm_def)

lemma js_or_Some_default: "js_or (Some x) [] = x"
  by (simp add: js_or_def)

lemma handleSubmit_form [simp]:
  "fst (handleSubmit mode item now sid stamp fs s) = fs\<lparr>fs_errors := validateForm (fs_data fs)\<rparr>"
  by (simp add: handleSubmit_def Let_def split_def split: option.split)

lemma validateForm_field_error:
  "field_error (validateForm d) ''title'' = (if js_trim (fd_title d) = [] then Some ''Title is required'' else None)"
  "field_error (validateForm d) ''description'' =
     (if js_trim (fd_description d) = [] then Some ''Description is required'' else None)"
  "field_error (validateForm d) ''author'' = (if js_trim (fd_author d) = [] then Some ''Author is required'' else None)"
  "field_error (validateForm d) ''video_url'' =
     (if js_trim (fd_video_url d) = [] then Some ''Video URL is required''
      else if \<not> isValidUrl (fd_video_url d) then Some ''Please enter a valid URL'' else None)"
  "field_error (validateForm d) ''image_url'' =
     (if fd_image_url d \<noteq> [] \<and> \<not> isValidUrl (fd_image_url d) then Some ''Please enter a valid URL'' else None)"
  by (simp_all add: field_error_def validateForm_def map_of_append map_add_def split: option.split)

text \<open>C19: an invalid form is never submitted: \<open>handleSubmit\<close> only records the errors;
  the database, the query cache and the network are untouched.\<close>

theorem form_invalid_no_write:
  "validateForm (fs_data fs) \<noteq> [] \<Longrightarrow>
     handleSubmit mode item now sid stamp fs s = (fs\<lparr>fs_errors := validateForm (fs_data fs)\<rparr>, NotSubmitted, s, [])"
  by (simp add: handleSubmit_def Let_def)

text \<open>C20: saving an article from the edit form without touching a field writes back
  every field unchanged except \<open>image_url\<close>, which becomes \<open>''\<close> when the article had
  none.\<close>

theorem edit_resave_image_url:
  "apply_patch (form_patch (form_init (Some r))) r = r\<lparr>image_url := Some (js_or (image_url r) [])\<rparr>"
  by (simp add: apply_patch_def form_patch_def form_init_def js_or_def)

text \<open>C21: creating an article from a valid form with an empty image field stores the
  row with \<open>image_url = ''\<close> rather than no image, and reports it created.\<close>

theorem form_add_stores_empty_image:
  assumes "validateForm (fs_data fs) = []" and "fd_image_url (fs_data fs) = []"
    and "db_online (st_db s)" and "sid \<notin> set (ids_of (db_rows (st_db s)))"
  shows "fst (snd (handleSubmit AddMode item now sid stamp fs s)) =
           Created (Inr (Some (server_row sid stamp now (form_fields (fs_data fs))))) \<and>
         image_url (server_row sid stamp now (form_fields (fs_data fs))) = Some []"
  using assms
  by (simp add: handleSubmit_def addEdit_create_def mutate_then_invalidate_def createNews_def pg_insert_def
      server_row_def form_fields_def split_def Let_def)

text \<open>C22: after a submit, each input of the form shows the message the validation
  gave its own field and no other: the required fields their \<open>is required\<close>
  message when blank, the video URL its \<open>Please enter a valid URL\<close> when it does
  not parse, the optional image URL only when it is non-empty and does not parse.\<close>

theorem form_shows_validation:
  "input_error ''Title *'' (form_view m False (fst (handleSubmit m item now sid stamp fs s))) =
     (if js_trim (fd_title (fs_data fs)) = [] then Some ''Title is required'' else None) \<and>
   input_error ''Description *'' (form_view m False (fst (handleSubmit m item now sid stamp fs s))) =
     (if js_trim (fd_description (fs_data fs)) = [] then Some ''Description is required'' else None) \<and>
   input_error ''Author *'' (form_view m False (fst (handleSubmit m item now sid stamp fs s))) =
     (if js_trim (fd_author (fs_data fs)) = [] then Some ''Author is required'' else None) \<and>
   input_error ''Video URL *'' (form_view m False (fst (handleSubmit m item now sid stamp fs s))) =
     (if js_trim (fd_video_url (fs_data fs)) = [] then Some ''Video URL is required''
      else if \<not> isValidUrl (fd_video_url (fs_data fs)) then Some ''Please enter a valid URL'' else None) \<and>
   input_error ''Image URL (Optional)'' (form_view m False (fst (handleSubmit m item now sid stamp fs s))) =
     (if fd_image_url (fs_data fs) \<noteq> [] \<and> \<not> isValidUrl (fd_image_url (fs_data fs))
      then Some ''Please enter a valid URL'' else None)"
  by (simp add: form_view_def input_error_def Let_def validateForm_field_error)

section \<open>Witnesses\<close>

theorem form_invalid_no_write_witness:
  "handleSubmit AddMode None ''t0'' ''n2'' ''t1'' \<lparr>fs_data = form_init None, fs_errors = []\<rparr>
     \<lparr>st_db = example_db, st_client = empty_client\<rparr> =
   (\<lparr>fs_data = form_init None, fs_errors = validateForm (form_init None)\<rparr>, NotSubmitted,
    \<lparr>st_db = example_db, st_client = empty_client\<rparr>, [])"
proof -
  have h: "validateForm (fs_data \<lparr>fs_data = form_init None, fs_errors = []\<rparr>) \<noteq> []"
    by (simp add: validateForm_def form_init_def js_trim_def)
  show ?thesis using form_invalid_no_write [OF h] by simp
qed

theorem form_add_stores_empty_image_witness:
  "fst (snd (handleSubmit AddMode None ''t0'' ''n2'' ''t1'' example_form \<lparr>st_db = example_db, st_client = empty_client\<rparr>)) =
     Created (Inr (Some (server_row ''n2'' ''t1'' ''t0'' (form_fields (fs_data example_form)))))"
proof -
  have h1: "validateForm (fs_data example_form) = []"
    by (simp add: validateForm_def example_form_def js_trim_empty_iff is_js_space_def url_eval)
  have h2: "fd_image_url (fs_data example_form) = []" by (simp add: example_form_def)
  have h3: "db_online (st_db \<lparr>st_db = example_db, st_client = empty_client\<rparr>)" by (simp add: example_db_def)
  have h4: "''n2'' \<notin> set (ids_of (db_rows (st_db \<lparr>st_db = example_db, st_client = empty_client\<rparr>)))"
    by (simp add: example_db_def example_row_def ids_of_def)
  show ?thesis using form_add_stores_empty_image [OF h1 h2 h3 h4] by simp
qed

end
