(* ===== verification/Navigation.thy ===== *)
theory Navigation
  imports Screens AddEdit_Form
begin

text \<open>
  Where the user can go: the drawer menu (\<open>CustomDrawerContent.tsx\<close>), the
  categories tab (\<open>CategoriesScreen.tsx\<close>), the press handlers of the carousel and
  of the category list (\<open>HorizontalNewsCarousel.tsx\<close>, \<open>CategoryScreen.tsx\<close>), the
  category buttons of the article form, and the navigator tree with its splash
  timer (\<open>AppNavigator.tsx\<close>).  A handler is modelled by the navigation request it
  issues; how the router then updates its stacks is the library's business and is
  not modelled.
\<close>

section \<open>Navigation requests\<close>

datatype nav_request =
    NavMainApp
  | NavAdmin
  | NavCategory string
  | NavNewsDetail string
  | NavBack
  | NavOpenDrawer

section \<open>The drawer\<close>

record menu_item =
  mi_id :: string
  mi_title :: string
  mi_icon :: string
  mi_screen :: string

definition menuItems :: "menu_item list" where
  "menuItems =
     [\<lparr>mi_id = ''home'', mi_title = ''Home'', mi_icon = ''home-outline'', mi_screen = ''MainApp''\<rparr>,
      \<lparr>mi_id = ''latest'', mi_title = ''Latest'', mi_icon = ''information-circle-outline'', mi_screen = ''Category''\<rparr>,
      \<lparr>mi_id = ''sports'', mi_title = ''Sports'', mi_icon = ''football-outline'', mi_screen = ''Category''\<rparr>,
      \<lparr>mi_id = ''global'', mi_title = ''Global'', mi_icon = ''globe-outline'', mi_screen = ''Category''\<rparr>,
      \<lparr>mi_id = ''tech'', mi_title = ''Technology'', mi_icon = ''laptop-outline'', mi_screen = ''Category''\<rparr>,
      \<lparr>mi_id = ''admin'', mi_title = ''Admin Panel'', mi_icon = ''lock-closed-outline'', mi_screen = ''Admin''\<rparr>]"

text \<open>\<open>handleMenuPress\<close>: a category item opens \<open>Category\<close> inside \<open>MainApp\<close> with the
  item's id as the category.\<close>

definition handleMenuPress :: "menu_item \<Rightarrow> nav_request" where
  "handleMenuPress item =
     (if mi_screen item = ''Category'' then NavCategory (mi_id item)
      else if mi_screen item = ''Admin'' then NavAdmin
      else NavMainApp)"

text \<open>What the drawer renders: the header (logo, name, tagline), the \<open>Menu\<close> section
  with one row per item (icon, title, chevron) and the footer.  Pressing row \<open>k\<close> runs
  \<open>handleMenuPress (menuItems ! k)\<close>.\<close>

record drawer_view =
  dv_logo :: string
  dv_header :: "string list"
  dv_section :: string
  dv_rows :: "(string \<times> string) list"
  dv_footer :: "string list"

definition drawer_content :: drawer_view where
  "drawer_content =
     \<lparr>dv_logo = ''https://picsum.photos/seed/newslogo/100/100.jpg'',
      dv_header = [''NEWS APP'', ''Your Daily News Source''], dv_section = ''Menu'',
      dv_rows = map (\<lambda>i. (mi_icon i, mi_title i)) menuItems,
      dv_footer = [''Version 1.0.0'', CHR 0xA9 # '' 2024 News App'']\<rparr>"

definition drawer_press :: "nat \<Rightarrow> nav_request option" where
  "drawer_press k = (if k < length menuItems then Some (handleMenuPress (menuItems ! k)) else None)"

section \<open>The categories tab\<close>

record category_card =
  cc_id :: string
  cc_name :: string
  cc_displayName :: string
  cc_description :: string
  cc_icon :: string
  cc_color :: string
  cc_image :: string

definition categories_list :: "category_card list" where
  "categories_list =
     [\<lparr>cc_id = ''latest'', cc_name = ''latest'', cc_displayName = ''Latest News'',
       cc_description = ''Breaking news and latest updates'', cc_icon = ''time-outline'', cc_color = ''#ff3b30'',
       cc_image = ''https://picsum.photos/seed/latest/400/200.jpg''\<rparr>,
      \<lparr>cc_id = ''global'', cc_name = ''global'', cc_displayName = ''Global'',
       cc_description = ''News from around the world'', cc_icon = ''globe-outline'', cc_color = ''#007AFF'',
       cc_image = ''https://picsum.photos/seed/global/400/200.jpg''\<rparr>,
      \<lparr>cc_id = ''sports'', cc_name = ''sports'', cc_displayName = ''Sports'',
       cc_description = ''Latest sports news and updates'', cc_icon = ''football-outline'', cc_color = ''#34c759'',
       cc_image = ''https://picsum.photos/seed/sports/400/200.jpg''\<rparr>,
      \<lparr>cc_id = ''tech'', cc_name = ''tech'', cc_displayName = ''Technology'',
       cc_description = ''Tech news and innovations'', cc_icon = ''laptop-outline'', cc_color = ''#5856d6'',
       cc_image = ''https://picsum.photos/seed/tech/400/200.jpg''\<rparr>]"

definition handleCategoryPress :: "category_card \<Rightarrow> nav_request" where
  "handleCategoryPress c = NavCategory (cc_id c)"

text \<open>The render of \<open>CategoriesScreen\<close>: the header and one card per category
  (\<open>renderCategoryItem\<close>: image, icon on the category's colour, name, description);
  pressing card \<open>k\<close> runs \<open>handleCategoryPress (categories_list ! k)\<close>.\<close>

record category_tile =
  ct_image :: string
  ct_color :: string
  ct_icon :: string
  ct_name :: string
  ct_description :: string

definition renderCategoryItem :: "category_card \<Rightarrow> category_tile" where
  "renderCategoryItem c =
     \<lparr>ct_image = cc_image c, ct_color = cc_color c, ct_icon = cc_icon c, ct_name = cc_displayName c,
      ct_description = cc_description c\<rparr>"

definition categories_view :: "string list \<times> category_tile list" where
  "categories_view = ([''Categories'', ''Browse news by category''], map renderCategoryItem categories_list)"

definition categories_press :: "nat \<Rightarrow> nav_request option" where
  "categories_press k = (if k < length categories_list then Some (handleCategoryPress (categories_list ! k)) else None)"

section \<open>Carousels, cards and the article form\<close>

definition carousel_handleNewsPress :: "news_item \<Rightarrow> nav_request" where
  "carousel_handleNewsPress n = NavNewsDetail (news_id n)"

text \<open>\<open>handleSeeMore\<close>: \<open>if (category)\<close>, an empty string being falsy.\<close>

definition carousel_handleSeeMore :: "string option \<Rightarrow> nav_request option" where
  "carousel_handleSeeMore c = (case c of Some x \<Rightarrow> (if x = [] then None else Some (NavCategory x)) | None \<Rightarrow> None)"

definition category_handleNewsPress :: "news_item \<Rightarrow> nav_request" where
  "category_handleNewsPress n = NavNewsDetail (news_id n)"

text \<open>The \<open>See more\<close> targets of the home screen as rendered.\<close>

definition home_see_more :: "screen_view \<Rightarrow> nav_request list" where
  "home_see_more v =
     (case v of HomeView cs \<Rightarrow> List.map_filter (\<lambda>c. carousel_handleSeeMore (car_see_more c)) cs | _ \<Rightarrow> [])"

text \<open>Every category request a control of the application can issue.\<close>

definition ui_category_requests :: "screen_view \<Rightarrow> nav_request list" where
  "ui_category_requests home =
     map handleMenuPress menuItems @ map handleCategoryPress categories_list @ home_see_more home"

section \<open>The navigator\<close>

datatype tab = HomeTab | CategoriesTab | SettingsTab

text \<open>\<open>tabBarIcon\<close> of the tab navigator.\<close>

definition tabBarIcon :: "string \<Rightarrow> bool \<Rightarrow> string" where
  "tabBarIcon route focused =
     (if route = ''Home'' then (if focused then ''home'' else ''home-outline'')
      else if route = ''Categories'' then (if focused then ''grid'' else ''grid-outline'')
      else if route = ''Settings'' then (if focused then ''settings'' else ''settings-outline'')
      else ''help-outline'')"

definition tab_routes :: "string list" where
  "tab_routes = [''Home'', ''Categories'', ''Settings'']"

definition stack_routes :: "string list" where
  "stack_routes = [''Main'', ''NewsDetail'', ''Category'']"

definition drawer_routes :: "string list" where
  "drawer_routes = [''MainApp'', ''Admin'']"

text \<open>\<open>AppNavigator\<close>: the splash screen for the first 5000 ms, then the drawer.\<close>

datatype app_root = SplashRoot | DrawerRoot

definition app_root_at :: "millis \<Rightarrow> app_root" where
  "app_root_at t = (if t < 5000 then SplashRoot else DrawerRoot)"

section \<open>Screen headers\<close>

text \<open>The header of a screen: its title and the icon button on its left with the request
  the button issues.  The tabs open the drawer (\<open>AppNavigator.tsx\<close>, the tab
  navigator's \<open>headerLeft\<close>); the detail and category screens replace the stack's
  back button with their own in a layout effect, and the category screen also replaces
  the navigator's placeholder title \<open>Category\<close> by the category's display name.\<close>

record screen_header =
  hdr_title :: string
  hdr_icon :: string
  hdr_left :: nav_request

definition tab_headerLeft :: "string \<times> nav_request" where
  "tab_headerLeft = (''menu'', NavOpenDrawer)"

definition detail_header :: screen_header where
  "detail_header = \<lparr>hdr_title = ''News Detail'', hdr_icon = ''arrow-back'', hdr_left = NavBack\<rparr>"

definition category_header :: "string \<Rightarrow> screen_header" where
  "category_header c = \<lparr>hdr_title = categoryDisplayName c, hdr_icon = ''arrow-back'', hdr_left = NavBack\<rparr>"

section \<open>Lemmas\<close>

lemma category_header_title:
  "c \<in> {''latest'', ''global'', ''sports'', ''tech''} \<Longrightarrow>
   hdr_title (category_header c) \<noteq> ''Category'' \<and> hdr_left (category_header c) = NavBack"
  by (auto simp: category_header_def categoryDisplayName_def)

lemma category_of_name_four:
  "category_of_name c \<noteq> None \<longleftrightarrow> c \<in> {''latest'', ''global'', ''sports'', ''tech''}"
  by (simp add: category_of_name_def)

lemma home_see_more_targets:
  "set (home_see_more (home_view l g s t)) \<subseteq>
     {NavCategory ''latest'', NavCategory ''global'', NavCategory ''sports'', NavCategory ''tech''}"
  by (auto simp: home_see_more_def home_view_def Let_def news_carousel_def carousel_handleSeeMore_def
      map_filter_simps)

text \<open>C38: every category the application can navigate to, from the drawer, the
  categories tab or a \<open>See more\<close> of the home screen, is one of the four categories,
  so the category screen's query is enabled and it shows a proper title.\<close>

theorem nav_category_targets_valid:
  assumes "NavCategory c \<in> set (ui_category_requests (home_view l g s t))"
  shows "category_of_name c \<noteq> None \<and> categoryDisplayName c \<noteq> ''Category'' \<and> enabled (useNewsByCategory c)"
proof -
  have "c \<in> {''latest'', ''global'', ''sports'', ''tech''}"
    using assms home_see_more_targets [of l g s t]
    by (auto simp: ui_category_requests_def menuItems_def handleMenuPress_def categories_list_def
        handleCategoryPress_def)
  then show ?thesis
    by (auto simp: category_of_name_def categoryDisplayName_def useNewsByCategory_def)
qed

text \<open>The four places that list the categories agree: the drawer's category
  items, the categories tab, the category slice's initial state and the buttons of
  the article form all name exactly the four members of the category type.\<close>

theorem category_lists_agree:
  "set (map mi_id (filter (\<lambda>i. mi_screen i = ''Category'') menuItems)) = set (map category_name all_categories) \<and>
   map cc_id categories_list = map category_name all_categories \<and>
   map ce_id (categories category_initial) = map category_name all_categories \<and>
   map fst form_categories = map category_name all_categories"
  by (auto simp: menuItems_def categories_list_def category_initial_def form_categories_def all_categories_def)

section \<open>Witnesses\<close>

theorem nav_category_targets_valid_witness:
  "category_of_name ''sports'' \<noteq> None \<and> categoryDisplayName ''sports'' \<noteq> ''Category'' \<and>
   enabled (useNewsByCategory ''sports'')"
proof -
  let ?r = "example_result None None"
  have h: "NavCategory ''sports'' \<in> set (ui_category_requests (home_view ?r ?r ?r ?r))"
    by (simp add: ui_category_requests_def menuItems_def handleMenuPress_def)
  show ?thesis using nav_category_targets_valid [OF h] by simp
qed

end
