(* ===== verification/Gateway_Refinement.thy ===== *)
theory Gateway_Refinement
  imports News_Service
begin

text \<open>
  An abstract specification of the gateway and the refinement lemma that the
  service implements it.  The abstract state is what \<open>newsService\<close> promises its
  callers: a connection flag and a finite map from article id to article
  (\<open>news_table\<close>).  \<open>abs_of\<close> reads a concrete table as that map (well defined
  because ids are unique, \<open>db_wf\<close>).  The service's four by-id operations are one
  interface, \<open>news_op\<close>, with a concrete step \<open>exec_op\<close> (the methods of
  \<open>src/api/newsService.ts\<close> over the PostgREST model) and an abstract step
  \<open>spec_op\<close> (map lookup, insert of a fresh id, patch, removal).  The refinement
  is functional, \<open>map_prod id abs_of (exec_op op db) = spec_op op (abs_of db)\<close>, and
  extends to every sequence of operations.
\<close>

section \<open>The abstract table\<close>

type_synonym news_table = "string \<rightharpoonup> news_item"

record abs_db =
  a_online :: bool
  a_table :: news_table

definition row_map :: "news_item list \<Rightarrow> news_table" where
  "row_map rs = map_of (map (\<lambda>r. (news_id r, r)) rs)"

definition abs_of :: "news_db \<Rightarrow> abs_db" where
  "abs_of db = \<lparr>a_online = db_online db, a_table = row_map (db_rows db)\<rparr>"

datatype news_op =
    OpGet string
  | OpCreate news_fields string string string
  | OpUpdate string news_patch
  | OpDelete string

type_synonym op_result = "gateway_error + news_item option"

text \<open>The by-id methods of \<open>newsService\<close> as one interface; \<open>deleteNews\<close> returns no row.\<close>

definition exec_op :: "news_op \<Rightarrow> news_db \<Rightarrow> op_result \<times> news_db" where
  "exec_op op db =
     (case op of
        OpGet i \<Rightarrow> (getNewsById db i, db)
      | OpCreate f now sid stamp \<Rightarrow> createNews db f now sid stamp
      | OpUpdate i p \<Rightarrow> updateNews db i p
      | OpDelete i \<Rightarrow> (let (r, db') = deleteNews db i in (map_sum id (\<lambda>_. None) r, db')))"

text \<open>What the gateway promises: the operations on an id-indexed map.\<close>

definition spec_op :: "news_op \<Rightarrow> abs_db \<Rightarrow> op_result \<times> abs_db" where
  "spec_op op a =
     (if \<not> a_online a then (Inl NetworkFailure, a)
      else case op of
        OpGet i \<Rightarrow> ((case a_table a i of None \<Rightarrow> Inl SingleRowError | Some r \<Rightarrow> Inr (Some r)), a)
      | OpCreate f now sid stamp \<Rightarrow>
          (if sid \<in> dom (a_table a) then (Inl UniqueViolation, a)
           else (Inr (Some (server_row sid stamp now f)),
                 a\<lparr>a_table := (a_table a)(sid \<mapsto> server_row sid stamp now f)\<rparr>))
      | OpUpdate i p \<Rightarrow>
          (case a_table a i of
             None \<Rightarrow> (Inl SingleRowError, a)
           | Some r \<Rightarrow>
               (let r' = apply_patch p r
                in if news_id r' \<noteq> i \<and> news_id r' \<in> dom (a_table a) then (Inl UniqueViolation, a)
                   else (Inr (Some r'), a\<lparr>a_table := ((a_table a)(i := None))(news_id r' \<mapsto> r')\<rparr>)))
      | OpDelete i \<Rightarrow> (Inr None, a\<lparr>a_table := (a_table a)(i := None)\<rparr>))"

fun exec_ops :: "news_op list \<Rightarrow> news_db \<Rightarrow> op_result list \<times> news_db" where
  "exec_ops [] db = ([], db)"
| "exec_ops (op # ops) db =
     (let (r, db1) = exec_op op db; (rs, db2) = exec_ops ops db1 in (r # rs, db2))"

fun spec_ops :: "news_op list \<Rightarrow> abs_db \<Rightarrow> op_result list \<times> abs_db" where
  "spec_ops [] a = ([], a)"
| "spec_ops (op # ops) a =
     (let (r, a1) = spec_op op a; (rs, a2) = spec_ops ops a1 in (r # rs, a2))"

section \<open>Lemmas\<close>

lemma dom_row_map [simp]: "dom (row_map rs) = set (ids_of rs)"
  by (simp add: row_map_def ids_of_def dom_map_of_conv_image_fst image_image)

lemma row_map_append_fresh:
  "news_id r \<notin> set (ids_of rs) \<Longrightarrow> row_map (rs @ [r]) = (row_map rs)(news_id r \<mapsto> r)"
  by (induction rs) (auto simp: row_map_def ids_of_def fun_eq_iff)

lemma row_map_delete: "row_map (filter (\<lambda>r. news_id r \<noteq> i) rs) = (row_map rs)(i := None)"
  by (induction rs) (auto simp: row_map_def fun_eq_iff)

lemma filter_id_row_map:
  "distinct (ids_of rs) \<Longrightarrow>
     filter (\<lambda>r. news_id r = i) rs = (case row_map rs i of None \<Rightarrow> [] | Some r \<Rightarrow> [r])"
proof (induction rs)
  case Nil
  then show ?case by (simp add: row_map_def)
next
  case (Cons x rs)
  then have "news_id x \<notin> set (ids_of rs)" and d: "distinct (ids_of rs)" by (simp_all add: ids_of_def)
  then show ?case
    using Cons.IH [OF d] filter_fresh_id [of "news_id x" rs]
    by (auto simp: row_map_def)
qed

text \<open>The row an update patches is the only one whose id changes.\<close>

lemma ids_of_patch_unique:
  assumes "\<forall>x\<in>set rs. news_id x = i \<longrightarrow> x = r"
  shows "ids_of (map (\<lambda>x. if news_id x = i then apply_patch p x else x) rs) =
           map (\<lambda>y. if y = i then news_id (apply_patch p r) else y) (ids_of rs)"
  using assms by (induction rs) (auto simp: ids_of_def)

lemma distinct_replace:
  "distinct xs \<Longrightarrow> i \<in> set xs \<Longrightarrow>
     distinct (map (\<lambda>y. if y = i then j else y) xs) \<longleftrightarrow> j = i \<or> j \<notin> set xs"
proof (induction xs)
  case Nil
  then show ?case by simp
next
  case (Cons x xs)
  show ?case
  proof (cases "x = i")
    case True
    with Cons.prems have "i \<notin> set xs" by simp
    then have "map (\<lambda>y. if y = i then j else y) xs = xs" by (induction xs) auto
    with True Cons.prems show ?thesis by auto
  next
    case False
    with Cons.prems have "i \<in> set xs" "distinct xs" "x \<notin> set xs" by auto
    moreover have "set (map (\<lambda>y. if y = i then j else y) xs) = insert j (set xs - {i})"
      using \<open>i \<in> set xs\<close> by auto
    ultimately show ?thesis using Cons.IH False by auto
  qed
qed

lemma row_map_patch:
  assumes "distinct (ids_of rs)" and "row_map rs i = Some r"
    and "distinct (ids_of (map (\<lambda>x. if news_id x = i then apply_patch p x else x) rs))"
  shows "row_map (map (\<lambda>x. if news_id x = i then apply_patch p x else x) rs) =
           ((row_map rs)(i := None))(news_id (apply_patch p r) \<mapsto> apply_patch p r)"
  using assms
proof (induction rs)
  case Nil
  then show ?case by (simp add: row_map_def)
next
  case (Cons x rs)
  let ?g = "\<lambda>x. if news_id x = i then apply_patch p x else x"
  have dx: "news_id x \<notin> set (ids_of rs)" and d: "distinct (ids_of rs)"
    using Cons.prems(1) by (simp_all add: ids_of_def)
  show ?case
  proof (cases "news_id x = i")
    case True
    with Cons.prems(2) have "x = r" by (simp add: row_map_def)
    have "map ?g rs = rs"
      using dx True by (induction rs) (auto simp: ids_of_def)
    moreover have "row_map rs i = None"
      using dx True dom_row_map [of rs] by blast
    ultimately show ?thesis using True \<open>x = r\<close>
      by (auto simp: row_map_def fun_eq_iff)
  next
    case False
    with Cons.prems(2) have ri: "row_map rs i = Some r" by (simp add: row_map_def)
    have d': "distinct (ids_of (map ?g rs))" and nx: "news_id x \<notin> set (ids_of (map ?g rs))"
      using Cons.prems(3) False by (simp_all add: ids_of_def)
    have "r \<in> set rs" using ri by (auto simp: row_map_def dest: map_of_SomeD)
    then have "apply_patch p r \<in> set (map ?g rs)"
      using ri d filter_id_row_map [OF d, of i] by (force simp: filter_eq_Cons_iff)
    then have "news_id (apply_patch p r) \<in> set (ids_of (map ?g rs))"
      unfolding ids_of_def set_map by (rule imageI)
    with nx have "news_id (apply_patch p r) \<noteq> news_id x" by auto
    then show ?thesis using Cons.IH [OF d ri d'] False
      by (auto simp: row_map_def fun_eq_iff)
  qed
qed


lemma patch_rows_absent:
  "i \<notin> set (ids_of rs) \<Longrightarrow> map (\<lambda>x. if news_id x = i then apply_patch p x else x) rs = rs"
  by (induction rs) (auto simp: ids_of_def)

lemma row_map_unique:
  "distinct (ids_of rs) \<Longrightarrow> row_map rs i = Some r \<Longrightarrow> \<forall>x\<in>set rs. news_id x = i \<longrightarrow> x = r"
proof (intro ballI impI)
  fix x assume "distinct (ids_of rs)" "row_map rs i = Some r" "x \<in> set rs" "news_id x = i"
  then have f: "filter (\<lambda>r. news_id r = i) rs = [r]"
    using filter_id_row_map [of rs i] by simp
  have "x \<in> set (filter (\<lambda>r. news_id r = i) rs)"
    using \<open>x \<in> set rs\<close> \<open>news_id x = i\<close> by simp
  then show "x = r" unfolding f by simp
qed

lemma pg_single_simps:
  "pg_single (pg_ok []) = pg_fail SingleRowError"
  "resp_error (pg_fail e) = Some e"
  by (simp_all add: pg_single_def pg_ok_def pg_fail_def)

lemma updateNews_refines:
  assumes "db_wf db" and "db_online db"
  shows "map_prod id abs_of (updateNews db i p) = spec_op (OpUpdate i p) (abs_of db)"
proof (cases "row_map (db_rows db) i")
  case None
  then have "i \<notin> set (ids_of (db_rows db))" using dom_row_map [of "db_rows db"] by blast
  moreover have "filter (\<lambda>x. news_id x = i) (db_rows db) = []"
    using assms(1) None filter_id_row_map [of "db_rows db" i] by (simp add: db_wf_def)
  ultimately show ?thesis using assms None
    by (simp add: updateNews_def pg_update_def patch_rows_absent spec_op_def abs_of_def db_wf_def
        pg_single_simps)
next
  case (Some r)
  let ?g = "\<lambda>x. if news_id x = i then apply_patch p x else x"
  let ?r' = "apply_patch p r"
  have d: "distinct (ids_of (db_rows db))" using assms(1) by (simp add: db_wf_def)
  have i: "i \<in> set (ids_of (db_rows db))" using Some dom_row_map [of "db_rows db"] by blast
  have ids: "ids_of (map ?g (db_rows db)) = map (\<lambda>y. if y = i then news_id ?r' else y) (ids_of (db_rows db))"
    using row_map_unique [OF d Some] by (rule ids_of_patch_unique)
  have dist: "distinct (ids_of (map ?g (db_rows db))) \<longleftrightarrow> news_id ?r' = i \<or> news_id ?r' \<notin> set (ids_of (db_rows db))"
    unfolding ids using distinct_replace [OF d i] .
  have f: "filter (\<lambda>x. news_id x = i) (db_rows db) = [r]"
    using filter_id_row_map [OF d, of i] Some by simp
  show ?thesis
  proof (cases "distinct (ids_of (map ?g (db_rows db)))")
    case True
    with row_map_patch [OF d Some True] dist Some f assms(2) show ?thesis
      by (auto simp: updateNews_def pg_update_def spec_op_def abs_of_def Let_def)
  next
    case False
    with dist Some assms(2) show ?thesis
      by (auto simp: updateNews_def pg_update_def spec_op_def abs_of_def Let_def)
  qed
qed


lemma exec_op_wf: "db_wf db \<Longrightarrow> db_wf (snd (exec_op op db))"
  by (cases op) (simp_all add: exec_op_def createNews_wf updateNews_wf split_def Let_def deleteNews_wf)

lemma exec_op_refines:
  assumes "db_wf db"
  shows "map_prod id abs_of (exec_op op db) = spec_op op (abs_of db)"
proof (cases "db_online db")
  case False
  then show ?thesis
    by (cases op) (simp_all add: exec_op_def spec_op_def abs_of_def getNewsById_def createNews_def
        updateNews_def deleteNews_def pg_select_offline pg_single_simps pg_insert_def pg_update_def pg_delete_def)
next
  case True
  have d: "distinct (ids_of (db_rows db))" using assms by (simp add: db_wf_def)
  show ?thesis
  proof (cases op)
    case (OpGet i)
    then show ?thesis using True filter_id_row_map [OF d, of i]
      by (simp add: exec_op_def spec_op_def abs_of_def getNewsById_def pg_select_online pg_single_simps
          split: option.split)
  next
    case (OpCreate f now sid stamp)
    then show ?thesis using True dom_row_map [of "db_rows db"]
      by (auto simp: exec_op_def spec_op_def abs_of_def createNews_def pg_insert_def server_row_def
          row_map_append_fresh)
  next
    case (OpUpdate i p)
    then show ?thesis using updateNews_refines [OF assms True] by (simp add: exec_op_def)
  next
    case (OpDelete i)
    then show ?thesis using True
      by (simp add: exec_op_def spec_op_def abs_of_def deleteNews_def pg_delete_def row_map_delete)
  qed
qed

lemma row_map_member: "distinct (ids_of rs) \<Longrightarrow> r \<in> set rs \<Longrightarrow> row_map rs (news_id r) = Some r"
  using filter_id_row_map [of rs "news_id r"] filter_unique_id [of rs r] by (auto split: option.splits)

text \<open>What a client of the gateway reads after an update, from the abstract
  specification: the update returns the patched row and a read by id finds it.\<close>

lemma updateNews_then_get:
  assumes "db_wf db" and "db_online db" and "r \<in> set (db_rows db)" and "p_id p = None"
  shows "fst (updateNews db (news_id r) p) = Inr (Some (apply_patch p r)) \<and>
         getNewsById (snd (updateNews db (news_id r) p)) (news_id r) = Inr (Some (apply_patch p r))"
proof -
  let ?i = "news_id r" and ?db' = "snd (updateNews db (news_id r) p)"
  have rm: "row_map (db_rows db) ?i = Some r"
    using assms(1,3) by (simp add: db_wf_def row_map_member)
  have u: "map_prod id abs_of (updateNews db ?i p) = spec_op (OpUpdate ?i p) (abs_of db)"
    using assms(1,2) by (rule updateNews_refines)
  then have r1: "fst (updateNews db ?i p) = Inr (Some (apply_patch p r))"
    and a1: "abs_of ?db' = snd (spec_op (OpUpdate ?i p) (abs_of db))"
    using assms(2,4) rm by (simp_all add: spec_op_def abs_of_def prod_eq_iff Let_def)
  have "a_table (abs_of ?db') ?i = Some (apply_patch p r)" and "a_online (abs_of ?db')"
    using a1 assms(2,4) rm by (simp_all add: spec_op_def abs_of_def Let_def)
  moreover have "map_prod id abs_of (exec_op (OpGet ?i) ?db') = spec_op (OpGet ?i) (abs_of ?db')"
    using updateNews_wf [OF assms(1)] by (rule exec_op_refines)
  ultimately have "getNewsById ?db' ?i = Inr (Some (apply_patch p r))"
    by (simp add: exec_op_def spec_op_def)
  with r1 show ?thesis by simp
qed

text \<open>C33: the service refines the abstract table: for a well-formed table, running any
  sequence of by-id reads, creates, updates and deletes through \<open>newsService\<close> gives
  the same results, and a table with the same abstraction, as the abstract map
  operations, errors (network failure, the \<open>.single()\<close> error, duplicate id)
  included.\<close>

theorem gateway_refines_table:
  "db_wf db \<Longrightarrow> map_prod id abs_of (exec_ops ops db) = spec_ops ops (abs_of db)"
proof (induction ops arbitrary: db)
  case Nil
  then show ?case by simp
next
  case (Cons op ops)
  obtain r db1 where e: "exec_op op db = (r, db1)" by (cases "exec_op op db")
  have "spec_op op (abs_of db) = (r, abs_of db1)"
    using exec_op_refines [OF Cons.prems, of op] e by simp
  moreover have "db_wf db1" using exec_op_wf [OF Cons.prems, of op] e by simp
  moreover obtain rs db2 where e2: "exec_ops ops db1 = (rs, db2)" by (cases "exec_ops ops db1")
  ultimately show ?case using Cons.IH [of db1] e
    by (simp add: Let_def) (metis case_prod_conv)
qed


section \<open>Witnesses\<close>

theorem gateway_refines_table_witness:
  "db_wf example_db \<and>
   fst (exec_ops [OpDelete ''n1'', OpGet ''n1''] example_db) = [Inr None, Inl SingleRowError]"
proof -
  have w: "db_wf example_db" by (simp add: db_wf_def example_db_def ids_of_def)
  have "map_prod id abs_of (exec_ops [OpDelete ''n1'', OpGet ''n1''] example_db) =
          spec_ops [OpDelete ''n1'', OpGet ''n1''] (abs_of example_db)"
    by (rule gateway_refines_table [OF w])
  then have "fst (exec_ops [OpDelete ''n1'', OpGet ''n1''] example_db) =
               fst (spec_ops [OpDelete ''n1'', OpGet ''n1''] (abs_of example_db))"
    by (metis fst_map_prod id_apply)
  also have "\<dots> = [Inr None, Inl SingleRowError]"
    by (simp add: spec_op_def abs_of_def example_db_def example_row_def row_map_def)
  finally show ?thesis using w by simp
qed

end
