(* ===== verification/Widgets.thy ===== *)
theory Widgets
  imports News_Prelude Complex_Main
begin

text \<open>
  The presentational widgets that hold no application state: \<open>LoadingSpinner.tsx\<close>
  (its default props and the optional message line), \<open>SplashScreen.tsx\<close> (shown by
  the navigator for its first 5000 ms) and \<open>HorizontalTextTicker.tsx\<close>, whose layout
  handlers and effect start an endless scrolling animation.  The ticker is imported
  by \<open>HomeScreen.tsx\<close> but rendered nowhere.  Its widths are JavaScript numbers,
  modelled as reals; a division by a zero speed, which JavaScript answers with
  \<open>Infinity\<close>, is the value \<open>None\<close>.
\<close>

section \<open>LoadingSpinner\<close>

record spinner_view =
  sp_size :: string
  sp_color :: string
  sp_message :: "string option"

text \<open>\<open>({size = 'large', color = '#007AFF', message = 'Loading...'})\<close>: a default
  applies to an absent prop; the message line is rendered when the message is truthy.\<close>

definition LoadingSpinner :: "string option \<Rightarrow> string option \<Rightarrow> string option \<Rightarrow> spinner_view" where
  "LoadingSpinner sz color message =
     (let m = (case message of None \<Rightarrow> ''Loading...'' | Some x \<Rightarrow> x)
      in \<lparr>sp_size = (case sz of None \<Rightarrow> ''large'' | Some x \<Rightarrow> x),
          sp_color = (case color of None \<Rightarrow> ''#007AFF'' | Some x \<Rightarrow> x),
          sp_message = (if m = [] then None else Some m)\<rparr>)"

section \<open>SplashScreen\<close>

record splash_view =
  spl_icon :: string
  spl_title :: string
  spl_dots :: nat

definition SplashScreen :: splash_view where
  "SplashScreen = \<lparr>spl_icon = ''newspaper'', spl_title = ''APP NEWS'', spl_dots = 3\<rparr>"

section \<open>HorizontalTextTicker\<close>

text \<open>The component's state: the two measured widths and the running
  \<open>Animated.loop\<close>, as its duration and target \<open>translateX\<close>.  Starting a new
  animation on the same value stops the previous one.\<close>

record ticker_state =
  textWidth :: real
  containerWidth :: real
  ticker_loop :: "(real option \<times> real) option"

definition ticker_init :: "real \<Rightarrow> ticker_state" where
  "ticker_init screenWidth = \<lparr>textWidth = 0, containerWidth = screenWidth, ticker_loop = None\<rparr>"

text \<open>\<open>duration = (textWidth + containerWidth) / speed * 1000\<close>.\<close>

definition ticker_duration :: "real \<Rightarrow> real \<Rightarrow> real \<Rightarrow> real option" where
  "ticker_duration speed tw cw = (if speed = 0 then None else Some ((tw + cw) / speed * 1000))"

text \<open>The effect, run after a render in which one of its dependencies changed.\<close>

definition ticker_effect :: "real \<Rightarrow> ticker_state \<Rightarrow> ticker_state" where
  "ticker_effect speed st =
     (if textWidth st > 0
      then st\<lparr>ticker_loop := Some (ticker_duration speed (textWidth st) (containerWidth st),
                                   - textWidth st - containerWidth st)\<rparr>
      else st)"

text \<open>\<open>handleTextLayout\<close> and \<open>handleContainerLayout\<close>: setting a state to the value
  it has does not re-render, so the effect does not run.\<close>

definition handleTextLayout :: "real \<Rightarrow> real \<Rightarrow> ticker_state \<Rightarrow> ticker_state" where
  "handleTextLayout speed w st = (if w = textWidth st then st else ticker_effect speed (st\<lparr>textWidth := w\<rparr>))"

definition handleContainerLayout :: "real \<Rightarrow> real \<Rightarrow> ticker_state \<Rightarrow> ticker_state" where
  "handleContainerLayout speed w st =
     (if w = containerWidth st then st else ticker_effect speed (st\<lparr>containerWidth := w\<rparr>))"

inductive ticker_reach :: "real \<Rightarrow> real \<Rightarrow> ticker_state \<Rightarrow> bool" for speed screenWidth where
  init: "0 \<le> screenWidth \<Longrightarrow> ticker_reach speed screenWidth (ticker_effect speed (ticker_init screenWidth))"
| text_layout: "ticker_reach speed screenWidth st \<Longrightarrow> 0 \<le> w \<Longrightarrow>
     ticker_reach speed screenWidth (handleTextLayout speed w st)"
| container_layout: "ticker_reach speed screenWidth st \<Longrightarrow> 0 \<le> w \<Longrightarrow>
     ticker_reach speed screenWidth (handleContainerLayout speed w st)"

text \<open>The running loop scrolls at \<open>speed\<close> pixels per second: its distance over its
  duration is the speed, whatever the widths it was started with.\<close>

definition ticker_rate_ok :: "real \<Rightarrow> ticker_state \<Rightarrow> bool" where
  "ticker_rate_ok speed st \<longleftrightarrow>
     (0 \<le> textWidth st \<and> 0 \<le> containerWidth st \<and>
      (\<forall>d v. ticker_loop st = Some (Some d, v) \<longrightarrow> v < 0 \<and> - v / d * 1000 = speed))"

section \<open>Lemmas\<close>

lemma ticker_effect_loop:
  "ticker_loop (ticker_effect speed st) = Some (d, v) \<Longrightarrow> ticker_loop st = Some (d, v) \<or>
     (textWidth st > 0 \<and> d = ticker_duration speed (textWidth st) (containerWidth st) \<and>
      v = - textWidth st - containerWidth st)"
  by (auto simp: ticker_effect_def split: if_splits)


lemma ticker_effect_rate:
  assumes "ticker_rate_ok speed st"
  shows "ticker_rate_ok speed (ticker_effect speed st)"
proof (cases "0 < textWidth st")
  case False
  then show ?thesis using assms by (simp add: ticker_effect_def)
next
  case True
  let ?a = "textWidth st" and ?b = "containerWidth st"
  have sum: "0 < ?a + ?b" using True assms by (simp add: ticker_rate_ok_def)
  have "- (- ?a - ?b) / ((?a + ?b) / speed * 1000) * 1000 = speed" if "speed \<noteq> 0"
  proof -
    have "- (- ?a - ?b) / ((?a + ?b) / speed * 1000) * 1000 = (?a + ?b) / (?a + ?b) * speed"
      using that by (simp add: field_simps)
    also have "\<dots> = speed" using sum by simp
    finally show ?thesis .
  qed
  note rate = this
  have loop: "ticker_loop (ticker_effect speed st) = Some (ticker_duration speed ?a ?b, - ?a - ?b)"
    using True by (simp add: ticker_effect_def)
  have w: "textWidth (ticker_effect speed st) = ?a" "containerWidth (ticker_effect speed st) = ?b"
    by (simp_all add: ticker_effect_def)
  show ?thesis unfolding ticker_rate_ok_def
  proof (intro conjI allI impI)
    show "0 \<le> textWidth (ticker_effect speed st)" "0 \<le> containerWidth (ticker_effect speed st)"
      using assms True by (simp_all add: w ticker_rate_ok_def)
  next
    fix d v assume "ticker_loop (ticker_effect speed st) = Some (Some d, v)"
    then have sp: "speed \<noteq> 0" and d: "d = (?a + ?b) / speed * 1000" and v: "v = - ?a - ?b"
      by (auto simp: loop ticker_duration_def split: if_splits)
    show "v < 0" using sum v by simp
    show "- v / d * 1000 = speed" unfolding d v by (rule rate [OF sp])
  qed
qed

lemma ticker_reach_rate: "ticker_reach speed w st \<Longrightarrow> ticker_rate_ok speed st"
proof (induction rule: ticker_reach.induct)
  case init
  then show ?case by (intro ticker_effect_rate) (simp add: ticker_rate_ok_def ticker_init_def)
next
  case (text_layout st w)
  then show ?case
    by (auto simp: handleTextLayout_def intro!: ticker_effect_rate) (simp add: ticker_rate_ok_def)
next
  case (container_layout st w)
  then show ?case
    by (auto simp: handleContainerLayout_def intro!: ticker_effect_rate) (simp add: ticker_rate_ok_def)
qed

end
