(* ===== verification/Date_Format.thy ===== *)
theory Date_Format
  imports Screens "HOL-Library.Monad_Syntax"
begin

text \<open>
  The dates the reader sees.  \<open>createNews\<close> (\<open>src/api/newsService.ts\<close>) stamps an
  article with \<open>new Date().toISOString()\<close>; \<open>NewsCard\<close>
  (\<open>src/components/news/NewsCard.tsx\<close>) and \<open>NewsDetailScreen\<close>
  (\<open>src/screens/NewsDetailScreen.tsx\<close>) render \<open>published_at\<close> through their
  \<open>formatDate\<close>, \<open>new Date(s).toLocaleDateString('en-US', ...)\<close>.  The platform
  part is modelled from ECMA-262: time values are \<open>int\<close> ms since the epoch, the
  calendar is the proleptic Gregorian one of 21.4.1, \<open>Date.parse\<close> reads the date
  time string format, and the local zone is a fixed offset \<open>tz\<close> in ms (no daylight
  saving changes).  The lemmas show that \<open>civil_of\<close> splits a time value into fields
  that \<open>MakeDay\<close>/\<open>MakeTime\<close> put back together, that printing and parsing are
  inverse, and how the zone of a string decides the instant.
\<close>

section \<open>ECMAScript time values\<close>

text \<open>Day number and year arithmetic of ECMA-262 (21.4.1): \<open>DayFromYear\<close>, \<open>DaysInYear\<close>,
  floors written as \<open>div\<close> on \<open>int\<close>.\<close>

definition msPerDay :: int where
  "msPerDay = 86400000"

definition DayFromYear :: "int \<Rightarrow> int" where
  "DayFromYear y = 365 * (y - 1970) + (y - 1969) div 4 - (y - 1901) div 100 + (y - 1601) div 400"

definition DaysInYear :: "int \<Rightarrow> int" where
  "DaysInYear y =
     (if y mod 4 \<noteq> 0 then 365 else if y mod 100 \<noteq> 0 then 366 else if y mod 400 \<noteq> 0 then 365 else 366)"

definition InLeapYear :: "int \<Rightarrow> bool" where
  "InLeapYear y \<longleftrightarrow> DaysInYear y = 366"

lemma div_succ_int: "1 < (k::int) \<Longrightarrow> (a + 1) div k = a div k + (if (a + 1) mod k = 0 then 1 else 0)"
proof -
  assume k1: "1 < k"
  have "(a + 1) div k = a div k + 1 div k + (a mod k + 1 mod k) div k"
    by (rule div_add1_eq)
  moreover have "(a mod k + 1 mod k) div k = (if (a + 1) mod k = 0 then 1 else 0)"
  proof -
    have m1: "1 mod k = 1" using k1 by simp
    have r: "0 \<le> a mod k" "a mod k < k" using k1 by simp_all
    have am: "(a + 1) mod k = (a mod k + 1) mod k" by (simp add: mod_add_left_eq)
    show ?thesis
    proof (cases "a mod k + 1 = k")
      case True
      then show ?thesis using am m1 k1 by simp
    next
      case False
      with r have lt: "0 \<le> a mod k + 1" "a mod k + 1 < k" by simp_all
      then have "(a mod k + 1) div k = 0" and "(a mod k + 1) mod k = a mod k + 1"
        by (simp_all add: div_pos_pos_trivial mod_pos_pos_trivial)
      then show ?thesis using am m1 r by simp
    qed
  qed
  moreover have "1 div k = 0" using k1 by (simp add: div_pos_pos_trivial)
  ultimately show ?thesis by simp
qed

lemma DayFromYear_succ: "DayFromYear (y + 1) = DayFromYear y + DaysInYear y"
proof -
  have b4: "(y - 1969 + 1) div 4 = (y - 1969) div 4 + (if y mod 4 = 0 then 1 else 0)"
    using div_succ_int [of 4 "y - 1969"] by (simp add: mod_diff_right_eq [symmetric])
  have b100: "(y - 1901 + 1) div 100 = (y - 1901) div 100 + (if y mod 100 = 0 then 1 else 0)"
    using div_succ_int [of 100 "y - 1901"] by (simp add: mod_diff_right_eq [symmetric])
  have b400: "(y - 1601 + 1) div 400 = (y - 1601) div 400 + (if y mod 400 = 0 then 1 else 0)"
    using div_succ_int [of 400 "y - 1601"] by (simp add: mod_diff_right_eq [symmetric])
  have m: "y mod 100 = 0 \<Longrightarrow> y mod 4 = 0" "y mod 400 = 0 \<Longrightarrow> y mod 100 = 0"
    by presburger+
  have e: "y + 1 - 1969 = y - 1969 + 1" "y + 1 - 1901 = y - 1901 + 1" "y + 1 - 1601 = y - 1601 + 1"
    by simp_all
  show ?thesis
    unfolding DayFromYear_def DaysInYear_def e b4 b100 b400 using m by auto
qed

text \<open>\<open>YearFromTime\<close>: the largest \<open>y\<close> with \<open>DayFromYear y \<le> d\<close>, searched upwards from
  a year known to start no later than \<open>d\<close>.\<close>

function year_up :: "int \<Rightarrow> int \<Rightarrow> int" where
  "year_up d y = (if DayFromYear (y + 1) \<le> d then year_up d (y + 1) else y)"
  by auto
termination
proof (relation "measure (\<lambda>(d, y). nat (d - DayFromYear y))")
  show "wf (measure (\<lambda>(d, y). nat (d - DayFromYear y)))" by simp
next
  fix d y :: int
  assume "DayFromYear (y + 1) \<le> d"
  moreover have "DayFromYear (y + 1) = DayFromYear y + DaysInYear y" by (rule DayFromYear_succ)
  moreover have "0 < DaysInYear y" by (simp add: DaysInYear_def)
  ultimately show "((d, y + 1), d, y) \<in> measure (\<lambda>(d, y). nat (d - DayFromYear y))" by simp
qed

declare year_up.simps [simp del]

definition YearFromDay :: "int \<Rightarrow> int" where
  "YearFromDay d = year_up d (1970 + (if 0 \<le> d then d div 366 else d div 365))"

text \<open>\<open>MonthFromTime\<close> and \<open>DateFromTime\<close> by the table of ECMA-262 (21.4.1.11, 21.4.1.12),
  on the day within the year \<open>k\<close>; months are numbered from 1 here, as ISO strings
  write them.\<close>

definition month_start :: "bool \<Rightarrow> nat \<Rightarrow> int" where
  "month_start leap m =
     (let l = (if leap then 1 else 0)
      in if m \<le> 1 then 0 else if m = 2 then 31 else if m = 3 then 59 + l else if m = 4 then 90 + l
         else if m = 5 then 120 + l else if m = 6 then 151 + l else if m = 7 then 181 + l
         else if m = 8 then 212 + l else if m = 9 then 243 + l else if m = 10 then 273 + l
         else if m = 11 then 304 + l else if m = 12 then 334 + l else 365 + l)"

definition MonthFromDWY :: "bool \<Rightarrow> int \<Rightarrow> nat" where
  "MonthFromDWY leap k =
     (if k < month_start leap 2 then 1 else if k < month_start leap 3 then 2
      else if k < month_start leap 4 then 3 else if k < month_start leap 5 then 4
      else if k < month_start leap 6 then 5 else if k < month_start leap 7 then 6
      else if k < month_start leap 8 then 7 else if k < month_start leap 9 then 8
      else if k < month_start leap 10 then 9 else if k < month_start leap 11 then 10
      else if k < month_start leap 12 then 11 else 12)"

text \<open>A time value read as calendar fields (\<open>YearFromTime\<close>, \<open>MonthFromTime\<close>,
  \<open>DateFromTime\<close>, \<open>WeekDay\<close>, \<open>HourFromTime\<close>, ...).\<close>

record civil =
  cv_year :: int
  cv_month :: nat
  cv_date :: nat
  cv_weekday :: nat
  cv_hours :: nat
  cv_minutes :: nat
  cv_seconds :: nat
  cv_ms :: nat

definition civil_of :: "int \<Rightarrow> civil" where
  "civil_of t =
     (let d = t div msPerDay; w = t mod msPerDay; y = YearFromDay d; leap = InLeapYear y;
          k = d - DayFromYear y; m = MonthFromDWY leap k
      in \<lparr>cv_year = y, cv_month = m, cv_date = nat (k - month_start leap m + 1),
          cv_weekday = nat ((d + 4) mod 7), cv_hours = nat (w div 3600000),
          cv_minutes = nat (w div 60000 mod 60), cv_seconds = nat (w div 1000 mod 60),
          cv_ms = nat (w mod 1000)\<rparr>)"

text \<open>\<open>MakeDay\<close>, \<open>MakeTime\<close>, \<open>MakeDate\<close> for fields in range, and \<open>TimeClip\<close>, whose
  \<open>NaN\<close> is \<open>None\<close>.\<close>

definition MakeDay :: "int \<Rightarrow> nat \<Rightarrow> nat \<Rightarrow> int" where
  "MakeDay y m dt = DayFromYear y + month_start (InLeapYear y) m + int dt - 1"

definition MakeTime :: "nat \<Rightarrow> nat \<Rightarrow> nat \<Rightarrow> nat \<Rightarrow> int" where
  "MakeTime h mi sec ms = int (h * 3600000 + mi * 60000 + sec * 1000 + ms)"

definition MakeDate :: "int \<Rightarrow> int \<Rightarrow> int" where
  "MakeDate day time = day * msPerDay + time"

definition TimeClip :: "int \<Rightarrow> int option" where
  "TimeClip t = (if 8640000000000000 < \<bar>t\<bar> then None else Some t)"

section \<open>Decimal digits\<close>

definition digit_char :: "nat \<Rightarrow> char" where
  "digit_char n = char_of (48 + n)"

definition is_digit :: "char \<Rightarrow> bool" where
  "is_digit c \<longleftrightarrow> CHR ''0'' \<le> c \<and> c \<le> CHR ''9''"

definition digits_val :: "string \<Rightarrow> nat" where
  "digits_val s = foldl (\<lambda>a c. 10 * a + (of_char c - 48)) 0 s"

text \<open>\<open>n\<close> digits, zero-padded on the left.\<close>

fun pad :: "nat \<Rightarrow> nat \<Rightarrow> string" where
  "pad 0 v = []"
| "pad (Suc n) v = pad n (v div 10) @ [digit_char (v mod 10)]"

text \<open>A number without padding, as the \<open>numeric\<close> fields print it.\<close>

function nat_str :: "nat \<Rightarrow> string" where
  "nat_str n = (if n < 10 then [digit_char n] else nat_str (n div 10) @ [digit_char (n mod 10)])"
  by auto
termination by (relation "measure id") auto

declare nat_str.simps [simp del]

text \<open>Exactly \<open>n\<close> digits at the front of a string.\<close>

definition parse_fixed :: "nat \<Rightarrow> string \<Rightarrow> (nat \<times> string) option" where
  "parse_fixed n s =
     (let p = take n s in if length p = n \<and> list_all is_digit p then Some (digits_val p, drop n s) else None)"

definition lit :: "char \<Rightarrow> string \<Rightarrow> string option" where
  "lit c s = (case s of x # r \<Rightarrow> (if x = c then Some r else None) | [] \<Rightarrow> None)"

section \<open>\<open>Date.prototype.toISOString\<close> and \<open>Date.parse\<close>\<close>

text \<open>\<open>YYYY-MM-DDTHH:mm:ss.sssZ\<close>, with a signed six-digit year outside 0 to 9999; a time
  value outside the range of dates throws (\<open>None\<close>).\<close>

definition toISOString :: "int \<Rightarrow> string option" where
  "toISOString t =
     (if 8640000000000000 < \<bar>t\<bar> then None
      else (let c = civil_of t; y = cv_year c
            in Some ((if 0 \<le> y \<and> y \<le> 9999 then pad 4 (nat y)
                      else (if y < 0 then CHR ''-'' else CHR ''+'') # pad 6 (nat \<bar>y\<bar>)) @
                     ''-'' @ pad 2 (cv_month c) @ ''-'' @ pad 2 (cv_date c) @ ''T'' @
                     pad 2 (cv_hours c) @ '':'' @ pad 2 (cv_minutes c) @ '':'' @ pad 2 (cv_seconds c) @
                     ''.'' @ pad 3 (cv_ms c) @ ''Z'')))"

text \<open>The date part \<open>YYYY[-MM[-DD]]\<close>; absent fields are 1.\<close>

definition parse_date :: "string \<Rightarrow> ((nat \<times> nat \<times> nat) \<times> string) option" where
  "parse_date s =
     do {
       (y, r) \<leftarrow> parse_fixed 4 s;
       (case r of
          c # r1 \<Rightarrow>
            (if c = CHR ''-'' then
               do {
                 (m, r2) \<leftarrow> parse_fixed 2 r1;
                 (case r2 of
                    c2 # r3 \<Rightarrow>
                      (if c2 = CHR ''-'' then do { (dt, r4) \<leftarrow> parse_fixed 2 r3; Some ((y, m, dt), r4) }
                       else Some ((y, m, 1), r2))
                  | [] \<Rightarrow> Some ((y, m, 1), []))
               }
             else Some ((y, 1, 1), r))
        | [] \<Rightarrow> Some ((y, 1, 1), []))
     }"

text \<open>The time part \<open>HH:mm[:ss[.s...]]\<close>.  A fraction of any length is read to the
  millisecond (its first three digits), as the engines do with the microseconds of
  database timestamps; the standard format has exactly three.\<close>

definition parse_time :: "string \<Rightarrow> ((nat \<times> nat \<times> nat \<times> nat) \<times> string) option" where
  "parse_time s =
     do {
       (h, r1) \<leftarrow> parse_fixed 2 s;
       r2 \<leftarrow> lit CHR '':'' r1;
       (mi, r3) \<leftarrow> parse_fixed 2 r2;
       (case r3 of
          c # r4 \<Rightarrow>
            (if c = CHR '':'' then
               do {
                 (sec, r5) \<leftarrow> parse_fixed 2 r4;
                 (case r5 of
                    c' # r6 \<Rightarrow>
                      (if c' = CHR ''.'' then
                         (let f = takeWhile is_digit r6
                          in if f = [] then None
                             else Some ((h, mi, sec, digits_val (take 3 (f @ ''000''))), dropWhile is_digit r6))
                       else Some ((h, mi, sec, 0), r5))
                  | [] \<Rightarrow> Some ((h, mi, sec, 0), []))
               }
             else Some ((h, mi, 0, 0), r3))
        | [] \<Rightarrow> Some ((h, mi, 0, 0), []))
     }"

text \<open>The zone: none (local time, \<open>Some None\<close>), \<open>Z\<close>, or \<open>+HH:mm\<close> / \<open>-HH:mm\<close> in ms.\<close>

definition parse_zone :: "string \<Rightarrow> int option option" where
  "parse_zone s =
     (case s of
        [] \<Rightarrow> Some None
      | c # r \<Rightarrow>
          (if c = CHR ''Z'' then (if r = [] then Some (Some 0) else None)
           else if c = CHR ''+'' \<or> c = CHR ''-'' then
             do {
               (hh, r1) \<leftarrow> parse_fixed 2 r;
               r2 \<leftarrow> lit CHR '':'' r1;
               (mm, r3) \<leftarrow> parse_fixed 2 r2;
               (if r3 = [] \<and> hh \<le> 23 \<and> mm \<le> 59
                then Some (Some ((if c = CHR ''-'' then -1 else 1) * int ((hh * 60 + mm) * 60000)))
                else None)
             }
           else None))"

text \<open>\<open>Date.parse\<close> on the date time string format (ECMA-262 21.4.1.32) with four-digit
  years, in a zone \<open>tz\<close> ms ahead of UTC: a date alone is UTC, a date and time without
  zone is local time.  Out-of-range fields and any other string give \<open>NaN\<close>.\<close>

definition date_parse :: "int \<Rightarrow> string \<Rightarrow> int option" where
  "date_parse tz s =
     do {
       ((y, m, dt), r) \<leftarrow> parse_date s;
       (if \<not> (1 \<le> m \<and> m \<le> 12 \<and> 1 \<le> dt \<and> dt \<le> 31) then None
        else if r = [] then TimeClip (MakeDate (MakeDay (int y) m dt) 0)
        else (case r of
                c # r' \<Rightarrow>
                  (if c \<noteq> CHR ''T'' then None
                   else do {
                     ((h, mi, sec, ms), r2) \<leftarrow> parse_time r';
                     z \<leftarrow> parse_zone r2;
                     (if h \<le> 24 \<and> mi \<le> 59 \<and> sec \<le> 59 \<and> (h = 24 \<longrightarrow> mi = 0 \<and> sec = 0 \<and> ms = 0)
                      then TimeClip (MakeDate (MakeDay (int y) m dt) (MakeTime h mi sec ms) -
                                     (case z of None \<Rightarrow> tz | Some off \<Rightarrow> off))
                      else None)
                   })
              | [] \<Rightarrow> None))
     }"

section \<open>\<open>toLocaleDateString('en-US', ...)\<close>\<close>

definition month_short_names :: "string list" where
  "month_short_names = [''Jan'', ''Feb'', ''Mar'', ''Apr'', ''May'', ''Jun'', ''Jul'', ''Aug'', ''Sep'', ''Oct'', ''Nov'', ''Dec'']"

definition month_long_names :: "string list" where
  "month_long_names = [''January'', ''February'', ''March'', ''April'', ''May'', ''June'', ''July'', ''August'',
     ''September'', ''October'', ''November'', ''December'']"

definition weekday_long_names :: "string list" where
  "weekday_long_names = [''Sunday'', ''Monday'', ''Tuesday'', ''Wednesday'', ''Thursday'', ''Friday'', ''Saturday'']"

text \<open>The \<open>numeric\<close> year is the year of the era (1 BC for year 0).\<close>

definition year_text :: "int \<Rightarrow> string" where
  "year_text y = nat_str (nat (if 1 \<le> y then y else 1 - y))"

text \<open>\<open>formatDate\<close> of \<open>NewsCard\<close>: \<open>{month: 'short', day: 'numeric', year: 'numeric'}\<close>
  in the local zone, e.g. \<open>Jan 5, 2024\<close>; an unparsable string gives \<open>Invalid Date\<close>.\<close>

definition card_formatDate :: "int \<Rightarrow> string \<Rightarrow> string" where
  "card_formatDate tz s =
     (case date_parse tz s of
        None \<Rightarrow> ''Invalid Date''
      | Some t \<Rightarrow>
          (let c = civil_of (t + tz)
           in month_short_names ! (cv_month c - 1) @ '' '' @ nat_str (cv_date c) @ '', '' @ year_text (cv_year c)))"

text \<open>\<open>formatDate\<close> of \<open>NewsDetailScreen\<close>: weekday, month and day, year, and the
  two-digit 12-hour time, e.g. \<open>Friday, January 5, 2024 at 09:05 AM\<close>.\<close>

definition detail_formatDate :: "int \<Rightarrow> string \<Rightarrow> string" where
  "detail_formatDate tz s =
     (case date_parse tz s of
        None \<Rightarrow> ''Invalid Date''
      | Some t \<Rightarrow>
          (let c = civil_of (t + tz); h = cv_hours c
           in weekday_long_names ! cv_weekday c @ '', '' @ month_long_names ! (cv_month c - 1) @ '' '' @
              nat_str (cv_date c) @ '', '' @ year_text (cv_year c) @ '' at '' @
              pad 2 (if h mod 12 = 0 then 12 else h mod 12) @ '':'' @ pad 2 (cv_minutes c) @ '' '' @
              (if h < 12 then ''AM'' else ''PM'')))"

definition NewsCard_date :: "int \<Rightarrow> news_item \<Rightarrow> string" where
  "NewsCard_date tz n = card_formatDate tz (card_date (news_card n))"

definition NewsDetail_date :: "int \<Rightarrow> news_item \<Rightarrow> string" where
  "NewsDetail_date tz n = detail_formatDate tz (det_date (detail_of n))"

section \<open>Lemmas: the calendar\<close>

lemma DaysInYear_range: "365 \<le> DaysInYear y" "DaysInYear y \<le> 366"
  by (simp_all add: DaysInYear_def)

lemma DayFromYear_1970 [simp]: "DayFromYear 1970 = 0"
  by (simp add: DayFromYear_def)

lemma DayFromYear_mono: "y \<le> y' \<Longrightarrow> DayFromYear y \<le> DayFromYear y'"
proof (induction y' rule: int_ge_induct)
  case base
  then show ?case by simp
next
  case (step i)
  then show ?case using DayFromYear_succ [of i] DaysInYear_range(1) [of i] by simp
qed

lemma DayFromYear_up: "DayFromYear (1970 + int n) \<le> 366 * int n"
proof (induction n)
  case 0
  then show ?case by simp
next
  case (Suc n)
  have "DayFromYear (1970 + int (Suc n)) = DayFromYear (1970 + int n) + DaysInYear (1970 + int n)"
    using DayFromYear_succ [of "1970 + int n"] by (simp add: add.assoc)
  with Suc.IH DaysInYear_range(2) [of "1970 + int n"] show ?case by simp
qed

lemma DayFromYear_down: "DayFromYear (1970 - int n) \<le> -365 * int n"
proof (induction n)
  case 0
  then show ?case by simp
next
  case (Suc n)
  have "DayFromYear (1970 - int n) = DayFromYear (1970 - int (Suc n)) + DaysInYear (1970 - int (Suc n))"
    using DayFromYear_succ [of "1970 - int (Suc n)"] by simp
  with Suc.IH DaysInYear_range(1) [of "1970 - int (Suc n)"] show ?case by simp
qed

lemma YearFromDay_start: "DayFromYear (1970 + (if 0 \<le> d then d div 366 else d div 365)) \<le> d"
proof (cases "0 \<le> d")
  case True
  have "DayFromYear (1970 + int (nat (d div 366))) \<le> 366 * int (nat (d div 366))"
    by (rule DayFromYear_up)
  moreover have "366 * (d div 366) \<le> d" using pos_mod_sign [of 366 d] div_mult_mod_eq [of d 366] by linarith
  moreover have "0 \<le> d div 366" using True by simp
  ultimately show ?thesis using True by simp
next
  case False
  have "DayFromYear (1970 - int (nat (- (d div 365)))) \<le> -365 * int (nat (- (d div 365)))"
    by (rule DayFromYear_down)
  moreover have "365 * (d div 365) \<le> d" using pos_mod_sign [of 365 d] div_mult_mod_eq [of d 365] by linarith
  moreover have "d div 365 \<le> 0" using False by (simp add: div_nonpos_pos_le0)
  ultimately show ?thesis using False by simp
qed

lemma year_up_bounds:
  "DayFromYear y \<le> d \<Longrightarrow> DayFromYear (year_up d y) \<le> d \<and> d < DayFromYear (year_up d y + 1)"
proof (induction d y rule: year_up.induct)
  case (1 d y)
  show ?case
  proof (cases "DayFromYear (y + 1) \<le> d")
    case True
    then show ?thesis using "1.IH" [OF True True] by (simp add: year_up.simps [of d y])
  next
    case False
    then show ?thesis using "1.prems" by (simp add: year_up.simps [of d y])
  qed
qed

lemma YearFromDay_bounds:
  "DayFromYear (YearFromDay d) \<le> d" "d < DayFromYear (YearFromDay d + 1)"
  using year_up_bounds [OF YearFromDay_start [of d]] by (simp_all add: YearFromDay_def)

lemma YearFromDay_unique:
  assumes "DayFromYear y \<le> d" and "d < DayFromYear (y + 1)"
  shows "YearFromDay d = y"
proof (rule ccontr)
  let ?y = "YearFromDay d"
  assume ne: "?y \<noteq> y"
  show False
  proof (cases "?y < y")
    case True
    then have "DayFromYear (?y + 1) \<le> DayFromYear y" by (simp add: DayFromYear_mono)
    with YearFromDay_bounds(2) [of d] assms(1) show False by simp
  next
    case False
    with ne have "y + 1 \<le> ?y" by simp
    then have "DayFromYear (y + 1) \<le> DayFromYear ?y" by (rule DayFromYear_mono)
    with YearFromDay_bounds(1) [of d] assms(2) show False by simp
  qed
qed

lemma DaysInYear_leap: "DaysInYear y = 365 + (if InLeapYear y then 1 else 0)"
  by (simp add: InLeapYear_def DaysInYear_def)

lemma MonthFromDWY_bounds:
  assumes "0 \<le> k" and "k < 365 + (if leap then 1 else 0)"
  shows "1 \<le> MonthFromDWY leap k \<and> MonthFromDWY leap k \<le> 12 \<and>
         month_start leap (MonthFromDWY leap k) \<le> k \<and> k < month_start leap (Suc (MonthFromDWY leap k)) \<and>
         k - month_start leap (MonthFromDWY leap k) < 31"
  using assms by (cases leap) (auto simp: MonthFromDWY_def month_start_def)

section \<open>Lemmas: reading a time value and making it back\<close>

lemma time_fields: "w div 3600000 * 3600000 + w div 60000 mod 60 * 60000 + w div 1000 mod 60 * 1000 + w mod 1000 = (w::int)"
proof -
  have a: "w div 60000 = w div 1000 div 60" using zdiv_zmult2_eq [of 60 w 1000] by simp
  have b: "w div 3600000 = w div 60000 div 60" using zdiv_zmult2_eq [of 60 w 60000] by simp
  have "w = w div 1000 * 1000 + w mod 1000" by simp
  moreover have "w div 1000 = w div 1000 div 60 * 60 + w div 1000 mod 60" by simp
  moreover have "w div 60000 = w div 60000 div 60 * 60 + w div 60000 mod 60" by simp
  ultimately show ?thesis unfolding a b by linarith
qed

lemma civil_of_fields:
  fixes t :: int
  defines "c \<equiv> civil_of t"
  shows "1 \<le> cv_month c \<and> cv_month c \<le> 12 \<and> 1 \<le> cv_date c \<and> cv_date c \<le> 31 \<and>
         cv_hours c \<le> 23 \<and> cv_minutes c \<le> 59 \<and> cv_seconds c \<le> 59 \<and> cv_ms c \<le> 999 \<and>
         MakeDay (cv_year c) (cv_month c) (cv_date c) = t div msPerDay \<and>
         MakeTime (cv_hours c) (cv_minutes c) (cv_seconds c) (cv_ms c) = t mod msPerDay"
proof -
  let ?d = "t div msPerDay" and ?w = "t mod msPerDay"
  let ?y = "YearFromDay ?d"
  let ?leap = "InLeapYear ?y"
  let ?k = "?d - DayFromYear ?y"
  let ?m = "MonthFromDWY ?leap ?k"
  have k0: "0 \<le> ?k" using YearFromDay_bounds(1) [of ?d] by simp
  have k1: "?k < 365 + (if ?leap then 1 else 0)"
    using YearFromDay_bounds(2) [of ?d] DayFromYear_succ [of ?y] DaysInYear_leap [of ?y] by simp
  note mb = MonthFromDWY_bounds [OF k0 k1]
  have w0: "0 \<le> ?w" and w1: "?w < 86400000" by (simp_all add: msPerDay_def)
  have f: "cv_year c = ?y" "cv_month c = ?m" "cv_date c = nat (?k - month_start ?leap ?m + 1)"
    "cv_hours c = nat (?w div 3600000)" "cv_minutes c = nat (?w div 60000 mod 60)"
    "cv_seconds c = nat (?w div 1000 mod 60)" "cv_ms c = nat (?w mod 1000)"
    by (simp_all add: c_def civil_of_def Let_def)
  have h: "?w div 3600000 \<le> 23" using w1 by simp
  have md: "MakeDay (cv_year c) (cv_month c) (cv_date c) = ?d"
    using mb by (simp add: f MakeDay_def)
  have "MakeTime (cv_hours c) (cv_minutes c) (cv_seconds c) (cv_ms c) =
          ?w div 3600000 * 3600000 + ?w div 60000 mod 60 * 60000 + ?w div 1000 mod 60 * 1000 + ?w mod 1000"
    using w0 by (simp add: f MakeTime_def nat_mult_distrib nat_add_distrib [symmetric] pos_imp_zdiv_nonneg_iff)
  then have mt: "MakeTime (cv_hours c) (cv_minutes c) (cv_seconds c) (cv_ms c) = ?w"
    by (simp only: time_fields)
  have r: "?w div 60000 mod 60 < 60" "?w div 1000 mod 60 < 60" "?w mod 1000 < 1000" by simp_all
  have dt: "1 \<le> ?k - month_start ?leap ?m + 1" "?k - month_start ?leap ?m + 1 \<le> 31" using mb by linarith+
  have "1 \<le> cv_month c" "cv_month c \<le> 12" using mb by (simp_all add: f)
  moreover have "1 \<le> cv_date c" "cv_date c \<le> 31" using dt unfolding f by linarith+
  moreover have "cv_hours c \<le> 23" using h unfolding f by linarith
  moreover have "cv_minutes c \<le> 59" "cv_seconds c \<le> 59" "cv_ms c \<le> 999" using r unfolding f by linarith+
  ultimately show ?thesis using md mt by blast
qed

lemma MakeDate_civil_of:
  "MakeDate (MakeDay (cv_year (civil_of t)) (cv_month (civil_of t)) (cv_date (civil_of t)))
     (MakeTime (cv_hours (civil_of t)) (cv_minutes (civil_of t)) (cv_seconds (civil_of t)) (cv_ms (civil_of t))) = t"
  using civil_of_fields [of t] by (simp add: MakeDate_def)

section \<open>Lemmas: digits\<close>

lemma of_char_digit_char [simp]: "n < 10 \<Longrightarrow> of_char (digit_char n) = 48 + n"
  by (simp add: digit_char_def of_char_of)

lemma is_digit_digit_char [simp]: "n < 10 \<Longrightarrow> is_digit (digit_char n)"
  by (simp add: is_digit_def less_eq_char_def)

lemma length_pad [simp]: "length (pad n v) = n"
  by (induction n arbitrary: v) simp_all

lemma pad_digits [simp]: "list_all is_digit (pad n v)"
  by (induction n arbitrary: v) simp_all

lemma digits_val_snoc [simp]: "digits_val (xs @ [c]) = 10 * digits_val xs + (of_char c - 48)"
  by (simp add: digits_val_def)

lemma digits_val_pad: "digits_val (pad n v) = v mod 10 ^ n"
proof (induction n arbitrary: v)
  case 0
  then show ?case by (simp add: digits_val_def)
next
  case (Suc n)
  have "v mod (10 * 10 ^ n) = 10 * (v div 10 mod 10 ^ n) + v mod 10"
    by (simp add: mod_mult2_eq)
  then show ?case using Suc.IH [of "v div 10"] by simp
qed

lemma parse_fixed_pad [simp]: "v < 10 ^ n \<Longrightarrow> parse_fixed n (pad n v @ r) = Some (v, r)"
  by (simp add: parse_fixed_def digits_val_pad)

lemma pad_all_digits: "x \<in> set (pad n v) \<Longrightarrow> is_digit x"
  using pad_digits [of n v] by (simp add: list_all_iff)

lemma takeWhile_pad [simp]: "\<not> is_digit c \<Longrightarrow> takeWhile is_digit (pad n v @ c # r) = pad n v"
  by (subst takeWhile_append2) (simp_all add: pad_all_digits)

lemma dropWhile_pad [simp]: "\<not> is_digit c \<Longrightarrow> dropWhile is_digit (pad n v @ c # r) = c # r"
  by (subst dropWhile_append2) (simp_all add: pad_all_digits)

section \<open>Printing and parsing time values\<close>

lemma civil_year_range:
  assumes "0 \<le> cv_year (civil_of t)" and "cv_year (civil_of t) \<le> 9999"
  shows "\<bar>t\<bar> \<le> 8640000000000000"
proof -
  let ?d = "t div msPerDay" and ?y = "cv_year (civil_of t)"
  have y: "?y = YearFromDay ?d" by (simp add: civil_of_def Let_def)
  have "DayFromYear 0 \<le> DayFromYear ?y" using assms(1) by (rule DayFromYear_mono)
  moreover have "DayFromYear (?y + 1) \<le> DayFromYear 10000" using assms(2) by (simp add: DayFromYear_mono)
  moreover note YearFromDay_bounds [of ?d]
  moreover have "DayFromYear 0 = -719528" "DayFromYear 10000 = 2932897" by (simp_all add: DayFromYear_def)
  ultimately have d: "-719528 \<le> ?d" "?d < 2932897" unfolding y by linarith+
  have "t = ?d * 86400000 + t mod msPerDay" by (simp add: msPerDay_def)
  moreover have "0 \<le> t mod msPerDay" "t mod msPerDay < 86400000" by (simp_all add: msPerDay_def)
  ultimately show ?thesis using d by linarith
qed

lemma toISOString_four_digit:
  assumes "0 \<le> cv_year (civil_of t)" and "cv_year (civil_of t) \<le> 9999"
  shows "toISOString t =
           Some (pad 4 (nat (cv_year (civil_of t))) @ CHR ''-'' # pad 2 (cv_month (civil_of t)) @ CHR ''-'' #
                 pad 2 (cv_date (civil_of t)) @ CHR ''T'' # pad 2 (cv_hours (civil_of t)) @ CHR '':'' #
                 pad 2 (cv_minutes (civil_of t)) @ CHR '':'' # pad 2 (cv_seconds (civil_of t)) @ CHR ''.'' #
                 pad 3 (cv_ms (civil_of t)) @ [CHR ''Z''])"
  using civil_year_range [OF assms] assms by (simp add: toISOString_def Let_def)

lemma parse_date_pad:
  "\<lbrakk>y < 10000; m < 100; dt < 100\<rbrakk> \<Longrightarrow>
   parse_date (pad 4 y @ CHR ''-'' # pad 2 m @ CHR ''-'' # pad 2 dt @ r) = Some ((y, m, dt), r)"
  by (simp add: parse_date_def)

lemma parse_time_pad:
  assumes "h < 100" "mi < 100" "sec < 100" "ms < 1000" "\<not> is_digit c"
  shows "parse_time (pad 2 h @ CHR '':'' # pad 2 mi @ CHR '':'' # pad 2 sec @ CHR ''.'' # pad 3 ms @ c # r) =
         Some ((h, mi, sec, ms), c # r)"
proof -
  have "pad 3 ms \<noteq> []" by (metis length_pad list.size(3) zero_neq_numeral)
  moreover have "digits_val (take 3 (pad 3 ms @ ''000'')) = ms" using assms(4) by (simp add: digits_val_pad)
  ultimately show ?thesis using assms by (simp add: parse_time_def lit_def)
qed

lemma not_digit_Z [simp]: "\<not> is_digit CHR ''Z''"
  by (simp add: is_digit_def less_eq_char_def)

lemma parse_zone_Z [simp]: "parse_zone ''Z'' = Some (Some 0)"
  by (simp add: parse_zone_def)

lemma civil_of_pad_bounds:
  "cv_month (civil_of t) < 100" "cv_date (civil_of t) < 100" "cv_hours (civil_of t) < 100"
  "cv_minutes (civil_of t) < 100" "cv_seconds (civil_of t) < 100" "cv_ms (civil_of t) < 1000"
  using civil_of_fields [of t] by simp_all

lemma date_parse_toISOString:
  assumes "0 \<le> cv_year (civil_of t)" and "cv_year (civil_of t) \<le> 9999" and "toISOString t = Some s"
  shows "date_parse tz s = Some t"
proof -
  let ?c = "civil_of t"
  have y: "nat (cv_year ?c) < 10000" "int (nat (cv_year ?c)) = cv_year ?c" using assms by simp_all
  note f = civil_of_fields [of t] civil_of_pad_bounds [of t]
  have s: "s = the (toISOString t)" using assms(3) by simp
  have "date_parse tz s =
          TimeClip (MakeDate (MakeDay (cv_year ?c) (cv_month ?c) (cv_date ?c))
                             (MakeTime (cv_hours ?c) (cv_minutes ?c) (cv_seconds ?c) (cv_ms ?c)))"
    unfolding s toISOString_four_digit [OF assms(1,2)] option.sel
    using y f by (simp add: date_parse_def parse_date_pad parse_time_pad del: One_nat_def)
  also have "\<dots> = Some t"
    using civil_year_range [OF assms(1,2)] by (simp add: MakeDate_civil_of TimeClip_def)
  finally show ?thesis .
qed

lemma civil_year: "cv_year (civil_of t) = YearFromDay (t div msPerDay)"
  by (simp add: civil_of_def Let_def)

lemma YearFromDay_0: "YearFromDay 0 = 1970"
  by (rule YearFromDay_unique) (simp_all add: DayFromYear_def)

lemma takeWhile_pad_all [simp]: "takeWhile is_digit (pad n v) = pad n v"
  by (simp add: takeWhile_eq_all_conv pad_all_digits)

lemma dropWhile_pad_all [simp]: "dropWhile is_digit (pad n v) = []"
  by (simp add: dropWhile_eq_Nil_conv pad_all_digits)

lemma parse_time_pad_end:
  assumes "h < 100" "mi < 100" "sec < 100" "ms < 1000"
  shows "parse_time (pad 2 h @ CHR '':'' # pad 2 mi @ CHR '':'' # pad 2 sec @ CHR ''.'' # pad 3 ms) =
         Some ((h, mi, sec, ms), [])"
proof -
  have "pad 3 ms \<noteq> []" by (metis length_pad list.size(3) zero_neq_numeral)
  moreover have "digits_val (take 3 (pad 3 ms @ ''000'')) = ms" using assms(4) by (simp add: digits_val_pad)
  ultimately show ?thesis using assms by (simp add: parse_time_def lit_def)
qed

lemma createNews_published:
  "fst (createNews db f now sid stamp) = Inr (Some n) \<Longrightarrow> n = server_row sid stamp now f"
  unfolding createNews_def pg_insert_def
  by (auto simp: pg_single_def throw_or_data_def pg_ok_def pg_fail_def Let_def split: if_splits)

section \<open>Properties\<close>

text \<open>C34: Round trip of the stamp \<open>createNews\<close> writes: for every instant \<open>t\<close> of a
  four-digit year, \<open>new Date().toISOString()\<close> yields a string, and the article a
  successful \<open>createNews\<close> returns carries a \<open>published_at\<close> that \<open>new Date(...)\<close>
  reads back as \<open>t\<close>, in every time zone.\<close>

theorem createNews_stamp_roundtrip:
  assumes "0 \<le> cv_year (civil_of t)" and "cv_year (civil_of t) \<le> 9999"
  shows "\<exists>now. toISOString t = Some now \<and>
           (\<forall>n. fst (createNews db f now sid stamp) = Inr (Some n) \<longrightarrow> date_parse tz (published_at n) = Some t)"
proof -
  obtain now where iso: "toISOString t = Some now" using toISOString_four_digit [OF assms] by blast
  have "date_parse tz (published_at n) = Some t" if "fst (createNews db f now sid stamp) = Inr (Some n)" for n
    using createNews_published [OF that] date_parse_toISOString [OF assms iso] by (simp add: server_row_def)
  with iso show ?thesis by blast
qed

theorem createNews_stamp_roundtrip_witness:
  "0 \<le> cv_year (civil_of 1704450600000) \<and> cv_year (civil_of 1704450600000) \<le> 9999 \<and>
   (\<exists>now. toISOString 1704450600000 = Some now \<and>
      (\<forall>n. fst (createNews example_db example_fields now ''n2'' ''t1'') = Inr (Some n) \<longrightarrow>
           date_parse (-18000000) (published_at n) = Some 1704450600000))"
proof -
  have "YearFromDay 19727 = 2024" by (rule YearFromDay_unique) (simp_all add: DayFromYear_def)
  then have "cv_year (civil_of 1704450600000) = 2024" by (simp add: civil_year msPerDay_def)
  then show ?thesis
    using createNews_stamp_roundtrip [where t = 1704450600000 and tz = "-18000000" and db = example_db
                                      and f = example_fields and sid = "''n2''" and stamp = "''t1''"]
    by simp
qed

text \<open>How \<open>new Date(s)\<close> reads the zone of an ISO string: a date alone is midnight
  UTC, a date and time without zone is local time (\<open>tz\<close> ms ahead of UTC), and with
  \<open>Z\<close> the instant does not depend on the zone.\<close>

lemma date_parse_zones:
  assumes "y < 10000" "1 \<le> m" "m \<le> 12" "1 \<le> dt" "dt \<le> 31"
      and "h \<le> 23" "mi \<le> 59" "sec \<le> 59" "ms \<le> 999"
  shows "date_parse tz (pad 4 y @ CHR ''-'' # pad 2 m @ CHR ''-'' # pad 2 dt) =
           TimeClip (MakeDate (MakeDay (int y) m dt) 0) \<and>
         date_parse tz (pad 4 y @ CHR ''-'' # pad 2 m @ CHR ''-'' # pad 2 dt @ CHR ''T'' #
                        pad 2 h @ CHR '':'' # pad 2 mi @ CHR '':'' # pad 2 sec @ CHR ''.'' # pad 3 ms) =
           TimeClip (MakeDate (MakeDay (int y) m dt) (MakeTime h mi sec ms) - tz) \<and>
         date_parse tz (pad 4 y @ CHR ''-'' # pad 2 m @ CHR ''-'' # pad 2 dt @ CHR ''T'' #
                        pad 2 h @ CHR '':'' # pad 2 mi @ CHR '':'' # pad 2 sec @ CHR ''.'' # pad 3 ms @ ''Z'') =
           TimeClip (MakeDate (MakeDay (int y) m dt) (MakeTime h mi sec ms))"
proof -
  have b: "m < 100" "dt < 100" "h < 100" "mi < 100" "sec < 100" "ms < 1000" using assms by simp_all
  have "parse_date (pad 4 y @ CHR ''-'' # pad 2 m @ CHR ''-'' # pad 2 dt) = Some ((y, m, dt), [])"
    using parse_date_pad [OF assms(1) b(1,2), of "[]"] by simp
  then show ?thesis using assms b
    by (simp add: date_parse_def parse_date_pad parse_time_pad parse_time_pad_end parse_zone_def
                  del: One_nat_def)
qed

lemma date_parse_zones_example:
  "(2024::nat) < 10000 \<and> 1 \<le> (1::nat) \<and> (1::nat) \<le> 12 \<and> 1 \<le> (5::nat) \<and> (5::nat) \<le> 31 \<and>
   (10::nat) \<le> 23 \<and> (30::nat) \<le> 59 \<and> (0::nat) \<le> 59 \<and> (0::nat) \<le> 999 \<and>
   date_parse 3600000 (pad 4 2024 @ CHR ''-'' # pad 2 1 @ CHR ''-'' # pad 2 5 @ CHR ''T'' #
                       pad 2 10 @ CHR '':'' # pad 2 30 @ CHR '':'' # pad 2 0 @ CHR ''.'' # pad 3 0) =
     TimeClip (MakeDate (MakeDay 2024 1 5) (MakeTime 10 30 0 0) - 3600000)"
  using date_parse_zones [of 2024 1 5 10 30 0 0 3600000] by simp

text \<open>C35: What a news card shows for an article the app created: \<open>createNews\<close> stamps
  \<open>published_at\<close> with \<open>new Date().toISOString()\<close> at the instant \<open>t\<close>, and the card's
  \<open>formatDate\<close> shows the calendar date of \<open>t\<close> in the reader's zone, not the date of
  the UTC string.\<close>

theorem created_article_card_date:
  assumes "0 \<le> cv_year (civil_of t)" and "cv_year (civil_of t) \<le> 9999"
      and "toISOString t = Some now"
      and "fst (createNews db f now sid stamp) = Inr (Some n)"
  shows "NewsCard_date tz n =
           month_short_names ! (cv_month (civil_of (t + tz)) - 1) @ '' '' @
           nat_str (cv_date (civil_of (t + tz))) @ '', '' @ year_text (cv_year (civil_of (t + tz)))"
proof -
  have p: "card_date (news_card n) = now"
    using createNews_published [OF assms(4)] by (simp add: server_row_def news_card_def)
  have d: "date_parse tz now = Some t" by (rule date_parse_toISOString [OF assms(1-3)])
  show ?thesis unfolding NewsCard_date_def card_formatDate_def p d by (simp only: option.case Let_def)
qed

theorem created_article_card_date_witness:
  "0 \<le> cv_year (civil_of 0) \<and> cv_year (civil_of 0) \<le> 9999 \<and>
   toISOString 0 = Some (the (toISOString 0)) \<and>
   fst (createNews example_db example_fields (the (toISOString 0)) ''n2'' ''t1'') =
     Inr (Some (server_row ''n2'' ''t1'' (the (toISOString 0)) example_fields)) \<and>
   NewsCard_date 0 (server_row ''n2'' ''t1'' (the (toISOString 0)) example_fields) =
     month_short_names ! (cv_month (civil_of (0 + 0)) - 1) @ '' '' @
     nat_str (cv_date (civil_of (0 + 0))) @ '', '' @ year_text (cv_year (civil_of (0 + 0)))"
proof -
  have y: "cv_year (civil_of 0) = 1970" by (simp add: civil_year YearFromDay_0)
  have iso: "toISOString 0 = Some (the (toISOString 0))" using toISOString_four_digit [of 0] y by simp
  have c: "fst (createNews example_db example_fields (the (toISOString 0)) ''n2'' ''t1'') =
             Inr (Some (server_row ''n2'' ''t1'' (the (toISOString 0)) example_fields))"
    by (simp add: createNews_def pg_insert_def pg_single_def throw_or_data_def pg_ok_def
                  example_db_def example_row_def ids_of_def server_row_def)
  show ?thesis using created_article_card_date [OF _ _ iso c, of 0] y iso c by simp
qed

text \<open>C36: What the detail screen shows for an article stamped at instant \<open>t\<close>: the long
  weekday, month, day and year of \<open>t\<close> in the reader's zone, then \<open>at\<close> and the
  two-digit 12-hour clock: an hour from 1 to 12 equal to the local hour modulo 12,
  the minutes, and \<open>AM\<close> exactly for the hours before noon.\<close>

theorem detail_date_of_stamp:
  assumes "0 \<le> cv_year (civil_of t)" and "cv_year (civil_of t) \<le> 9999"
      and "toISOString t = Some (published_at n)"
  shows "\<exists>h12. 1 \<le> h12 \<and> h12 \<le> 12 \<and> h12 mod 12 = cv_hours (civil_of (t + tz)) mod 12 \<and>
           NewsDetail_date tz n =
             weekday_long_names ! cv_weekday (civil_of (t + tz)) @ '', '' @
             month_long_names ! (cv_month (civil_of (t + tz)) - 1) @ '' '' @
             nat_str (cv_date (civil_of (t + tz))) @ '', '' @ year_text (cv_year (civil_of (t + tz))) @
             '' at '' @ pad 2 h12 @ '':'' @ pad 2 (cv_minutes (civil_of (t + tz))) @ '' '' @
             (if cv_hours (civil_of (t + tz)) < 12 then ''AM'' else ''PM'')"
proof -
  let ?h = "cv_hours (civil_of (t + tz))"
  let ?h12 = "if ?h mod 12 = 0 then 12 else ?h mod 12"
  have p: "det_date (detail_of n) = published_at n" by (simp add: detail_of_def)
  have d: "date_parse tz (published_at n) = Some t" by (rule date_parse_toISOString [OF assms])
  have "1 \<le> ?h12 \<and> ?h12 \<le> 12 \<and> ?h12 mod 12 = ?h mod 12" by auto
  moreover have "NewsDetail_date tz n =
             weekday_long_names ! cv_weekday (civil_of (t + tz)) @ '', '' @
             month_long_names ! (cv_month (civil_of (t + tz)) - 1) @ '' '' @
             nat_str (cv_date (civil_of (t + tz))) @ '', '' @ year_text (cv_year (civil_of (t + tz))) @
             '' at '' @ pad 2 ?h12 @ '':'' @ pad 2 (cv_minutes (civil_of (t + tz))) @ '' '' @
             (if ?h < 12 then ''AM'' else ''PM'')"
    unfolding NewsDetail_date_def detail_formatDate_def p d by (simp only: option.case Let_def)
  ultimately show ?thesis by blast
qed

theorem detail_date_of_stamp_witness:
  "0 \<le> cv_year (civil_of 0) \<and> cv_year (civil_of 0) \<le> 9999 \<and>
   toISOString 0 = Some (published_at (example_row\<lparr>published_at := the (toISOString 0)\<rparr>)) \<and>
   (\<exists>h12. 1 \<le> h12 \<and> h12 \<le> 12 \<and> h12 mod 12 = cv_hours (civil_of (0 + 3600000)) mod 12 \<and>
      NewsDetail_date 3600000 (example_row\<lparr>published_at := the (toISOString 0)\<rparr>) =
        weekday_long_names ! cv_weekday (civil_of (0 + 3600000)) @ '', '' @
        month_long_names ! (cv_month (civil_of (0 + 3600000)) - 1) @ '' '' @
        nat_str (cv_date (civil_of (0 + 3600000))) @ '', '' @ year_text (cv_year (civil_of (0 + 3600000))) @
        '' at '' @ pad 2 h12 @ '':'' @ pad 2 (cv_minutes (civil_of (0 + 3600000))) @ '' '' @
        (if cv_hours (civil_of (0 + 3600000)) < 12 then ''AM'' else ''PM''))"
proof -
  have y: "cv_year (civil_of 0) = 1970" by (simp add: civil_year YearFromDay_0)
  have iso: "toISOString 0 = Some (the (toISOString 0))" using toISOString_four_digit [of 0] y by simp
  show ?thesis
    using detail_date_of_stamp [where t = 0 and tz = 3600000 and n = "example_row\<lparr>published_at := the (toISOString 0)\<rparr>"]
          y iso by simp
qed

end
