(* ===== verification/Spec2Isabelle.thy ===== *)
theory Spec2Isabelle
  imports Fetch_Coordinator Video_Player Admin_Session Screens AddEdit_Form Navigation Gateway_Refinement Widgets Date_Format
begin

text \<open>
  \<^bold>\<open>A verification development of the News App repository.\<close>

  The program is a React Native news reader with an admin panel.  Screens read
  articles through TanStack Query hooks (\<open>src/src/hooks/useNews.ts\<close>) that call a
  Supabase service (\<open>src/src/api/newsService.ts\<close>); the query client of
  \<open>src/App.tsx\<close> caches the answers, deduplicates requests, retries failures and
  refetches after writes.  A Redux store holds the admin session, the settings and
  the selected category.  Articles are written from the admin form, and the detail
  screen plays the article's video.

  \<^bold>\<open>Theories, in import order.\<close>
  \<^item> \<open>News_Prelude\<close>: milliseconds, the JavaScript idioms the sources use (\<open>x || d\<close>,
    \<open>startsWith\<close>, \<open>trim\<close>, \<open>toUpperCase\<close> on ASCII), and lemmas on association lists,
    which model the insertion-ordered \<open>Map\<close> of the query cache.
  \<^item> \<open>News_Model\<close>: \<open>NewsItem\<close>, the category union and the category slice
    (\<open>categorySlice.ts\<close>).
  \<^item> \<open>News_Service\<close>: every method of \<open>newsService\<close> over a model of the Supabase
    table (rows, an online flag, the unique \<open>id\<close>; the PostgREST builder calls
    \<open>select\<close>, \<open>eq\<close>, \<open>order\<close>, \<open>limit\<close>, \<open>single\<close>, \<open>insert\<close>, \<open>update\<close>, \<open>delete\<close> are modelled
    from the spec's gateway contract).  Lemmas: what each read returns, its error
    branch, the write/read round trips, and that writes keep ids unique.
  \<^item> \<open>Gateway_Refinement\<close>: the abstract specification of the gateway, a connection
    flag and a map from article id to article, with \<open>spec_op\<close> for read, create,
    update and delete by id; \<open>exec_op\<close> runs the service's methods; the refinement
    \<open>map_prod id abs_of (exec_op op db) = spec_op op (abs_of db)\<close> for every
    well-formed table, extended to every sequence of operations.
  \<^item> \<open>Query_Cache\<close>: the query client configuration of \<open>App.tsx\<close> (\<open>retry\<close>,
    \<open>retryDelay\<close>, \<open>staleTime\<close>, \<open>gcTime\<close>) and TanStack Query as the spec describes it:
    entries with status, fetch status, observers, retention deadline and request
    number; \<open>fetch_query\<close> (dedup), \<open>subscribe\<close>, \<open>unsubscribe\<close>, \<open>on_response\<close>
    (only the latest request is accepted), \<open>invalidate\<close>, \<open>gc_sweep\<close>, and the
    retryer as structural recursion over the answers of successive attempts.
    Lemmas: invalidation, eviction and cold start, the retry schedule, its
    termination and the delay bounds.
  \<^item> \<open>News_Hooks\<close>: each hook of \<open>useNews.ts\<close> as its options (key, service call,
    \<open>staleTime\<close>, \<open>enabled\<close>), the dashboard's own query, the mutations (write, then
    \<open>invalidateQueries\<close> on success only) including the two of
    \<open>AddEditNewsScreen\<close> and the dashboard's delete-then-refetch.
  \<^item> \<open>Fetch_Coordinator\<close>: the running application as an inductive step relation
    (mounts, refetches, answers in any order, writes, clock ticks, garbage
    collection) with the invariant \<open>client_ok\<close> proved for every reachable state by
    rule induction; from it, fetches always complete and late answers are dropped.
  \<^item> \<open>Video_Player\<close>: \<open>VideoPlayer.tsx\<close> as a state machine: the component's
    \<open>error\<close>/\<open>isPlaying\<close> state, the expo-video player (modelled from its documented
    behaviour: \<open>playingChange\<close> and \<open>statusChange\<close>, no \<open>error\<close> event),
    player events queued until the listeners run and dispatched by name to the
    effect's subscriptions; user actions are allowed only on what is rendered.
    Invariant by rule induction: the source never changes, the label agrees with
    the player, and a load failure never reaches the \<open>'error'\<close> subscription, so
    the error view is unreachable.  The \<open>playingChange\<close> payload is taken as the
    boolean the listener passes to \<open>setIsPlaying\<close>.
  \<^item> \<open>App_Store\<close>: the admin and settings slices, the combined reducer of
    \<open>store.ts\<close> and the settings screen's switches.
  \<^item> \<open>Admin_Session\<close>: \<open>AdminLoginScreen\<close> with its 500 ms check as pending timers
    (each with the password it captured), the dashboard's logout and navigation,
    and the admin stack; the screen's render (\<open>login_view\<close>) and its show-password
    toggle; the shapes of the stack, the login outcomes, that a disabled Login button
    always has a pending check that re-enables it, and a run in which two pending
    checks leave the dashboard shown while logged out.
  \<^item> \<open>Screens\<close>: \<open>HomeScreen\<close>, \<open>CategoryScreen\<close>, \<open>NewsDetailScreen\<close>, the dashboard,
    the carousel and the card as functions from hook results to what is rendered;
    pull-to-refresh as four refetches; the category screen's list header, empty
    state and refresh.
  \<^item> \<open>AddEdit_Form\<close>: form initialisation, \<open>validateForm\<close>, \<open>isValidUrl\<close> (the
    platform URL constructor reduced to scheme and host checks), \<open>handleSubmit\<close>,
    the field edits and the rendered form with the error line under each input.
  \<^item> \<open>Navigation\<close>: the drawer and the categories tab as rendered, press handlers as
    the navigation requests they issue, the route tables, the screen headers (the
    drawer button of the tabs, the back button and titles of the detail and
    category screens) and the splash timer.
  \<^item> \<open>Widgets\<close>: \<open>LoadingSpinner\<close> (default props), \<open>SplashScreen\<close>, and
    \<open>HorizontalTextTicker\<close>: its widths, layout handlers and animation effect, with
    the lemma that a running loop scrolls at \<open>speed\<close> pixels per second.
  \<^item> \<open>Date_Format\<close>: the dates of the articles.  \<open>createNews\<close> stamps
    \<open>published_at\<close> with \<open>toISOString\<close>, and the card (\<open>NewsCard_date\<close>) and the
    detail screen (\<open>NewsDetail_date\<close>) render the \<open>card_date\<close> / \<open>det_date\<close> string
    of \<open>Screens\<close> through their \<open>formatDate\<close> (\<open>card_formatDate\<close>,
    \<open>detail_formatDate\<close>).  The platform's \<open>Date\<close> is modelled from ECMA-262:
    the day and year arithmetic (\<open>DayFromYear\<close>, \<open>YearFromDay\<close>,
    \<open>MonthFromDWY\<close>, \<open>civil_of\<close>), \<open>MakeDay\<close>/\<open>MakeTime\<close>/\<open>MakeDate\<close>,
    \<open>TimeClip\<close>, \<open>toISOString\<close> and \<open>Date.parse\<close> on the date time string format
    (\<open>date_parse\<close>).  Its lemmas: \<open>civil_of\<close> yields fields in range that
    \<open>MakeDay\<close> and \<open>MakeTime\<close> put back together; printing then parsing gives back
    the instant; how the zone of a string decides the instant; and the card of an
    article the app created shows its calendar date in the reader's zone.
  \<^item> \<open>Spec2Isabelle\<close> (this theory): properties that span components: a deleted
    article's detail query is retried like a transient failure, and the cache is
    coherent after a write (an update of an article a detail screen observes is
    refetched, and the screen then shows the database's new row, read through the
    gateway's abstract specification).

  \<^bold>\<open>Bounds and fuel.\<close>  No definition needs fuel.  The only loop of the program,
  the retry loop, is a function of the list of answers its attempts get; it is
  total by structural recursion, and \<open>retryer_settles\<close> shows that more answers
  than remaining retries always settle it.  Times are natural numbers of
  milliseconds (JavaScript numbers far from their precision limit at these
  magnitudes); the ticker's widths are reals, and its division by a zero speed is
  written out as \<open>None\<close>.  State machines are inductive relations: their properties hold for
  every run, of any length.  Time values of \<open>Date\<close> are \<open>int\<close> milliseconds,
  bounded by \<open>TimeClip\<close> (8.64e15 ms) as in the standard; the year search
  \<open>year_up\<close> starts below the answer and terminates by the measure of the days left,
  and the round trip is shown for four-digit years, the years \<open>toISOString\<close> prints
  without a sign and \<open>date_parse\<close> reads.

  \<^bold>\<open>Not modelled.\<close>  Layout and styles (the style sheets, sizes and colours of
  the views); the animation frames of the ticker and the splash dots; daylight saving time
  (the local zone is a fixed offset) and the ICU data behind
  \<open>toLocaleDateString\<close> beyond the en-US names and field order the two formats use;
  expanded (six-digit) years in \<open>Date.parse\<close>; the separator before
  AM/PM is the plain space of older locale data (newer data uses U+202F, which the
  8-bit characters of HOL strings cannot hold); non-ASCII white space in
  \<open>trim\<close> (U+00A0, U+FEFF, ...); a change of the \<open>videoUri\<close> prop of a mounted
  video player (it builds a new player, modelled as a new mount); the router's
  stacks (a handler is modelled by the request it issues, except the admin stack);
  the \<open>ErrorMessage\<close> component, which the screens import but the repository does
  not contain; the network timing of the retryer beyond the delays it sleeps; the
  hardcoded password check is modelled as it is, not as a security design.
\<close>

section \<open>Properties across components\<close>

text \<open>C18: an article deleted while its detail screen is open is retried as if the
  failure were transient: every attempt of the detail query fails with the
  \<open>.single()\<close> error, the retry policy sleeps 1000, 2000 and 4000 ms and surfaces
  that error, and the screen then shows its error view.\<close>

theorem deleted_article_detail_retried:
  assumes "db_online db"
  shows "run_query (snd (deleteNews db i)) (NewsById i) = Fail SingleRowError \<and>
         retryer 0 (replicate 4 (run_query (snd (deleteNews db i)) (NewsById i))) =
           Some (Fail SingleRowError, [1000, 2000, 4000]) \<and>
         detail_view (query_result (settle t (Fail SingleRowError) e)) =
           ErrorScreen ''Failed to load news details. Please try again later.''"
proof -
  have g: "getNewsById (snd (deleteNews db i)) i = Inl SingleRowError"
    using deleteNews_getNewsById [OF assms] by simp
  then have r: "run_query (snd (deleteNews db i)) (NewsById i) = Fail SingleRowError"
    by (simp add: run_query_def)
  moreover have "retryer 0 (replicate 4 (Fail SingleRowError :: (news_data, gateway_error) outcome)) =
      Some (Fail SingleRowError, [1000, 2000, 4000])"
    by (simp add: retry_def retryDelay_def numeral_eq_Suc)
  moreover have "detail_view (query_result (settle t (Fail SingleRowError) e)) =
      ErrorScreen ''Failed to load news details. Please try again later.''"
    by (simp add: detail_view_def query_result_def)
  ultimately show ?thesis by simp
qed

section \<open>Cache coherence after a write\<close>

lemma map_fst_mark_invalid [simp]: "map fst (mark_invalid p c) = map fst c"
  by (induction c) (auto simp: mark_invalid_def)

text \<open>Refetching a list of distinct keys: an idle entry among them is refetched under
  a request number that is among the requests sent.\<close>

lemma refetch_keys_request:
  assumes "distinct ks" and "k \<in> set ks" and "map_of (queries qc) k = Some e" and "q_fetch e \<noteq> Fetching"
  shows "\<exists>n. map_of (queries (fst (refetch_keys ks qc))) k = Some (e\<lparr>q_fetch := Fetching, q_seq := n\<rparr>) \<and>
             (k, n) \<in> set (snd (refetch_keys ks qc))"
  using assms
proof (induction ks arbitrary: qc)
  case Nil
  then show ?case by simp
next
  case (Cons k' ks)
  show ?case
  proof (cases "map_of (queries qc) k'")
    case None
    with Cons.prems(3) have "k \<noteq> k'" by auto
    with None Cons.prems Cons.IH [of qc] show ?thesis by simp
  next
    case (Some e')
    obtain qc1 rs1 where f: "fetch_query True k' e' qc = (qc1, rs1)" by (cases "fetch_query True k' e' qc")
    obtain qc2 rs2 where r: "refetch_keys ks qc1 = (qc2, rs2)" by (cases "refetch_keys ks qc1")
    have rk: "refetch_keys (k' # ks) qc = (qc2, rs1 @ rs2)" using Some f r by simp
    show ?thesis
    proof (cases "k = k'")
      case True
      with Some Cons.prems(3) have e': "e' = e" by simp
      with f Cons.prems(4) have qc1: "qc1 = put k (e\<lparr>q_fetch := Fetching, q_seq := next_seq qc\<rparr>)
          (qc\<lparr>next_seq := Suc (next_seq qc)\<rparr>)" and rs1: "rs1 = [(k, next_seq qc)]"
        using True by (simp_all add: fetch_query_issue)
      from Cons.prems(1) True have "k \<notin> set ks" by simp
      then have "map_of (queries qc2) k = map_of (queries qc1) k"
        using refetch_keys_other [of k ks qc1] r by simp
      with qc1 rs1 rk show ?thesis by auto
    next
      case False
      obtain n where "map_of (queries qc1) = (map_of (queries qc))(k' \<mapsto> e'\<lparr>q_fetch := Fetching, q_seq := n\<rparr>)"
        using fetch_query_map [of True k' e' qc] f by auto
      with False Cons.prems(3) have m1: "map_of (queries qc1) k = Some e" by simp
      have "distinct ks" "k \<in> set ks" using Cons.prems(1,2) False by auto
      from Cons.IH [OF this m1 Cons.prems(4)] r rk show ?thesis by auto
    qed
  qed
qed

lemma invalidate_request:
  assumes "distinct (map fst (queries qc))" and "map_of (queries qc) k = Some e" and "key_matches p k"
    and "0 < q_observers e" and "q_fetch e \<noteq> Fetching"
  shows "\<exists>n. map_of (queries (fst (invalidate p qc))) k =
               Some (e\<lparr>q_invalidated := True, q_fetch := Fetching, q_seq := n\<rparr>) \<and>
             (k, n) \<in> set (snd (invalidate p qc))"
proof -
  let ?qc1 = "qc\<lparr>queries := mark_invalid p (queries qc)\<rparr>"
  have m: "map_of (queries ?qc1) k = Some (e\<lparr>q_invalidated := True\<rparr>)"
    using assms(2,3) by (simp add: map_of_mark_invalid)
  have k: "k \<in> set (active_matching p (queries ?qc1))"
    using active_matchingI [OF m assms(3)] assms(4) by simp
  have d: "distinct (active_matching p (queries ?qc1))"
    using assms(1) by (simp add: active_matching_def distinct_map_filter)
  from refetch_keys_request [OF d k m] assms(5) show ?thesis by (simp add: invalidate_def)
qed

text \<open>C5: the cache is coherent after a write: when \<open>useUpdateNews\<close> patches a stored
  article that a mounted detail screen observes, with no fetch of it in flight, the
  mutation refetches the article, and once that request is answered by the database
  after the write, the detail screen shows the patched article.\<close>

theorem update_then_detail_coherent:
  assumes "db_wf (st_db s)" and "db_online (st_db s)" and "r \<in> set (db_rows (st_db s))" and "p_id p = None"
    and "distinct (map fst (queries (st_client s)))"
    and "map_of (queries (st_client s)) (queryKey (useNewsById (news_id r))) = Some e"
    and "0 < q_observers e" and "q_fetch e \<noteq> Fetching"
  shows "\<exists>n. (queryKey (useNewsById (news_id r)), n) \<in> set (snd (snd (useUpdateNews (news_id r) p s))) \<and>
             detail_screen
               (on_response now (queryKey (useNewsById (news_id r)), n)
                  (run_query (st_db (fst (snd (useUpdateNews (news_id r) p s)))) (queryFn (useNewsById (news_id r))))
                  (st_client (fst (snd (useUpdateNews (news_id r) p s)))))
               (news_id r) =
             DetailView (detail_of (apply_patch p r))"
proof -
  let ?i = "news_id r" and ?k = "queryKey (useNewsById (news_id r))"
  have u: "fst (updateNews (st_db s) ?i p) = Inr (Some (apply_patch p r))"
    and g: "getNewsById (snd (updateNews (st_db s) ?i p)) ?i = Inr (Some (apply_patch p r))"
    using updateNews_then_get [OF assms(1-4)] by simp_all
  have m: "key_matches [KStr ''news''] ?k" by (simp add: useNewsById_def key_matches_def)
  obtain n where e': "map_of (queries (fst (invalidate [KStr ''news''] (st_client s)))) ?k =
      Some (e\<lparr>q_invalidated := True, q_fetch := Fetching, q_seq := n\<rparr>)"
    and req: "(?k, n) \<in> set (snd (invalidate [KStr ''news''] (st_client s)))"
    using invalidate_request [OF assms(5,6) m assms(7,8)] by blast
  have s': "useUpdateNews ?i p s =
      (Inr (Some (apply_patch p r)),
       s\<lparr>st_db := snd (updateNews (st_db s) ?i p), st_client := fst (invalidate [KStr ''news''] (st_client s))\<rparr>,
       snd (invalidate [KStr ''news''] (st_client s)))"
    using u by (simp add: useUpdateNews_def mutate_then_invalidate_def split_def Let_def)
  have q: "run_query (snd (updateNews (st_db s) ?i p)) (queryFn (useNewsById ?i)) = Ok (NewsOne (Some (apply_patch p r)))"
    using g by (simp add: run_query_def useNewsById_def)
  show ?thesis
    using req e' q
    by (auto simp: s' on_response_def detail_screen_def hook_result_def observe_def entry_of_def
        query_result_def detail_view_def news_one_def intro!: exI [of _ n])
qed

section \<open>Witnesses\<close>

theorem deleted_article_detail_retried_witness:
  "run_query (snd (deleteNews example_db ''n1'')) (NewsById ''n1'') = Fail SingleRowError \<and>
   retryer 0 (replicate 4 (run_query (snd (deleteNews example_db ''n1'')) (NewsById ''n1''))) =
     Some (Fail SingleRowError, [1000, 2000, 4000])"
proof -
  have h: "db_online example_db" by (simp add: example_db_def)
  show ?thesis using deleted_article_detail_retried [OF h, of "''n1''" 0 "new_entry staleTime"] by blast
qed

theorem update_then_detail_coherent_witness:
  "\<exists>n. (queryKey (useNewsById (news_id example_row)), n) \<in>
        set (snd (snd (useUpdateNews (news_id example_row) (news_patch.make None (Some ''New'') None None None None None None None None)
           \<lparr>st_db = example_db, st_client = \<lparr>queries = [([KStr ''news'', KStr ''id'', KStr ''n1''],
              (new_entry staleTime)\<lparr>q_observers := 1\<rparr>)], next_seq = 1\<rparr>\<rparr>))) \<and>
      detail_screen
        (on_response 0 (queryKey (useNewsById (news_id example_row)), n)
           (run_query (st_db (fst (snd (useUpdateNews (news_id example_row) (news_patch.make None (Some ''New'') None None None None None None None None)
              \<lparr>st_db = example_db, st_client = \<lparr>queries = [([KStr ''news'', KStr ''id'', KStr ''n1''],
                 (new_entry staleTime)\<lparr>q_observers := 1\<rparr>)], next_seq = 1\<rparr>\<rparr>))))
              (queryFn (useNewsById (news_id example_row))))
           (st_client (fst (snd (useUpdateNews (news_id example_row) (news_patch.make None (Some ''New'') None None None None None None None None)
              \<lparr>st_db = example_db, st_client = \<lparr>queries = [([KStr ''news'', KStr ''id'', KStr ''n1''],
                 (new_entry staleTime)\<lparr>q_observers := 1\<rparr>)], next_seq = 1\<rparr>\<rparr>)))))
        (news_id example_row) =
      DetailView (detail_of (apply_patch (news_patch.make None (Some ''New'') None None None None None None None None) example_row))"
proof -
  let ?s = "\<lparr>st_db = example_db, st_client = \<lparr>queries = [([KStr ''news'', KStr ''id'', KStr ''n1''],
              (new_entry staleTime)\<lparr>q_observers := 1\<rparr>)], next_seq = 1\<rparr>\<rparr> :: app_state"
  let ?p = "news_patch.make None (Some ''New'') None None None None None None None None"
  let ?e = "(new_entry staleTime)\<lparr>q_observers := 1\<rparr> :: (news_data, gateway_error) query_entry"
  have h1: "db_wf (st_db ?s)" by (simp add: db_wf_def example_db_def ids_of_def)
  have h2: "db_online (st_db ?s)" by (simp add: example_db_def)
  have h3: "example_row \<in> set (db_rows (st_db ?s))" by (simp add: example_db_def)
  have h4: "p_id ?p = None" by (simp add: news_patch.make_def)
  have h5: "distinct (map fst (queries (st_client ?s)))" by simp
  have h6: "map_of (queries (st_client ?s)) (queryKey (useNewsById (news_id example_row))) = Some ?e"
    by (simp add: useNewsById_def example_row_def)
  have h7: "0 < q_observers ?e" by simp
  have h8: "q_fetch ?e \<noteq> Fetching" by (simp add: new_entry_def)
  show ?thesis using update_then_detail_coherent [OF h1 h2 h3 h4 h5 h6 h7 h8, of 0] by simp
qed

end
